theory Spec2Isabelle
  imports Complex_Main "HOL-Library.Word"
begin

unbundle bit_operations_syntax

chapter \<open>The annotation data model and its binary serialization\<close>

text \<open>A shallow embedding of \<^verbatim>\<open>neuroglancer/annotation/index.ts\<close> (the property layout,
  the geometry codecs, the annotation store and the binary serializer) and of the picking
  resolver of \<^verbatim>\<open>neuroglancer/annotation/renderlayer.ts\<close>. The definitions come first,
  the proofs follow.\<close>

section \<open>Property layout engine\<close>

text \<open>The property types of \<^verbatim>\<open>AnnotationPropertySpec['type']\<close>.\<close>

datatype AnnotationPropertyType =
  rgb | rgba | float32 | uint32 | int32 | uint16 | int16 | uint8 | int8

text \<open>\<^verbatim>\<open>annotationPropertyTypeHandlers[t].serializedBytes(rank)\<close>; every handler ignores
  the rank. The \<^verbatim>\<open>int8\<close> handler reports 2 bytes.\<close>

fun handler_serializedBytes :: "AnnotationPropertyType \<Rightarrow> nat \<Rightarrow> nat" where
  "handler_serializedBytes rgb rank = 3"
| "handler_serializedBytes rgba rank = 4"
| "handler_serializedBytes float32 rank = 4"
| "handler_serializedBytes uint32 rank = 4"
| "handler_serializedBytes int32 rank = 4"
| "handler_serializedBytes uint16 rank = 2"
| "handler_serializedBytes int16 rank = 2"
| "handler_serializedBytes uint8 rank = 1"
| "handler_serializedBytes int8 rank = 2"

text \<open>\<^verbatim>\<open>annotationPropertyTypeHandlers[t].alignment(rank)\<close>.\<close>

fun handler_alignment :: "AnnotationPropertyType \<Rightarrow> nat \<Rightarrow> nat" where
  "handler_alignment rgb rank = 1"
| "handler_alignment rgba rank = 1"
| "handler_alignment float32 rank = 4"
| "handler_alignment uint32 rank = 4"
| "handler_alignment int32 rank = 4"
| "handler_alignment uint16 rank = 2"
| "handler_alignment int16 rank = 2"
| "handler_alignment uint8 rank = 1"
| "handler_alignment int8 rank = 1"

text \<open>A JavaScript Number: a finite value or one of the three non-finite ones.\<close>

datatype number = Finite real | NaN | PosInfinity | NegInfinity

record AnnotationPropertySpec =
  prop_identifier :: string
  prop_type :: AnnotationPropertyType
  prop_default :: number

text \<open>The result object \<^verbatim>\<open>{serializedBytes, offsets}\<close> of \<^verbatim>\<open>getPropertyOffsets\<close>.
  \<^verbatim>\<open>offsets\<close> is created by \<^verbatim>\<open>new Array(numProperties)\<close>: a slot is \<open>None\<close> until the
  loop assigns it.\<close>

record PropertyOffsets =
  serializedBytes :: nat
  offsets :: "nat option list"

text \<open>\<^verbatim>\<open>permutation.sort((i, j) => getAlignment(j) - getAlignment(i))\<close>:
  \<^verbatim>\<open>Array.prototype.sort\<close> is stable, and the comparator orders the indices by descending
  alignment; \<open>sort_key\<close> is the stable insertion sort by ascending key, so the key is the
  negated alignment.\<close>

definition getAlignment :: "nat \<Rightarrow> AnnotationPropertySpec list \<Rightarrow> nat \<Rightarrow> nat" where
  "getAlignment rank propertySpecs i = handler_alignment (prop_type (propertySpecs ! i)) rank"

definition sortedPermutation :: "nat \<Rightarrow> AnnotationPropertySpec list \<Rightarrow> nat list" where
  "sortedPermutation rank propertySpecs =
     sort_key (\<lambda>i. - int (getAlignment rank propertySpecs i)) [0..<length propertySpecs]"

text \<open>One iteration of the placement loop, for \<^verbatim>\<open>propertyIndex = permutation[outputIndex]\<close>.\<close>

definition placeProperty ::
  "nat \<Rightarrow> AnnotationPropertySpec list \<Rightarrow> PropertyOffsets \<Rightarrow> nat \<Rightarrow> PropertyOffsets" where
  "placeProperty rank propertySpecs st propertyIndex =
     (let spec = propertySpecs ! propertyIndex;
          numBytes = handler_serializedBytes (prop_type spec) rank;
          alignment = handler_alignment (prop_type spec) rank;
          aligned = serializedBytes st + (alignment - (serializedBytes st mod alignment)) mod alignment
      in \<lparr>serializedBytes = aligned + numBytes,
          offsets = (offsets st)[propertyIndex := Some aligned]\<rparr>)"

text \<open>The placement loop as a whole: the state when it ends.\<close>

definition placeAll :: "nat \<Rightarrow> AnnotationPropertySpec list \<Rightarrow> PropertyOffsets" where
  "placeAll rank propertySpecs =
     foldl (placeProperty rank propertySpecs)
       \<lparr>serializedBytes = 0, offsets = replicate (length propertySpecs) None\<rparr>
       (sortedPermutation rank propertySpecs)"

definition getPropertyOffsets :: "nat \<Rightarrow> AnnotationPropertySpec list \<Rightarrow> PropertyOffsets" where
  "getPropertyOffsets rank propertySpecs =
     (let st = placeAll rank propertySpecs
      in st\<lparr>serializedBytes := serializedBytes st + (4 - (serializedBytes st mod 4)) mod 4\<rparr>)"

text \<open>The bytes of the layout that belong to no property. \<open>alignmentPadding\<close> is what the
  loop adds before the properties (line
  \<^verbatim>\<open>serializedBytes += (alignment - (serializedBytes % alignment)) % alignment\<close>),
  \<open>finalPadding\<close> what is added after the last one (line
  \<^verbatim>\<open>serializedBytes += (4 - (serializedBytes % 4)) % 4\<close>), and \<open>paddingBytes\<close> is both.\<close>

definition propertyBytes :: "nat \<Rightarrow> AnnotationPropertySpec list \<Rightarrow> nat" where
  "propertyBytes rank propertySpecs =
     sum_list (map (\<lambda>spec. handler_serializedBytes (prop_type spec) rank) propertySpecs)"

definition alignmentPadding :: "nat \<Rightarrow> AnnotationPropertySpec list \<Rightarrow> nat" where
  "alignmentPadding rank propertySpecs =
     serializedBytes (placeAll rank propertySpecs) - propertyBytes rank propertySpecs"

definition finalPadding :: "nat \<Rightarrow> AnnotationPropertySpec list \<Rightarrow> nat" where
  "finalPadding rank propertySpecs =
     serializedBytes (getPropertyOffsets rank propertySpecs) -
       serializedBytes (placeAll rank propertySpecs)"

definition paddingBytes :: "nat \<Rightarrow> AnnotationPropertySpec list \<Rightarrow> nat" where
  "paddingBytes rank propertySpecs =
     serializedBytes (getPropertyOffsets rank propertySpecs) - propertyBytes rank propertySpecs"

definition maxAlignment :: "nat \<Rightarrow> AnnotationPropertySpec list \<Rightarrow> nat" where
  "maxAlignment rank propertySpecs =
     foldr max (map (\<lambda>spec. handler_alignment (prop_type spec) rank) propertySpecs) 0"

definition mkSpec :: "string \<Rightarrow> AnnotationPropertyType \<Rightarrow> AnnotationPropertySpec" where
  "mkSpec name t = \<lparr>prop_identifier = name, prop_type = t, prop_default = Finite 0\<rparr>"

text \<open>The invariant of the placement loop: every offset assigned so far is a multiple of
  its property's alignment.\<close>

definition offsets_aligned :: "nat \<Rightarrow> AnnotationPropertySpec list \<Rightarrow> PropertyOffsets \<Rightarrow> bool" where
  "offsets_aligned rank specs st \<longleftrightarrow>
     length (offsets st) = length specs \<and>
     (\<forall>i<length specs. \<forall>off. offsets st ! i = Some off \<longrightarrow>
        handler_alignment (prop_type (specs ! i)) rank dvd off)"

section \<open>Annotations\<close>

type_synonym AnnotationId = string

datatype AnnotationType = POINT | LINE | AXIS_ALIGNED_BOUNDING_BOX | ELLIPSOID

definition annotationTypes :: "AnnotationType list" where
  "annotationTypes = [POINT, LINE, AXIS_ALIGNED_BOUNDING_BOX, ELLIPSOID]"

text \<open>A JavaScript value that may be \<^verbatim>\<open>undefined\<close> or \<^verbatim>\<open>null\<close>.\<close>

datatype 'a nullable = Undefined | Null | Defined 'a

text \<open>The geometry fields of the four interfaces \<^verbatim>\<open>Point\<close>, \<^verbatim>\<open>Line\<close>,
  \<^verbatim>\<open>AxisAlignedBoundingBox\<close> and \<^verbatim>\<open>Ellipsoid\<close>. A \<^verbatim>\<open>Float32Array\<close> is the list of
  its elements; \<open>'f\<close> is the element type (the binary32 bit pattern in the codecs).\<close>

datatype 'f Geometry =
    Point "'f list"
  | Line "'f list" "'f list"
  | AxisAlignedBoundingBox "'f list" "'f list"
  | Ellipsoid "'f list" "'f list"

text \<open>The \<^verbatim>\<open>type\<close> tag of an annotation.\<close>

fun geometryType :: "'f Geometry \<Rightarrow> AnnotationType" where
  "geometryType (Point p) = POINT"
| "geometryType (Line a b) = LINE"
| "geometryType (AxisAlignedBoundingBox a b) = AXIS_ALIGNED_BOUNDING_BOX"
| "geometryType (Ellipsoid c r) = ELLIPSOID"

text \<open>Field access on an annotation object: \<open>None\<close> is \<^verbatim>\<open>undefined\<close> (the annotation
  is of a kind without that field).\<close>

fun field_point :: "'f Geometry \<Rightarrow> 'f list option" where
  "field_point (Point p) = Some p"
| "field_point g = None"

fun field_pointA :: "'f Geometry \<Rightarrow> 'f list option" where
  "field_pointA (Line a b) = Some a"
| "field_pointA (AxisAlignedBoundingBox a b) = Some a"
| "field_pointA g = None"

fun field_pointB :: "'f Geometry \<Rightarrow> 'f list option" where
  "field_pointB (Line a b) = Some b"
| "field_pointB (AxisAlignedBoundingBox a b) = Some b"
| "field_pointB g = None"

fun field_center :: "'f Geometry \<Rightarrow> 'f list option" where
  "field_center (Ellipsoid c r) = Some c"
| "field_center g = None"

fun field_radii :: "'f Geometry \<Rightarrow> 'f list option" where
  "field_radii (Ellipsoid c r) = Some r"
| "field_radii g = None"

text \<open>The geometric vectors of an annotation, in field order.\<close>

fun geometryVectors :: "'f Geometry \<Rightarrow> 'f list list" where
  "geometryVectors (Point p) = [p]"
| "geometryVectors (Line a b) = [a, b]"
| "geometryVectors (AxisAlignedBoundingBox a b) = [a, b]"
| "geometryVectors (Ellipsoid c r) = [c, r]"

text \<open>\<^verbatim>\<open>AnnotationBase\<close> with the geometry of its kind. \<^verbatim>\<open>relatedSegments\<close> is optional
  (\<open>None\<close> when absent); a segment id is a \<^verbatim>\<open>Uint64\<close>.\<close>

record 'f Annotation =
  ann_description :: "string nullable"
  ann_id :: AnnotationId
  ann_relatedSegments :: "64 word list list option"
  ann_properties :: "number list"
  ann_geometry :: "'f Geometry"

definition ann_type :: "'f Annotation \<Rightarrow> AnnotationType" where
  "ann_type a = geometryType (ann_geometry a)"

text \<open>What a JavaScript function throws.\<close>

datatype error = RangeError | TypeError | Error string

section \<open>Geometry type codecs\<close>

type_synonym byte = "8 word"

text \<open>An element of a \<^verbatim>\<open>Float32Array\<close>, as its IEEE-754 binary32 bit pattern.\<close>

type_synonym f32 = "32 word"

text \<open>A \<^verbatim>\<open>DataView\<close> over a whole \<^verbatim>\<open>ArrayBuffer\<close>: the bytes of the buffer.\<close>

type_synonym DataView = "byte list"

definition isNaN32 :: "f32 \<Rightarrow> bool" where
  "isNaN32 w \<longleftrightarrow> w AND 0x7F800000 = 0x7F800000 \<and> w AND 0x007FFFFF \<noteq> 0"

definition isFinite32 :: "f32 \<Rightarrow> bool" where
  "isFinite32 w \<longleftrightarrow> w AND 0x7F800000 \<noteq> 0x7F800000"

definition canonicalNaN :: f32 where
  "canonicalNaN = 0x7FC00000"

text \<open>Reading a \<^verbatim>\<open>Float32Array\<close> element gives a Number that binary32 represents
  exactly, so writing it back as binary32 keeps its bits; only a NaN may change (the
  platform picks the NaN encoding, here the quiet NaN).\<close>

definition storedFloat32 :: "f32 \<Rightarrow> f32" where
  "storedFloat32 w = (if isNaN32 w then canonicalNaN else w)"

definition float32_bytes :: "bool \<Rightarrow> f32 \<Rightarrow> byte list" where
  "float32_bytes littleEndian w =
     (let bs = [ucast w, ucast (drop_bit 8 w), ucast (drop_bit 16 w), ucast (drop_bit 24 w)]
      in if littleEndian then bs else rev bs)"

fun bytes_le_float32 :: "byte list \<Rightarrow> f32" where
  "bytes_le_float32 [b0, b1, b2, b3] =
     ucast b0 OR push_bit 8 (ucast b1) OR push_bit 16 (ucast b2) OR push_bit 24 (ucast b3)"
| "bytes_le_float32 bs = 0"

definition bytes_float32 :: "bool \<Rightarrow> byte list \<Rightarrow> f32" where
  "bytes_float32 littleEndian bs = bytes_le_float32 (if littleEndian then bs else rev bs)"

text \<open>\<^verbatim>\<open>DataView.prototype.setFloat32(offset, value, littleEndian)\<close>: a \<^verbatim>\<open>RangeError\<close>
  when the four bytes do not fit.\<close>

definition setFloat32 :: "DataView \<Rightarrow> nat \<Rightarrow> f32 \<Rightarrow> bool \<Rightarrow> error + DataView" where
  "setFloat32 buffer offset v littleEndian =
     (if offset + 4 \<le> length buffer
      then Inr (take offset buffer @ float32_bytes littleEndian (storedFloat32 v) @
                drop (offset + 4) buffer)
      else Inl RangeError)"

definition getFloat32 :: "DataView \<Rightarrow> nat \<Rightarrow> bool \<Rightarrow> error + f32" where
  "getFloat32 buffer offset littleEndian =
     (if offset + 4 \<le> length buffer
      then Inr (bytes_float32 littleEndian (take 4 (drop offset buffer)))
      else Inl RangeError)"

text \<open>\<^verbatim>\<open>vec[i]\<close> on a \<^verbatim>\<open>Float32Array\<close>: \<^verbatim>\<open>undefined\<close> out of range, which
  \<^verbatim>\<open>setFloat32\<close> converts to NaN.\<close>

definition elementAt :: "f32 list \<Rightarrow> nat \<Rightarrow> f32" where
  "elementAt vec i = (if i < length vec then vec ! i else canonicalNaN)"

text \<open>The loop of \<^verbatim>\<open>serializeFloatVector\<close>, from index \<open>i\<close>. The vector is \<open>None\<close> when
  the annotation has no such field: \<^verbatim>\<open>vec[i]\<close> then throws a \<^verbatim>\<open>TypeError\<close>. The result
  is the buffer as written and the returned offset.\<close>

function serializeFloatVector_loop ::
  "DataView \<Rightarrow> nat \<Rightarrow> bool \<Rightarrow> nat \<Rightarrow> f32 list option \<Rightarrow> nat \<Rightarrow> error + (DataView \<times> nat)" where
  "serializeFloatVector_loop buffer offset isLittleEndian rank vec i =
     (if i < rank then
        (case vec of
           None \<Rightarrow> Inl TypeError
         | Some v \<Rightarrow>
             (case setFloat32 buffer offset (elementAt v i) isLittleEndian of
                Inl e \<Rightarrow> Inl e
              | Inr buffer' \<Rightarrow>
                  serializeFloatVector_loop buffer' (offset + 4) isLittleEndian rank vec (i + 1)))
      else Inr (buffer, offset))"
  by pat_completeness auto
termination
  by (relation "measure (\<lambda>(buffer, offset, le, rank, vec, i). rank - i)") auto

definition serializeFloatVector ::
  "DataView \<Rightarrow> nat \<Rightarrow> bool \<Rightarrow> nat \<Rightarrow> f32 list option \<Rightarrow> error + (DataView \<times> nat)" where
  "serializeFloatVector buffer offset isLittleEndian rank vec =
     serializeFloatVector_loop buffer offset isLittleEndian rank vec 0"

definition serializeTwoFloatVectors ::
  "DataView \<Rightarrow> nat \<Rightarrow> bool \<Rightarrow> nat \<Rightarrow> f32 list option \<Rightarrow> f32 list option \<Rightarrow>
   error + (DataView \<times> nat)" where
  "serializeTwoFloatVectors buffer offset isLittleEndian rank vecA vecB =
     (case serializeFloatVector buffer offset isLittleEndian rank vecA of
        Inl e \<Rightarrow> Inl e
      | Inr (buffer', offset') \<Rightarrow> serializeFloatVector buffer' offset' isLittleEndian rank vecB)"

text \<open>The loop of \<^verbatim>\<open>deserializeFloatVector\<close>, from index \<open>i\<close>; \<open>vec\<close> is the array being
  filled. A store past the end of a \<^verbatim>\<open>Float32Array\<close> is ignored, as \<open>list_update\<close> does.\<close>

function deserializeFloatVector_loop ::
  "DataView \<Rightarrow> nat \<Rightarrow> bool \<Rightarrow> nat \<Rightarrow> f32 list \<Rightarrow> nat \<Rightarrow> error + (f32 list \<times> nat)" where
  "deserializeFloatVector_loop buffer offset isLittleEndian rank vec i =
     (if i < rank then
        (case getFloat32 buffer offset isLittleEndian of
           Inl e \<Rightarrow> Inl e
         | Inr x \<Rightarrow>
             deserializeFloatVector_loop buffer (offset + 4) isLittleEndian rank
               (vec[i := storedFloat32 x]) (i + 1))
      else Inr (vec, offset))"
  by pat_completeness auto
termination
  by (relation "measure (\<lambda>(buffer, offset, le, rank, vec, i). rank - i)") auto

definition deserializeFloatVector ::
  "DataView \<Rightarrow> nat \<Rightarrow> bool \<Rightarrow> nat \<Rightarrow> f32 list \<Rightarrow> error + (f32 list \<times> nat)" where
  "deserializeFloatVector buffer offset isLittleEndian rank vec =
     deserializeFloatVector_loop buffer offset isLittleEndian rank vec 0"

definition deserializeTwoFloatVectors ::
  "DataView \<Rightarrow> nat \<Rightarrow> bool \<Rightarrow> nat \<Rightarrow> f32 list \<Rightarrow> f32 list \<Rightarrow>
   error + (f32 list \<times> f32 list \<times> nat)" where
  "deserializeTwoFloatVectors buffer offset isLittleEndian rank vecA vecB =
     (case deserializeFloatVector buffer offset isLittleEndian rank vecA of
        Inl e \<Rightarrow> Inl e
      | Inr (vecA', offset') \<Rightarrow>
          (case deserializeFloatVector buffer offset' isLittleEndian rank vecB of
             Inl e \<Rightarrow> Inl e
           | Inr (vecB', offset'') \<Rightarrow> Inr (vecA', vecB', offset'')))"

text \<open>\<^verbatim>\<open>new Float32Array(rank)\<close>: \<open>rank\<close> elements \<open>+0\<close>.\<close>

definition newFloat32Array :: "nat \<Rightarrow> f32 list" where
  "newFloat32Array rank = replicate rank 0"

text \<open>The table \<^verbatim>\<open>typeHandlers\<close>, one function per handler field.\<close>

fun typeHandler_serializedBytes :: "AnnotationType \<Rightarrow> nat \<Rightarrow> nat" where
  "typeHandler_serializedBytes LINE rank = 2 * 4 * rank"
| "typeHandler_serializedBytes POINT rank = rank * 4"
| "typeHandler_serializedBytes AXIS_ALIGNED_BOUNDING_BOX rank = 2 * 4 * rank"
| "typeHandler_serializedBytes ELLIPSOID rank = 2 * 4 * rank"

fun typeHandler_serialize ::
  "AnnotationType \<Rightarrow> DataView \<Rightarrow> nat \<Rightarrow> bool \<Rightarrow> nat \<Rightarrow> f32 Annotation \<Rightarrow> error + DataView" where
  "typeHandler_serialize LINE buffer offset isLittleEndian rank annotation =
     map_sum (\<lambda>e. e) fst
       (serializeTwoFloatVectors buffer offset isLittleEndian rank
          (field_pointA (ann_geometry annotation)) (field_pointB (ann_geometry annotation)))"
| "typeHandler_serialize POINT buffer offset isLittleEndian rank annotation =
     map_sum (\<lambda>e. e) fst
       (serializeFloatVector buffer offset isLittleEndian rank
          (field_point (ann_geometry annotation)))"
| "typeHandler_serialize AXIS_ALIGNED_BOUNDING_BOX buffer offset isLittleEndian rank annotation =
     map_sum (\<lambda>e. e) fst
       (serializeTwoFloatVectors buffer offset isLittleEndian rank
          (field_pointA (ann_geometry annotation)) (field_pointB (ann_geometry annotation)))"
| "typeHandler_serialize ELLIPSOID buffer offset isLittleEndian rank annotation =
     map_sum (\<lambda>e. e) fst
       (serializeTwoFloatVectors buffer offset isLittleEndian rank
          (field_center (ann_geometry annotation)) (field_radii (ann_geometry annotation)))"

text \<open>The object literal a \<^verbatim>\<open>deserialize\<close> returns: \<^verbatim>\<open>{type, <geometry>, id, properties: []}\<close>,
  with neither a description nor related segments.\<close>

definition deserialized :: "AnnotationId \<Rightarrow> f32 Geometry \<Rightarrow> f32 Annotation" where
  "deserialized ident g =
     \<lparr>ann_description = Undefined, ann_id = ident, ann_relatedSegments = None,
      ann_properties = [], ann_geometry = g\<rparr>"

fun typeHandler_deserialize ::
  "AnnotationType \<Rightarrow> DataView \<Rightarrow> nat \<Rightarrow> bool \<Rightarrow> nat \<Rightarrow> AnnotationId \<Rightarrow> error + f32 Annotation" where
  "typeHandler_deserialize LINE buffer offset isLittleEndian rank ident =
     (case deserializeTwoFloatVectors buffer offset isLittleEndian rank
             (newFloat32Array rank) (newFloat32Array rank) of
        Inl e \<Rightarrow> Inl e
      | Inr (pointA, pointB, offset') \<Rightarrow> Inr (deserialized ident (Line pointA pointB)))"
| "typeHandler_deserialize POINT buffer offset isLittleEndian rank ident =
     (case deserializeFloatVector buffer offset isLittleEndian rank (newFloat32Array rank) of
        Inl e \<Rightarrow> Inl e
      | Inr (point, offset') \<Rightarrow> Inr (deserialized ident (Point point)))"
| "typeHandler_deserialize AXIS_ALIGNED_BOUNDING_BOX buffer offset isLittleEndian rank ident =
     (case deserializeTwoFloatVectors buffer offset isLittleEndian rank
             (newFloat32Array rank) (newFloat32Array rank) of
        Inl e \<Rightarrow> Inl e
      | Inr (pointA, pointB, offset') \<Rightarrow>
          Inr (deserialized ident (AxisAlignedBoundingBox pointA pointB)))"
| "typeHandler_deserialize ELLIPSOID buffer offset isLittleEndian rank ident =
     (case deserializeTwoFloatVectors buffer offset isLittleEndian rank
             (newFloat32Array rank) (newFloat32Array rank) of
        Inl e \<Rightarrow> Inl e
      | Inr (center, radii, offset') \<Rightarrow> Inr (deserialized ident (Ellipsoid center radii)))"

text \<open>The data model's invariant on an annotation: every geometric vector has exactly
  \<open>rank\<close> components; and the round-trip's premise: every component is a finite binary32.\<close>

definition vectorsOfRank :: "nat \<Rightarrow> 'f Annotation \<Rightarrow> bool" where
  "vectorsOfRank rank a = list_all (\<lambda>v. length v = rank) (geometryVectors (ann_geometry a))"

definition finiteComponents :: "f32 Annotation \<Rightarrow> bool" where
  "finiteComponents a = list_all (list_all isFinite32) (geometryVectors (ann_geometry a))"

text \<open>The bytes a float vector occupies.\<close>

definition vectorBytes :: "bool \<Rightarrow> f32 list \<Rightarrow> nat \<Rightarrow> nat \<Rightarrow> byte list" where
  "vectorBytes le v i rank =
     concat (map (\<lambda>j. float32_bytes le (storedFloat32 (elementAt v j))) [i..<rank])"

text \<open>Two annotations for the examples below: a line with the vectors \<open>(1, -2)\<close> and
  \<open>(3, 0)\<close>, and a point \<open>(1)\<close> that carries a description, a related segment and a
  property value.\<close>

definition exampleLine :: "f32 Annotation" where
  "exampleLine =
     \<lparr>ann_description = Undefined, ann_id = ''line-1'', ann_relatedSegments = None,
      ann_properties = [], ann_geometry = Line [0x3F800000, 0xC0000000] [0x40400000, 0]\<rparr>"

definition examplePoint :: "f32 Annotation" where
  "examplePoint =
     \<lparr>ann_description = Defined ''soma'', ann_id = ''point-1'', ann_relatedSegments = Some [[7]],
      ann_properties = [Finite 7], ann_geometry = Point [0x3F800000]\<rparr>"

section \<open>A JavaScript \<^verbatim>\<open>Map\<close>\<close>

text \<open>A \<^verbatim>\<open>Map\<close> keeps its entries in insertion order: it is an association list with
  distinct keys. \<^verbatim>\<open>set\<close> on a present key replaces the value in place, on a new key it
  appends the entry.\<close>

type_synonym ('k, 'v) JsMap = "('k \<times> 'v) list"

fun Map_set :: "('k, 'v) JsMap \<Rightarrow> 'k \<Rightarrow> 'v \<Rightarrow> ('k, 'v) JsMap" where
  "Map_set [] k v = [(k, v)]"
| "Map_set ((k', v') # m) k v = (if k' = k then (k, v) # m else (k', v') # Map_set m k v)"

definition Map_get :: "('k, 'v) JsMap \<Rightarrow> 'k \<Rightarrow> 'v option" where
  "Map_get m k = map_of m k"

definition Map_has :: "('k, 'v) JsMap \<Rightarrow> 'k \<Rightarrow> bool" where
  "Map_has m k \<longleftrightarrow> map_of m k \<noteq> None"

definition Map_delete :: "('k, 'v) JsMap \<Rightarrow> 'k \<Rightarrow> ('k, 'v) JsMap" where
  "Map_delete m k = filter (\<lambda>(k', v). k' \<noteq> k) m"

definition Map_values :: "('k, 'v) JsMap \<Rightarrow> 'v list" where
  "Map_values m = map snd m"

definition Map_size :: "('k, 'v) JsMap \<Rightarrow> nat" where
  "Map_size m = length m"

text \<open>\<^verbatim>\<open>new Map(entries)\<close>: the entries are set one after the other.\<close>

definition Map_new :: "('k \<times> 'v) list \<Rightarrow> ('k, 'v) JsMap" where
  "Map_new entries = foldl (\<lambda>m (k, v). Map_set m k v) [] entries"

section \<open>Annotation binary serializer\<close>

text \<open>\<^verbatim>\<open>AnnotationPropertySerializer\<close>: its \<^verbatim>\<open>serialize\<close> field is a function compiled from
  the schema; here it is a function value from the buffer, the offset, the endianness and
  the property values to the buffer as written.\<close>

record AnnotationPropertySerializer =
  aps_rank :: nat
  aps_propertySpecs :: "AnnotationPropertySpec list"
  aps_serializedBytes :: nat
  aps_serialize :: "DataView \<Rightarrow> nat \<Rightarrow> bool \<Rightarrow> number list \<Rightarrow> error + DataView"

text \<open>A \<^verbatim>\<open>Uint8Array\<close>: a view from \<^verbatim>\<open>byteOffset\<close> into its buffer.\<close>

record Uint8Array =
  u8_buffer :: "byte list"
  u8_byteOffset :: nat

text \<open>\<^verbatim>\<open>SerializedAnnotations\<close>. The three arrays indexed by annotation type are partial
  maps: an index that was never assigned is \<^verbatim>\<open>undefined\<close>.\<close>

record SerializedAnnotations =
  sa_data :: Uint8Array
  sa_typeToIds :: "AnnotationType \<rightharpoonup> AnnotationId list"
  sa_typeToOffset :: "AnnotationType \<rightharpoonup> nat"
  sa_typeToIdMaps :: "AnnotationType \<rightharpoonup> (AnnotationId, nat) JsMap"

text \<open>The first loop of \<^verbatim>\<open>serializeAnnotations\<close>: one iteration, on the pair
  \<open>(totalBytes, typeToOffset)\<close>. \<open>allAnnotations\<close> is the array of the four per-type
  arrays.\<close>

definition sizeStep ::
  "(AnnotationType \<Rightarrow> f32 Annotation list) \<Rightarrow> nat \<Rightarrow> nat \<Rightarrow>
   nat \<times> (AnnotationType \<rightharpoonup> nat) \<Rightarrow> AnnotationType \<Rightarrow> nat \<times> (AnnotationType \<rightharpoonup> nat)" where
  "sizeStep allAnnotations rank serializedPropertiesBytes st annotationType =
     (let totalBytes = fst st;
          typeToOffset = (snd st)(annotationType \<mapsto> totalBytes);
          count = length (allAnnotations annotationType);
          totalBytes1 = totalBytes +
            (typeHandler_serializedBytes annotationType rank + serializedPropertiesBytes) * count;
          totalBytes2 = totalBytes1 + (4 - (totalBytes1 mod 4)) mod 4
      in (totalBytes2, typeToOffset))"

text \<open>The inner loop of the second loop: the annotations of one type, from \<open>offset\<close>.\<close>

fun writeAnnotations ::
  "AnnotationPropertySerializer \<Rightarrow> AnnotationType \<Rightarrow> bool \<Rightarrow> DataView \<Rightarrow> nat \<Rightarrow>
   f32 Annotation list \<Rightarrow> error + DataView" where
  "writeAnnotations ps annotationType isLittleEndian dataView offset [] = Inr dataView"
| "writeAnnotations ps annotationType isLittleEndian dataView offset (annotation # annotations) =
     (let rank = aps_rank ps;
          geometryBytes = typeHandler_serializedBytes annotationType rank
      in case typeHandler_serialize annotationType dataView offset isLittleEndian rank annotation of
           Inl e \<Rightarrow> Inl e
         | Inr dataView1 \<Rightarrow>
             (case aps_serialize ps dataView1 (offset + geometryBytes) isLittleEndian
                     (ann_properties annotation) of
                Inl e \<Rightarrow> Inl e
              | Inr dataView2 \<Rightarrow>
                  writeAnnotations ps annotationType isLittleEndian dataView2
                    (offset + geometryBytes + aps_serializedBytes ps) annotations))"

text \<open>The second loop, over the annotation types. The offset of a type was assigned by
  the first loop; the branch for an unassigned one is never taken.\<close>

fun writeTypes ::
  "(AnnotationType \<Rightarrow> f32 Annotation list) \<Rightarrow> AnnotationPropertySerializer \<Rightarrow> bool \<Rightarrow>
   (AnnotationType \<rightharpoonup> nat) \<Rightarrow> SerializedAnnotations \<Rightarrow> AnnotationType list \<Rightarrow>
   error + SerializedAnnotations" where
  "writeTypes allAnnotations ps isLittleEndian typeToOffset sa [] = Inr sa"
| "writeTypes allAnnotations ps isLittleEndian typeToOffset sa (annotationType # types) =
     (let annotations = allAnnotations annotationType;
          typeToIds = (sa_typeToIds sa)(annotationType \<mapsto> map ann_id annotations);
          typeToIdMaps = (sa_typeToIdMaps sa)(annotationType \<mapsto>
             Map_new (zip (map ann_id annotations) [0..<length annotations]))
      in case typeToOffset annotationType of
           None \<Rightarrow> Inl TypeError
         | Some offset \<Rightarrow>
             (case writeAnnotations ps annotationType isLittleEndian
                     (u8_buffer (sa_data sa)) offset annotations of
                Inl e \<Rightarrow> Inl e
              | Inr dataView \<Rightarrow>
                  writeTypes allAnnotations ps isLittleEndian typeToOffset
                    (sa\<lparr>sa_data := (sa_data sa)\<lparr>u8_buffer := dataView\<rparr>,
                        sa_typeToIds := typeToIds, sa_typeToIdMaps := typeToIdMaps\<rparr>) types))"

text \<open>\<^verbatim>\<open>serializeAnnotations(allAnnotations, propertySerializer)\<close>; \<open>isLittleEndian\<close> is
  the platform's constant \<^verbatim>\<open>ENDIANNESS === Endianness.LITTLE\<close>. The buffer is allocated
  zeroed, and the returned \<^verbatim>\<open>Uint8Array\<close> views it from byte 0.\<close>

definition serializeAnnotations ::
  "bool \<Rightarrow> (AnnotationType \<Rightarrow> f32 Annotation list) \<Rightarrow> AnnotationPropertySerializer \<Rightarrow>
   error + SerializedAnnotations" where
  "serializeAnnotations isLittleEndian allAnnotations propertySerializer =
     (let rank = aps_rank propertySerializer;
          serializedPropertiesBytes = aps_serializedBytes propertySerializer;
          sized = foldl (sizeStep allAnnotations rank serializedPropertiesBytes)
                    (0, Map.empty) annotationTypes;
          totalBytes = fst sized;
          typeToOffset = snd sized
      in writeTypes allAnnotations propertySerializer isLittleEndian typeToOffset
           \<lparr>sa_data = \<lparr>u8_buffer = replicate totalBytes 0, u8_byteOffset = 0\<rparr>,
            sa_typeToIds = Map.empty, sa_typeToOffset = typeToOffset,
            sa_typeToIdMaps = Map.empty\<rparr>
           annotationTypes)"

section \<open>Picking\<close>

text \<open>The pick id bookkeeping of \<^verbatim>\<open>drawGeometry\<close>. \<open>pickIdsPerInstance\<close> is the field of
  the render handler of a type, and \<open>roundedCount\<close> is
  \<^verbatim>\<open>count => Math.round(count * drawFraction)\<close>; both come from outside this file. The
  loop returns one entry \<open>(annotationType, basePickId, count)\<close> per call of
  \<^verbatim>\<open>renderHelpers[annotationType].draw(context)\<close>.\<close>

fun drawGeometry_loop ::
  "(AnnotationType \<Rightarrow> nat) \<Rightarrow> (nat \<Rightarrow> nat) \<Rightarrow> SerializedAnnotations \<Rightarrow> nat \<Rightarrow>
   AnnotationType list \<Rightarrow> error + (AnnotationType \<times> nat \<times> nat) list" where
  "drawGeometry_loop pickIdsPerInstance roundedCount sa basePickId [] = Inr []"
| "drawGeometry_loop pickIdsPerInstance roundedCount sa basePickId (annotationType # types) =
     (case sa_typeToIdMaps sa annotationType of
        None \<Rightarrow> Inl TypeError
      | Some idMap \<Rightarrow>
          (if Map_size idMap > 0 then
             (let count = roundedCount (Map_size idMap)
              in map_sum (\<lambda>e. e) (\<lambda>draws. (annotationType, basePickId, count) # draws)
                   (drawGeometry_loop pickIdsPerInstance roundedCount sa
                      (basePickId + count * pickIdsPerInstance annotationType) types))
           else drawGeometry_loop pickIdsPerInstance roundedCount sa basePickId types))"

text \<open>\<open>pickId\<close> is the base that \<^verbatim>\<open>renderContext.pickIDs.register\<close> returned for the chunk.\<close>

definition drawGeometry ::
  "(AnnotationType \<Rightarrow> nat) \<Rightarrow> (nat \<Rightarrow> nat) \<Rightarrow> SerializedAnnotations \<Rightarrow> nat \<Rightarrow>
   error + (AnnotationType \<times> nat \<times> nat) list" where
  "drawGeometry pickIdsPerInstance roundedCount sa pickId =
     drawGeometry_loop pickIdsPerInstance roundedCount sa pickId annotationTypes"

text \<open>Modelled from the spec: the pick id of a drawn instance, which the render helper's
  \<^verbatim>\<open>draw\<close> (not in these sources) assigns. ``Each drawn instance of a geometry kind
  consumes a contiguous block of pick ids (\<^verbatim>\<open>pickIdsPerInstance\<close>)'', assigned
  sequentially per drawn instance from the call's \<^verbatim>\<open>basePickId\<close>.\<close>

definition instancePickId :: "nat \<Rightarrow> nat \<Rightarrow> nat \<Rightarrow> nat \<Rightarrow> nat" where
  "instancePickId basePickId pickIdsPerInstance instanceIndex partIndex =
     basePickId + instanceIndex * pickIdsPerInstance + partIndex"

text \<open>The fields of \<^verbatim>\<open>MouseSelectionState\<close> that \<^verbatim>\<open>updateMouseState\<close> assigns from the
  pick, and the annotation type at which its loop stops.\<close>

record PickedAnnotation =
  pa_annotationType :: AnnotationType
  pa_pickedAnnotationId :: "AnnotationId option"
  pa_pickedOffset :: nat
  pa_pickedAnnotationBuffer :: "byte list"
  pa_pickedAnnotationBufferOffset :: "nat option"

text \<open>The loop of \<^verbatim>\<open>updateMouseState\<close> over the annotation types. \<open>None\<close>: the loop ends
  without a match and the mouse state stays as it was. An array index out of range is
  \<^verbatim>\<open>undefined\<close> (\<open>None\<close> for the id), and so is the sum with an unassigned
  \<^verbatim>\<open>typeToOffset\<close> entry.\<close>

fun updateMouseState_loop ::
  "(AnnotationType \<Rightarrow> nat) \<Rightarrow> nat \<Rightarrow> nat \<Rightarrow> SerializedAnnotations \<Rightarrow> nat \<Rightarrow>
   AnnotationType list \<Rightarrow> error + PickedAnnotation option" where
  "updateMouseState_loop pickIdsPerInstance rank propertiesBytes sa pickedOffset [] = Inr None"
| "updateMouseState_loop pickIdsPerInstance rank propertiesBytes sa pickedOffset
     (annotationType # types) =
     (case sa_typeToIds sa annotationType of
        None \<Rightarrow> Inl TypeError
      | Some ids \<Rightarrow>
          (if pickedOffset < length ids * pickIdsPerInstance annotationType then
             (let instanceIndex = pickedOffset div pickIdsPerInstance annotationType;
                  ident = (if instanceIndex < length ids then Some (ids ! instanceIndex) else None);
                  partIndex = pickedOffset mod pickIdsPerInstance annotationType
              in Inr (Some
                   \<lparr>pa_annotationType = annotationType,
                    pa_pickedAnnotationId = ident,
                    pa_pickedOffset = partIndex,
                    pa_pickedAnnotationBuffer = u8_buffer (sa_data sa),
                    pa_pickedAnnotationBufferOffset =
                      map_option
                        (\<lambda>typeOffset. u8_byteOffset (sa_data sa) + typeOffset +
                           instanceIndex *
                             (typeHandler_serializedBytes annotationType rank + propertiesBytes))
                        (sa_typeToOffset sa annotationType)\<rparr>))
           else updateMouseState_loop pickIdsPerInstance rank propertiesBytes sa
                  (pickedOffset - length ids * pickIdsPerInstance annotationType) types))"

text \<open>\<^verbatim>\<open>updateMouseState(mouseState, _pickedValue, pickedOffset, data)\<close>, up to the
  assignment of the picked fields (the snapping of the mouse position that follows does
  not touch them). \<open>chunkTransformError\<close> is \<^verbatim>\<open>this.chunkTransform.error\<close>, \<open>rank\<close> is
  \<^verbatim>\<open>this.curRank\<close> and \<open>propertiesBytes\<close> is
  \<^verbatim>\<open>this.base.source.annotationPropertySerializer.serializedBytes\<close>.\<close>

definition updateMouseState ::
  "(AnnotationType \<Rightarrow> nat) \<Rightarrow> string option \<Rightarrow> nat \<Rightarrow> nat \<Rightarrow> SerializedAnnotations \<Rightarrow> nat \<Rightarrow>
   error + PickedAnnotation option" where
  "updateMouseState pickIdsPerInstance chunkTransformError rank propertiesBytes sa pickedOffset =
     (if chunkTransformError \<noteq> None then Inr None
      else updateMouseState_loop pickIdsPerInstance rank propertiesBytes sa pickedOffset
             annotationTypes)"

text \<open>The entries a snapshot holds for the types of a list.\<close>

definition snapshotOf ::
  "(AnnotationType \<Rightarrow> f32 Annotation list) \<Rightarrow> SerializedAnnotations \<Rightarrow> AnnotationType \<Rightarrow> bool" where
  "snapshotOf allAnnotations sa t \<longleftrightarrow>
     sa_typeToIds sa t = Some (map ann_id (allAnnotations t)) \<and>
     sa_typeToIdMaps sa t =
       Some (Map_new (zip (map ann_id (allAnnotations t)) [0..<length (allAnnotations t)])) \<and>
     distinct (map ann_id (allAnnotations t))"

text \<open>An example: two points and a line at rank 1, no properties, and the pick ids per
  instance of each type.\<close>

definition pointAt :: "AnnotationId \<Rightarrow> f32 \<Rightarrow> f32 Annotation" where
  "pointAt ident x =
     \<lparr>ann_description = Undefined, ann_id = ident, ann_relatedSegments = None,
      ann_properties = [], ann_geometry = Point [x]\<rparr>"

fun exampleAnnotations :: "AnnotationType \<Rightarrow> f32 Annotation list" where
  "exampleAnnotations POINT = [pointAt ''p0'' 0x3F800000, pointAt ''p1'' 0x40000000]"
| "exampleAnnotations LINE =
     [\<lparr>ann_description = Undefined, ann_id = ''l0'', ann_relatedSegments = None,
       ann_properties = [], ann_geometry = Line [0x3F800000] [0x40400000]\<rparr>]"
| "exampleAnnotations t = []"

definition noProperties :: AnnotationPropertySerializer where
  "noProperties =
     \<lparr>aps_rank = 1, aps_propertySpecs = [], aps_serializedBytes = 0,
      aps_serialize = (\<lambda>dataView offset isLittleEndian properties. Inr dataView)\<rparr>"

fun examplePickIds :: "AnnotationType \<Rightarrow> nat" where
  "examplePickIds POINT = 1"
| "examplePickIds LINE = 3"
| "examplePickIds AXIS_ALIGNED_BOUNDING_BOX = 25"
| "examplePickIds ELLIPSOID = 1"

section \<open>JSON values and their parsers\<close>

datatype json =
    JUndefined
  | JNull
  | JBool bool
  | JNumber number
  | JString string
  | JArray "json list"
  | JObject "(string \<times> json) list"

text \<open>What the platform does to numbers: a store into a \<^verbatim>\<open>Float32Array\<close> rounds a Number
  to binary32, \<^verbatim>\<open>Array.from\<close> of a \<^verbatim>\<open>Float32Array\<close> widens each element to a Number, and
  \<^verbatim>\<open>Number(x)\<close> converts any value to a Number. They are parameters of the model.\<close>

record NumberOps =
  toFloat32 :: "number \<Rightarrow> f32"
  fromFloat32 :: "f32 \<Rightarrow> number"
  toNumber :: "json \<Rightarrow> number"

text \<open>Sequencing of computations that may throw.\<close>

definition bindE :: "error + 'a \<Rightarrow> ('a \<Rightarrow> error + 'b) \<Rightarrow> error + 'b" where
  "bindE m f = (case m of Inl e \<Rightarrow> Inl e | Inr x \<Rightarrow> f x)"

text \<open>\<^verbatim>\<open>Array.prototype.map\<close> with a callback that may throw: the elements in order, up to
  the first that throws.\<close>

fun mapE :: "('a \<Rightarrow> error + 'b) \<Rightarrow> 'a list \<Rightarrow> error + 'b list" where
  "mapE f [] = Inr []"
| "mapE f (x # xs) = bindE (f x) (\<lambda>y. bindE (mapE f xs) (\<lambda>ys. Inr (y # ys)))"

text \<open>Modelled from the spec: \<^verbatim>\<open>verifyObject\<close> of \<^verbatim>\<open>neuroglancer/util/json\<close>, which is not
  in these sources. A persisted annotation is an object; anything else is malformed.\<close>

definition verifyObject :: "json \<Rightarrow> error + unit" where
  "verifyObject obj = (case obj of JObject members \<Rightarrow> Inr () | _ \<Rightarrow> Inl (Error ''Expected JSON object''))"

text \<open>Modelled from the spec: \<^verbatim>\<open>verifyObjectProperty\<close> of \<^verbatim>\<open>neuroglancer/util/json\<close>. The
  validator gets the value of the field, \<^verbatim>\<open>undefined\<close> for a missing field (``a missing
  \<^verbatim>\<open>props\<close> defaults to schema defaults''), and its failure is the failure of the parse.\<close>

definition verifyObjectProperty :: "json \<Rightarrow> string \<Rightarrow> (json \<Rightarrow> error + 'a) \<Rightarrow> error + 'a" where
  "verifyObjectProperty obj propertyName validator =
     validator (case obj of
                  JObject members \<Rightarrow>
                    (case map_of members propertyName of Some v \<Rightarrow> v | None \<Rightarrow> JUndefined)
                | _ \<Rightarrow> JUndefined)"

text \<open>\<^verbatim>\<open>AnnotationType[type].toLowerCase()\<close>: the lowercase type tag.\<close>

fun typeTag :: "AnnotationType \<Rightarrow> string" where
  "typeTag POINT = ''point''"
| "typeTag LINE = ''line''"
| "typeTag AXIS_ALIGNED_BOUNDING_BOX = ''axis_aligned_bounding_box''"
| "typeTag ELLIPSOID = ''ellipsoid''"

text \<open>Modelled from the spec: \<^verbatim>\<open>verifyEnumString(x, AnnotationType)\<close> of
  \<^verbatim>\<open>neuroglancer/util/json\<close>. The type is one of \<^verbatim>\<open>"point"\<close>, \<^verbatim>\<open>"line"\<close>,
  \<^verbatim>\<open>"axis_aligned_bounding_box"\<close>, \<^verbatim>\<open>"ellipsoid"\<close>; an unknown geometry kind is fatal.\<close>

definition verifyEnumString :: "json \<Rightarrow> error + AnnotationType" where
  "verifyEnumString x =
     (case x of
        JString s \<Rightarrow>
          (case filter (\<lambda>t. typeTag t = s) annotationTypes of
             t # ts \<Rightarrow> Inr t
           | [] \<Rightarrow> Inl (Error ''Invalid enum value''))
      | _ \<Rightarrow> Inl (Error ''Invalid enum value''))"

text \<open>Modelled from the spec: \<^verbatim>\<open>verifyString\<close> and \<^verbatim>\<open>verifyOptionalString\<close> of
  \<^verbatim>\<open>neuroglancer/util/json\<close>: a string, which the optional variant lets be missing
  (\<open>None\<close> is \<^verbatim>\<open>undefined\<close>).\<close>

definition verifyString :: "json \<Rightarrow> error + string option" where
  "verifyString x = (case x of JString s \<Rightarrow> Inr (Some s) | _ \<Rightarrow> Inl (Error ''Expected string''))"

definition verifyOptionalString :: "json \<Rightarrow> error + string option" where
  "verifyOptionalString x = (case x of JUndefined \<Rightarrow> Inr None | _ \<Rightarrow> verifyString x)"

text \<open>Modelled from the spec: \<^verbatim>\<open>expectArray(x, length?)\<close> of \<^verbatim>\<open>neuroglancer/util/json\<close>:
  an array, of the given length if one is given (``wrong arity of segments/props
  arrays'' is fatal).\<close>

definition expectArray :: "json \<Rightarrow> nat option \<Rightarrow> error + json list" where
  "expectArray x len =
     (case x of
        JArray a \<Rightarrow>
          (case len of
             None \<Rightarrow> Inr a
           | Some n \<Rightarrow> if length a = n then Inr a else Inl (Error ''Expected array of given length''))
      | _ \<Rightarrow> Inl (Error ''Expected array''))"

text \<open>Modelled from the spec: \<^verbatim>\<open>parseArray(x, parseElement)\<close> of
  \<^verbatim>\<open>neuroglancer/util/json\<close>: \<open>x\<close> is an array, and each element is parsed in order.\<close>

definition parseArray :: "json \<Rightarrow> (json \<Rightarrow> error + 'a) \<Rightarrow> error + 'a list" where
  "parseArray x parseElement =
     (case x of JArray a \<Rightarrow> mapE parseElement a | _ \<Rightarrow> Inl (Error ''Expected array''))"

text \<open>Modelled from the spec: \<^verbatim>\<open>verifyFiniteFloat\<close> and \<^verbatim>\<open>verifyFiniteNonNegativeFloat\<close> of
  \<^verbatim>\<open>neuroglancer/util/json\<close>: ``\<^verbatim>\<open>restoreState\<close> must reject ... non-finite components
  (ellipsoid radii additionally must be non-negative finite)''.\<close>

definition verifyFiniteFloat :: "json \<Rightarrow> error + number" where
  "verifyFiniteFloat x =
     (case x of
        JNumber (Finite r) \<Rightarrow> Inr (Finite r)
      | _ \<Rightarrow> Inl (Error ''Expected finite floating-point number''))"

definition verifyFiniteNonNegativeFloat :: "json \<Rightarrow> error + number" where
  "verifyFiniteNonNegativeFloat x =
     bindE (verifyFiniteFloat x)
       (\<lambda>n. case n of
               Finite r \<Rightarrow> if 0 \<le> r then Inr n
                           else Inl (Error ''Expected non-negative finite floating-point number'')
             | _ \<Rightarrow> Inl (Error ''Expected non-negative finite floating-point number''))"

text \<open>Modelled from the spec: \<^verbatim>\<open>parseFixedLengthArray(new Float32Array(rank), x, verify)\<close> of
  \<^verbatim>\<open>neuroglancer/util/json\<close>: ``\<^verbatim>\<open>restoreState\<close> must reject vectors whose length
  \<open>\<noteq>\<close> rank''; each verified component is stored into the \<^verbatim>\<open>Float32Array\<close>.\<close>

definition parseFixedLengthArray ::
  "NumberOps \<Rightarrow> nat \<Rightarrow> json \<Rightarrow> (json \<Rightarrow> error + number) \<Rightarrow> error + f32 list" where
  "parseFixedLengthArray ops rank x parseElement =
     (case x of
        JArray a \<Rightarrow>
          if length a = rank then mapE (\<lambda>y. bindE (parseElement y) (\<lambda>n. Inr (toFloat32 ops n))) a
          else Inl (Error ''Expected array of fixed length'')
      | _ \<Rightarrow> Inl (Error ''Expected array of fixed length''))"

text \<open>Modelled from the spec: \<^verbatim>\<open>Uint64.parseString\<close> and \<^verbatim>\<open>Uint64.prototype.toString\<close> of
  \<^verbatim>\<open>neuroglancer/util/uint64\<close>, not in these sources: a segment id is persisted as the
  decimal string of a 64-bit unsigned integer.\<close>

definition digitValue :: "char \<Rightarrow> nat option" where
  "digitValue c =
     (if of_char c \<ge> (48::nat) \<and> of_char c \<le> (57::nat) then Some (of_char c - 48) else None)"

fun parseDecimal :: "nat \<Rightarrow> string \<Rightarrow> nat option" where
  "parseDecimal acc [] = Some acc"
| "parseDecimal acc (c # cs) =
     (case digitValue c of None \<Rightarrow> None | Some d \<Rightarrow> parseDecimal (acc * 10 + d) cs)"

definition Uint64_parseString :: "json \<Rightarrow> error + 64 word" where
  "Uint64_parseString x =
     (case x of
        JString s \<Rightarrow>
          (if s = [] then Inl (Error ''Failed to parse string as uint64 value'')
           else case parseDecimal 0 s of
                  Some n \<Rightarrow> if n < 2 ^ 64 then Inr (of_nat n)
                            else Inl (Error ''Failed to parse string as uint64 value'')
                | None \<Rightarrow> Inl (Error ''Failed to parse string as uint64 value''))
      | _ \<Rightarrow> Inl (Error ''Failed to parse string as uint64 value''))"

function decimalString :: "nat \<Rightarrow> string" where
  "decimalString n =
     (if n < 10 then [char_of (48 + n)]
      else decimalString (n div 10) @ [char_of (48 + n mod 10)])"
  by pat_completeness auto
termination
  by (relation "measure (\<lambda>n. n)") auto

definition Uint64_toString :: "64 word \<Rightarrow> string" where
  "Uint64_toString x = decimalString (unat x)"

section \<open>Annotations to and from JSON\<close>

text \<open>The \<^verbatim>\<open>toJSON\<close> field of the four type handlers: the geometry fields, each
  \<^verbatim>\<open>Array.from\<close> of its vector.\<close>

definition vectorToJSON :: "NumberOps \<Rightarrow> f32 list \<Rightarrow> json" where
  "vectorToJSON ops v = JArray (map (\<lambda>x. JNumber (fromFloat32 ops x)) v)"

fun typeHandler_toJSON :: "NumberOps \<Rightarrow> f32 Geometry \<Rightarrow> (string \<times> json) list" where
  "typeHandler_toJSON ops (Line pointA pointB) =
     [(''pointA'', vectorToJSON ops pointA), (''pointB'', vectorToJSON ops pointB)]"
| "typeHandler_toJSON ops (Point point) = [(''point'', vectorToJSON ops point)]"
| "typeHandler_toJSON ops (AxisAlignedBoundingBox pointA pointB) =
     [(''pointA'', vectorToJSON ops pointA), (''pointB'', vectorToJSON ops pointB)]"
| "typeHandler_toJSON ops (Ellipsoid center radii) =
     [(''center'', vectorToJSON ops center), (''radii'', vectorToJSON ops radii)]"

text \<open>\<^verbatim>\<open>annotationToJson(annotation, schema)\<close>; of the schema only the property list is
  read. \<^verbatim>\<open>annotation.description || undefined\<close> is \<^verbatim>\<open>undefined\<close> for a missing, null
  or empty description.\<close>

definition annotationToJson ::
  "NumberOps \<Rightarrow> f32 Annotation \<Rightarrow> AnnotationPropertySpec list \<Rightarrow> json" where
  "annotationToJson ops annotation schemaProperties =
     JObject
       (typeHandler_toJSON ops (ann_geometry annotation) @
        [(''type'', JString (typeTag (ann_type annotation))),
         (''id'', JString (ann_id annotation)),
         (''description'',
            (case ann_description annotation of
               Defined s \<Rightarrow> if s = [] then JUndefined else JString s
             | _ \<Rightarrow> JUndefined))] @
        (case ann_relatedSegments annotation of
           None \<Rightarrow> []
         | Some relatedSegments \<Rightarrow>
             if list_ex (\<lambda>x. length x \<noteq> 0) relatedSegments
             then [(''segments'',
                    JArray (map (\<lambda>segments. JArray (map (\<lambda>x. JString (Uint64_toString x)) segments))
                              relatedSegments))]
             else []) @
        (if length schemaProperties \<noteq> 0
         then [(''props'', JArray (map JNumber (ann_properties annotation)))]
         else []))"

text \<open>The \<^verbatim>\<open>restoreState\<close> field of the four type handlers: the geometry fields parsed
  from the object.\<close>

definition parseVector :: "NumberOps \<Rightarrow> nat \<Rightarrow> json \<Rightarrow> string \<Rightarrow> error + f32 list" where
  "parseVector ops rank obj name =
     verifyObjectProperty obj name (\<lambda>x. parseFixedLengthArray ops rank x verifyFiniteFloat)"

fun typeHandler_restoreState ::
  "NumberOps \<Rightarrow> AnnotationType \<Rightarrow> json \<Rightarrow> nat \<Rightarrow> error + f32 Geometry" where
  "typeHandler_restoreState ops LINE obj rank =
     bindE (parseVector ops rank obj ''pointA'')
       (\<lambda>pointA. bindE (parseVector ops rank obj ''pointB'') (\<lambda>pointB. Inr (Line pointA pointB)))"
| "typeHandler_restoreState ops POINT obj rank =
     bindE (parseVector ops rank obj ''point'') (\<lambda>point. Inr (Point point))"
| "typeHandler_restoreState ops AXIS_ALIGNED_BOUNDING_BOX obj rank =
     bindE (parseVector ops rank obj ''pointA'')
       (\<lambda>pointA. bindE (parseVector ops rank obj ''pointB'')
          (\<lambda>pointB. Inr (AxisAlignedBoundingBox pointA pointB)))"
| "typeHandler_restoreState ops ELLIPSOID obj rank =
     bindE (parseVector ops rank obj ''center'')
       (\<lambda>center.
          bindE (verifyObjectProperty obj ''radii''
                   (\<lambda>x. parseFixedLengthArray ops rank x verifyFiniteNonNegativeFloat))
            (\<lambda>radii. Inr (Ellipsoid center radii)))"

text \<open>The validator of the \<^verbatim>\<open>segments\<close> field in \<^verbatim>\<open>restoreAnnotation\<close>.\<close>

definition parseSegments :: "string list \<Rightarrow> json \<Rightarrow> error + 64 word list list" where
  "parseSegments schemaRelationships relObj =
     (if relObj = JUndefined then Inr (map (\<lambda>r. []) schemaRelationships)
      else bindE (expectArray relObj None)
        (\<lambda>a. if length a = 0 then Inr (map (\<lambda>r. []) schemaRelationships)
              else if length schemaRelationships = 1 \<and> (case hd a of JArray y \<Rightarrow> False | _ \<Rightarrow> True)
              then bindE (parseArray (JArray a) Uint64_parseString) (\<lambda>segments. Inr [segments])
              else bindE (expectArray relObj (Some (length schemaRelationships)))
                (\<lambda>b. parseArray (JArray b) (\<lambda>segments. parseArray segments Uint64_parseString))))"

text \<open>The validator of the \<^verbatim>\<open>props\<close> field.\<close>

definition parseProps :: "NumberOps \<Rightarrow> AnnotationPropertySpec list \<Rightarrow> json \<Rightarrow> error + number list" where
  "parseProps ops schemaProperties propsObj =
     (if propsObj = JUndefined then Inr (map prop_default schemaProperties)
      else bindE (expectArray propsObj (Some (length schemaProperties)))
        (\<lambda>a. parseArray (JArray a) (\<lambda>x. Inr (toNumber ops x))))"

text \<open>\<^verbatim>\<open>restoreAnnotation(obj, schema, allowMissingId)\<close>. \<open>generatedId\<close> is what
  \<^verbatim>\<open>makeAnnotationId()\<close> returns if it is called: the id is generated when the parsed one
  is missing or empty.\<close>

definition restoreAnnotation ::
  "NumberOps \<Rightarrow> AnnotationId \<Rightarrow> json \<Rightarrow> nat \<Rightarrow> string list \<Rightarrow> AnnotationPropertySpec list \<Rightarrow>
   bool \<Rightarrow> error + f32 Annotation" where
  "restoreAnnotation ops generatedId obj schemaRank schemaRelationships schemaProperties
     allowMissingId =
     bindE (verifyObject obj) (\<lambda>u.
     bindE (verifyObjectProperty obj ''type'' verifyEnumString) (\<lambda>type.
     bindE (verifyObjectProperty obj ''id''
              (if allowMissingId then verifyOptionalString else verifyString)) (\<lambda>parsedId.
     bindE (verifyObjectProperty obj ''segments'' (parseSegments schemaRelationships))
       (\<lambda>relatedSegments.
     bindE (verifyObjectProperty obj ''props'' (parseProps ops schemaProperties)) (\<lambda>props.
     bindE (verifyObjectProperty obj ''description'' verifyOptionalString) (\<lambda>description.
     bindE (typeHandler_restoreState ops type obj schemaRank) (\<lambda>geometry.
       Inr \<lparr>ann_description = (case description of None \<Rightarrow> Undefined | Some s \<Rightarrow> Defined s),
            ann_id = (case parsedId of
                        None \<Rightarrow> generatedId
                      | Some s \<Rightarrow> if s = [] then generatedId else s),
            ann_relatedSegments = Some relatedSegments,
            ann_properties = props,
            ann_geometry = geometry\<rparr>)))))))"

section \<open>The annotation store\<close>

text \<open>An \<^verbatim>\<open>AnnotationReference\<close> object: its id, its value (\<^verbatim>\<open>undefined\<close>, \<^verbatim>\<open>null\<close> or
  an annotation) and the reference count of \<^verbatim>\<open>RefCounted\<close>.\<close>

record AnnotationReference =
  ref_id :: AnnotationId
  ref_value :: "f32 Annotation nullable"
  ref_refCount :: nat

text \<open>The notifications, in the order of their dispatch: the store's \<^verbatim>\<open>changed\<close>,
  \<^verbatim>\<open>childAdded\<close>, \<^verbatim>\<open>childUpdated\<close> and \<^verbatim>\<open>childDeleted\<close> signals, and the \<^verbatim>\<open>changed\<close>
  signal of the reference object at an address.\<close>

datatype notification =
    SourceChanged
  | ChildAdded "f32 Annotation"
  | ChildUpdated "f32 Annotation"
  | ChildDeleted AnnotationId
  | ReferenceChanged nat

text \<open>\<^verbatim>\<open>AnnotationSource\<close>. Reference objects are shared between the store and their
  holders, so they live in a store of objects (\<open>refObjects\<close>, by address; \<open>nextRef\<close> is the
  next free address), and \<open>references\<close> maps an id to the address of its registered
  object. \<open>dispatched\<close> is the log of the notifications dispatched so far.\<close>

record AnnotationSource =
  annotationMap :: "(AnnotationId, f32 Annotation) JsMap"
  pending :: "AnnotationId set"
  references :: "(AnnotationId, nat) JsMap"
  rank' :: nat
  relationships :: "string list"
  properties :: "AnnotationPropertySpec list"
  refObjects :: "nat \<rightharpoonup> AnnotationReference"
  nextRef :: nat
  dispatched :: "notification list"

text \<open>The outcome of a method call: it returns a value or throws, and either way leaves
  a state of the store.\<close>

datatype ('a, 's) outcome = Returned 'a 's | Thrown error 's

definition dispatch :: "notification list \<Rightarrow> ('z AnnotationSource_scheme) \<Rightarrow> ('z AnnotationSource_scheme)" where
  "dispatch ns s = s\<lparr>dispatched := dispatched s @ ns\<rparr>"

text \<open>\<^verbatim>\<open>getReference(id)\<close>: the registered object with one more reference, or a new
  object whose value is \<^verbatim>\<open>this.annotationMap.get(id) || null\<close>. It returns the address.\<close>

definition getReference ::
  "AnnotationId \<Rightarrow> ('z AnnotationSource_scheme) \<Rightarrow> nat \<times> ('z AnnotationSource_scheme)" where
  "getReference ident s =
     (case Map_get (references s) ident of
        Some existing \<Rightarrow>
          (existing,
           s\<lparr>refObjects :=
               (case refObjects s existing of
                  None \<Rightarrow> refObjects s
                | Some r \<Rightarrow> (refObjects s)(existing \<mapsto> r\<lparr>ref_refCount := ref_refCount r + 1\<rparr>))\<rparr>)
      | None \<Rightarrow>
          (let existing = nextRef s;
               r = \<lparr>ref_id = ident,
                    ref_value = (case Map_get (annotationMap s) ident of
                                   Some a \<Rightarrow> Defined a
                                 | None \<Rightarrow> Null),
                    ref_refCount = 1\<rparr>
           in (existing,
               s\<lparr>refObjects := (refObjects s)(existing \<mapsto> r),
                  nextRef := nextRef s + 1,
                  references := Map_set (references s) ident existing\<rparr>)))"

text \<open>\<^verbatim>\<open>protected ensureUpdated() {}\<close> of \<^verbatim>\<open>AnnotationSource\<close>: the method is empty. The
  methods of the store call \<^verbatim>\<open>this.ensureUpdated()\<close>, which on an object of a subclass
  that overrides it is the method of the subclass.\<close>

definition AnnotationSource_ensureUpdated :: "AnnotationSource \<Rightarrow> AnnotationSource" where
  "AnnotationSource_ensureUpdated s = s"

text \<open>The digits of a hex string.\<close>

definition hexDigits :: string where
  "hexDigits = ''0123456789abcdef''"

text \<open>Modelled from the spec: \<^verbatim>\<open>getRandomHexString(numBits)\<close> of util/random is not in
  the sources; an id is "generated as a long random hex string when not externally
  supplied". The string has one hex digit for every four bits; \<open>random i\<close> is the random
  draw for digit \<open>i\<close>.\<close>

definition getRandomHexString :: "nat \<Rightarrow> (nat \<Rightarrow> nat) \<Rightarrow> string" where
  "getRandomHexString numBits random =
     map (\<lambda>i. hexDigits ! (random i mod 16)) [0..<(numBits + 3) div 4]"

text \<open>\<^verbatim>\<open>makeAnnotationId()\<close>.\<close>

definition makeAnnotationId :: "(nat \<Rightarrow> nat) \<Rightarrow> AnnotationId" where
  "makeAnnotationId random = getRandomHexString 160 random"

text \<open>\<^verbatim>\<open>add(annotation, commit)\<close>. \<open>add_with\<close> is the method, with the \<^verbatim>\<open>ensureUpdated\<close>
  of the object's class as \<open>thisEnsureUpdated\<close>; \<open>add\<close> is the method on an
  \<^verbatim>\<open>AnnotationSource\<close> object. \<open>generatedId\<close> is what \<^verbatim>\<open>makeAnnotationId()\<close> returns if it
  is called. The error message is given without the id. \<open>add_inserted\<close> is the method
  from \<^verbatim>\<open>this.annotationMap.set\<close> to the update of \<^verbatim>\<open>pending\<close>, for the annotation with
  its id assigned, and \<open>add_insert\<close> ends it with
  \<^verbatim>\<open>return this.getReference(annotation.id)\<close>.\<close>

definition add_inserted ::
  "f32 Annotation \<Rightarrow> bool \<Rightarrow> ('z AnnotationSource_scheme) \<Rightarrow> ('z AnnotationSource_scheme)" where
  "add_inserted annotation commit s =
     (let s1 = s\<lparr>annotationMap := Map_set (annotationMap s) (ann_id annotation) annotation\<rparr>;
          s2 = dispatch [SourceChanged, ChildAdded annotation] s1
      in if \<not> commit then s2\<lparr>pending := insert (ann_id annotation) (pending s2)\<rparr> else s2)"

definition add_insert ::
  "f32 Annotation \<Rightarrow> bool \<Rightarrow> ('z AnnotationSource_scheme) \<Rightarrow>
   (nat, 'z AnnotationSource_scheme) outcome" where
  "add_insert annotation commit s =
     (case getReference (ann_id annotation) (add_inserted annotation commit s) of
        (reference, s') \<Rightarrow> Returned reference s')"

definition add_with ::
  "(('z AnnotationSource_scheme) \<Rightarrow> ('z AnnotationSource_scheme)) \<Rightarrow> AnnotationId \<Rightarrow>
   f32 Annotation \<Rightarrow> bool \<Rightarrow> ('z AnnotationSource_scheme) \<Rightarrow>
   (nat, 'z AnnotationSource_scheme) outcome" where
  "add_with thisEnsureUpdated generatedId annotation commit s0 =
     (let s = thisEnsureUpdated s0
      in if ann_id annotation = [] then add_insert (annotation\<lparr>ann_id := generatedId\<rparr>) commit s
         else if Map_has (annotationMap s) (ann_id annotation)
         then Thrown (Error ''Annotation id already exists'') s
         else add_insert annotation commit s)"

definition add ::
  "AnnotationId \<Rightarrow> f32 Annotation \<Rightarrow> bool \<Rightarrow> AnnotationSource \<Rightarrow> (nat, AnnotationSource) outcome" where
  "add generatedId annotation commit s =
     add_with AnnotationSource_ensureUpdated generatedId annotation commit s"

text \<open>\<^verbatim>\<open>commit(reference)\<close>, in the same way: \<open>commit_with\<close> is the method and \<open>commit\<close>
  the method on an \<^verbatim>\<open>AnnotationSource\<close> object. The reference is given by its address;
  reading a field of what is no object throws a \<^verbatim>\<open>TypeError\<close>.\<close>

definition commit_with ::
  "(('z AnnotationSource_scheme) \<Rightarrow> ('z AnnotationSource_scheme)) \<Rightarrow> nat \<Rightarrow>
   ('z AnnotationSource_scheme) \<Rightarrow> (unit, 'z AnnotationSource_scheme) outcome" where
  "commit_with thisEnsureUpdated reference s0 =
     (let s = thisEnsureUpdated s0
      in case refObjects s reference of
           None \<Rightarrow> Thrown TypeError s
         | Some r \<Rightarrow> Returned () (s\<lparr>pending := pending s - {ref_id r}\<rparr>))"

definition commit :: "nat \<Rightarrow> AnnotationSource \<Rightarrow> (unit, AnnotationSource) outcome" where
  "commit reference s = commit_with AnnotationSource_ensureUpdated reference s"

text \<open>\<^verbatim>\<open>update(reference, annotation)\<close>, \<^verbatim>\<open>get(id)\<close>, the iterator, \<^verbatim>\<open>delete(reference)\<close>,
  \<^verbatim>\<open>toJSON()\<close> and \<^verbatim>\<open>restoreState(obj)\<close> below are the methods on an \<^verbatim>\<open>AnnotationSource\<close>
  object: \<^verbatim>\<open>this.ensureUpdated()\<close>, with which all of them but \<^verbatim>\<open>delete\<close> begin, does
  nothing there.\<close>

text \<open>\<^verbatim>\<open>update(reference, annotation)\<close>.\<close>

definition update ::
  "nat \<Rightarrow> f32 Annotation \<Rightarrow> AnnotationSource \<Rightarrow> (unit, AnnotationSource) outcome" where
  "update reference annotation s =
     (case refObjects s reference of
        None \<Rightarrow> Thrown TypeError s
      | Some r \<Rightarrow>
          if ref_value r = Null then Thrown (Error ''Annotation already deleted.'') s
          else
            (let s1 = s\<lparr>refObjects := (refObjects s)(reference \<mapsto> r\<lparr>ref_value := Defined annotation\<rparr>)\<rparr>;
                 s2 = s1\<lparr>annotationMap := Map_set (annotationMap s1) (ann_id annotation) annotation\<rparr>
             in Returned ()
                  (dispatch [ReferenceChanged reference, SourceChanged, ChildUpdated annotation] s2)))"

text \<open>\<^verbatim>\<open>get(id)\<close> and the iterator.\<close>

definition get :: "AnnotationId \<Rightarrow> AnnotationSource \<Rightarrow> f32 Annotation option" where
  "get ident s = Map_get (annotationMap s) ident"

definition iterate :: "AnnotationSource \<Rightarrow> f32 Annotation list" where
  "iterate s = Map_values (annotationMap s)"

text \<open>\<^verbatim>\<open>delete(reference)\<close>.\<close>

definition delete ::
  "nat \<Rightarrow> AnnotationSource \<Rightarrow> (unit, AnnotationSource) outcome" where
  "delete reference s =
     (case refObjects s reference of
        None \<Rightarrow> Thrown TypeError s
      | Some r \<Rightarrow>
          if ref_value r = Null then Returned () s
          else
            (let s1 = s\<lparr>refObjects := (refObjects s)(reference \<mapsto> r\<lparr>ref_value := Null\<rparr>)\<rparr>;
                 s2 = s1\<lparr>annotationMap := Map_delete (annotationMap s1) (ref_id r)\<rparr>;
                 s3 = s2\<lparr>pending := pending s2 - {ref_id r}\<rparr>
             in Returned ()
                  (dispatch [ReferenceChanged reference, SourceChanged, ChildDeleted (ref_id r)] s3)))"

text \<open>\<^verbatim>\<open>toJSON()\<close>: the annotations in the order of the map, without the pending ones.\<close>

definition toJSON :: "NumberOps \<Rightarrow> AnnotationSource \<Rightarrow> json list" where
  "toJSON ops s =
     map (\<lambda>annotation. annotationToJson ops annotation (properties s))
       (filter (\<lambda>annotation. ann_id annotation \<notin> pending s) (iterate s))"

text \<open>\<^verbatim>\<open>clear()\<close>.\<close>

definition clear :: "AnnotationSource \<Rightarrow> AnnotationSource" where
  "clear s = dispatch [SourceChanged] (s\<lparr>annotationMap := [], pending := {}\<rparr>)"

text \<open>The callback loop of \<^verbatim>\<open>parseArray(obj, x => {...})\<close> in \<^verbatim>\<open>restoreState\<close>: each
  element is parsed and set into the map; a throw leaves the map as it is then.
  \<open>makeId i\<close> is what \<^verbatim>\<open>makeAnnotationId()\<close> returns at the \<open>i\<close>-th element.\<close>

fun restoreElements ::
  "NumberOps \<Rightarrow> (nat \<Rightarrow> AnnotationId) \<Rightarrow> nat \<Rightarrow> json list \<Rightarrow> AnnotationSource \<Rightarrow>
   (unit, AnnotationSource) outcome" where
  "restoreElements ops makeId i [] s = Returned () s"
| "restoreElements ops makeId i (x # xs) s =
     (case restoreAnnotation ops (makeId i) x (rank' s) (relationships s) (properties s) False of
        Inl e \<Rightarrow> Thrown e s
      | Inr annotation \<Rightarrow>
          restoreElements ops makeId (i + 1) xs
            (s\<lparr>annotationMap := Map_set (annotationMap s) (ann_id annotation) annotation\<rparr>))"

text \<open>The loop over \<^verbatim>\<open>this.references.values()\<close>: every registered reference gets the
  annotation of its id, or \<^verbatim>\<open>null\<close>, and its \<^verbatim>\<open>changed\<close> signal is dispatched.\<close>

fun resolveReferences :: "nat list \<Rightarrow> AnnotationSource \<Rightarrow> AnnotationSource" where
  "resolveReferences [] s = s"
| "resolveReferences (reference # rs) s =
     resolveReferences rs
       (case refObjects s reference of
          None \<Rightarrow> s
        | Some r \<Rightarrow>
            dispatch [ReferenceChanged reference]
              (s\<lparr>refObjects := (refObjects s)(reference \<mapsto>
                   r\<lparr>ref_value := (case Map_get (annotationMap s) (ref_id r) of
                                      Some a \<Rightarrow> Defined a
                                    | None \<Rightarrow> Null)\<rparr>)\<rparr>))"

text \<open>\<^verbatim>\<open>restoreState(obj)\<close>.\<close>

definition restoreState ::
  "NumberOps \<Rightarrow> (nat \<Rightarrow> AnnotationId) \<Rightarrow> json \<Rightarrow> AnnotationSource \<Rightarrow>
   (unit, AnnotationSource) outcome" where
  "restoreState ops makeId obj s =
     (let s1 = s\<lparr>annotationMap := [], pending := {}\<rparr>
      in case (if obj \<noteq> JUndefined
               then (case obj of
                       JArray a \<Rightarrow> restoreElements ops makeId 0 a s1
                     | _ \<Rightarrow> Thrown (Error ''Expected array'') s1)
               else Returned () s1) of
           Thrown e s2 \<Rightarrow> Thrown e s2
         | Returned u s2 \<Rightarrow>
             Returned () (dispatch [SourceChanged] (resolveReferences (Map_values (references s2)) s2)))"

text \<open>The store as its constructor leaves it.\<close>

definition newAnnotationSource ::
  "nat \<Rightarrow> string list \<Rightarrow> AnnotationPropertySpec list \<Rightarrow> AnnotationSource" where
  "newAnnotationSource rank schemaRelationships schemaProperties =
     \<lparr>annotationMap = [], pending = {}, references = [], rank' = rank,
      relationships = schemaRelationships, properties = schemaProperties,
      refObjects = Map.empty, nextRef = 0, dispatched = []\<rparr>"

text \<open>What ties the registry of references to the objects: a registered address holds a
  reference object of the id it is registered for, and no object lives at or past the
  next free address.\<close>

definition referencesConsistent :: "AnnotationSource \<Rightarrow> bool" where
  "referencesConsistent s \<longleftrightarrow>
     list_all (\<lambda>(ident, reference).
        case refObjects s reference of None \<Rightarrow> False | Some r \<Rightarrow> ref_id r = ident)
       (references s) \<and>
     list_all (\<lambda>(ident, reference). reference < nextRef s) (references s)"

section \<open>The local annotation source and its rank migration\<close>

text \<open>A coordinate space and a coordinate space transform, as far as \<^verbatim>\<open>ensureUpdated\<close>
  reads them. Both are objects compared by identity (\<^verbatim>\<open>===\<close>): \<open>objectId\<close> stands for the
  identity. A dimension identity is a number.\<close>

record CoordinateSpace =
  cs_objectId :: nat
  cs_ids :: "nat list"

record CoordinateSpaceTransform =
  ct_objectId :: nat
  ct_sourceRank :: nat
  ct_inputSpace :: CoordinateSpace

text \<open>\<^verbatim>\<open>LocalAnnotationSource\<close>; \<open>watchableTransform_value\<close> is
  \<^verbatim>\<open>this.watchableTransform.value\<close>.\<close>

record LocalAnnotationSource = AnnotationSource +
  curCoordinateTransform :: CoordinateSpaceTransform
  watchableTransform_value :: CoordinateSpaceTransform

text \<open>\<^verbatim>\<open>Array.prototype.indexOf\<close>: the first index of the element, or -1. The element is
  \<open>None\<close> for \<^verbatim>\<open>undefined\<close> (an index past the end of \<^verbatim>\<open>newIds\<close>), which no id equals.\<close>

definition indexOf :: "nat list \<Rightarrow> nat option \<Rightarrow> int" where
  "indexOf xs x =
     (case x of
        None \<Rightarrow> -1
      | Some y \<Rightarrow> if y \<in> set xs then int (length (takeWhile (\<lambda>z. z \<noteq> y) xs)) else -1)"

text \<open>The loop that fills \<^verbatim>\<open>newToOldDims\<close>.\<close>

definition newToOldDims :: "nat list \<Rightarrow> nat \<Rightarrow> nat list \<Rightarrow> nat \<Rightarrow> int list" where
  "newToOldDims oldIds oldSourceRank newIds sourceRank =
     map (\<lambda>newDim.
            let oldDim = indexOf oldIds (if newDim < length newIds then Some (newIds ! newDim) else None)
            in if oldDim \<ge> int oldSourceRank then -1 else oldDim)
       [0..<sourceRank]"

text \<open>The closure \<^verbatim>\<open>mapVector\<close>: component \<open>i\<close> of the new vector is 0 when
  \<^verbatim>\<open>newToOldDims[i]\<close> is -1 and \<^verbatim>\<open>radii[i]\<close> otherwise (NaN when \<open>i\<close> is past the end of
  the old vector).\<close>

definition mapVector :: "nat \<Rightarrow> int list \<Rightarrow> f32 list \<Rightarrow> f32 list" where
  "mapVector sourceRank dims radii =
     map (\<lambda>i. let oldDim = dims ! i in if oldDim = -1 then 0 else elementAt radii i)
       [0..<sourceRank]"

fun mapGeometry :: "(f32 list \<Rightarrow> f32 list) \<Rightarrow> f32 Geometry \<Rightarrow> f32 Geometry" where
  "mapGeometry f (Point point) = Point (f point)"
| "mapGeometry f (Line pointA pointB) = Line (f pointA) (f pointB)"
| "mapGeometry f (AxisAlignedBoundingBox pointA pointB) = AxisAlignedBoundingBox (f pointA) (f pointB)"
| "mapGeometry f (Ellipsoid center radii) = Ellipsoid (f center) (f radii)"

text \<open>\<^verbatim>\<open>LocalAnnotationSource.ensureUpdated()\<close>.\<close>

definition ensureUpdated :: "LocalAnnotationSource \<Rightarrow> LocalAnnotationSource" where
  "ensureUpdated s =
     (let transform = watchableTransform_value s;
          cur = curCoordinateTransform s
      in if ct_objectId transform = ct_objectId cur then s
         else
           (let s1 = s\<lparr>curCoordinateTransform := transform\<rparr>;
                sourceRank = ct_sourceRank transform;
                oldSourceRank = ct_sourceRank cur
            in if oldSourceRank = sourceRank \<and>
                  (cs_objectId (ct_inputSpace cur) = cs_objectId (ct_inputSpace transform) \<or>
                   take sourceRank (cs_ids (ct_inputSpace cur)) =
                     take sourceRank (cs_ids (ct_inputSpace transform)))
               then s1
               else
                 (let newIds = cs_ids (ct_inputSpace transform);
                      oldIds = cs_ids (ct_inputSpace cur);
                      dims = newToOldDims oldIds oldSourceRank newIds sourceRank
                  in dispatch [SourceChanged]
                       (s1\<lparr>annotationMap :=
                             map (\<lambda>(k, annotation).
                                    (k, annotation\<lparr>ann_geometry :=
                                          mapGeometry (mapVector sourceRank dims)
                                            (ann_geometry annotation)\<rparr>))
                               (annotationMap s1),
                           rank' := sourceRank\<rparr>))))"

text \<open>\<^verbatim>\<open>add\<close> and \<^verbatim>\<open>commit\<close> on a \<^verbatim>\<open>LocalAnnotationSource\<close> object: the inherited methods,
  whose \<^verbatim>\<open>this.ensureUpdated()\<close> is the method above. The vectors that \<^verbatim>\<open>ensureUpdated\<close>
  replaces are fields of the annotation objects of the map, and a reference object whose
  value is such an object shares it; \<open>refObjects\<close> holds the values as they were stored,
  so the statements on these two methods relate the reference objects to the store as
  \<^verbatim>\<open>ensureUpdated\<close> leaves it.\<close>

definition LocalAnnotationSource_add ::
  "AnnotationId \<Rightarrow> f32 Annotation \<Rightarrow> bool \<Rightarrow> LocalAnnotationSource \<Rightarrow>
   (nat, LocalAnnotationSource) outcome" where
  "LocalAnnotationSource_add generatedId annotation commit' s =
     add_with ensureUpdated generatedId annotation commit' s"

definition LocalAnnotationSource_commit ::
  "nat \<Rightarrow> LocalAnnotationSource \<Rightarrow> (unit, LocalAnnotationSource) outcome" where
  "LocalAnnotationSource_commit reference s = commit_with ensureUpdated reference s"

text \<open>The migration as the specification words it: component \<open>i\<close> of the new vector is
  the old vector's component at the old dimension matched by identity, and 0 when there
  is no match.\<close>

definition mapVector_spec :: "nat \<Rightarrow> int list \<Rightarrow> f32 list \<Rightarrow> f32 list" where
  "mapVector_spec sourceRank dims radii =
     map (\<lambda>i. let oldDim = dims ! i in if oldDim = -1 then 0 else elementAt radii (nat oldDim))
       [0..<sourceRank]"

text \<open>The example of the specification: a point \<open>(1, 2, 3)\<close> at rank 3 with the dimension
  identities 10, 11, 12, and a new transform of rank 2 that keeps the dimensions 10 and
  12.\<close>

definition examplePoint3 :: "f32 Annotation" where
  "examplePoint3 =
     \<lparr>ann_description = Undefined, ann_id = ''p'', ann_relatedSegments = None,
      ann_properties = [], ann_geometry = Point [0x3F800000, 0x40000000, 0x40400000]\<rparr>"

definition exampleLocalSource :: LocalAnnotationSource where
  "exampleLocalSource =
     \<lparr>annotationMap = [(''p'', examplePoint3)], pending = {}, references = [], rank' = 3,
      relationships = [''segments''], properties = [], refObjects = Map.empty, nextRef = 0,
      dispatched = [],
      curCoordinateTransform =
        \<lparr>ct_objectId = 1, ct_sourceRank = 3,
         ct_inputSpace = \<lparr>cs_objectId = 1, cs_ids = [10, 11, 12]\<rparr>\<rparr>,
      watchableTransform_value =
        \<lparr>ct_objectId = 2, ct_sourceRank = 2,
         ct_inputSpace = \<lparr>cs_objectId = 2, cs_ids = [10, 12]\<rparr>\<rparr>\<rparr>"

text \<open>The same source after \<^verbatim>\<open>getReference("p")\<close>, with the point still pending: the
  reference object is at address 0.\<close>

definition exampleLocalSourceWithReference :: LocalAnnotationSource where
  "exampleLocalSourceWithReference =
     exampleLocalSource\<lparr>pending := {''p''},
                         references := [(''p'', 0)],
                         refObjects := [0 \<mapsto> \<lparr>ref_id = ''p'', ref_value = Defined examplePoint3,
                                               ref_refCount = 1\<rparr>],
                         nextRef := 1\<rparr>"

text \<open>The annotation as \<^verbatim>\<open>add\<close> stores it: with the generated id when it came without
  one.\<close>

definition withId :: "AnnotationId \<Rightarrow> f32 Annotation \<Rightarrow> f32 Annotation" where
  "withId generatedId annotation =
     (if ann_id annotation = [] then annotation\<lparr>ann_id := generatedId\<rparr> else annotation)"

text \<open>The \<^verbatim>\<open>id\<close> field of a persisted annotation.\<close>

definition jsonId :: "json \<Rightarrow> json option" where
  "jsonId j = (case j of JObject members \<Rightarrow> map_of members ''id'' | _ \<Rightarrow> None)"

text \<open>Stores for the examples: an empty store of rank 1 without properties; the store
  after \<^verbatim>\<open>getReference("x")\<close>, whose reference at address 0 has the value \<^verbatim>\<open>null\<close>; and a
  store that holds the point \<^verbatim>\<open>"x"\<close>.\<close>

definition emptyStore :: AnnotationSource where
  "emptyStore = newAnnotationSource 1 [] []"

definition storeWithNullReference :: AnnotationSource where
  "storeWithNullReference = snd (getReference ''x'' emptyStore)"

definition storeWithPoint :: AnnotationSource where
  "storeWithPoint =
     emptyStore\<lparr>annotationMap := [(''x'', pointAt ''x'' 0x3F800000)],
                references := [(''x'', 0)],
                refObjects := [0 \<mapsto> \<lparr>ref_id = ''x'', ref_value = Defined (pointAt ''x'' 0x3F800000),
                                      ref_refCount = 1\<rparr>],
                nextRef := 1\<rparr>"

text \<open>A store that holds a point under an id of 40 hex digits, and a point that comes
  without an id.\<close>

definition storeWithHexId :: AnnotationSource where
  "storeWithHexId =
     emptyStore\<lparr>annotationMap :=
                  [(replicate 40 CHR ''0'', pointAt (replicate 40 CHR ''0'') 0x3F800000)]\<rparr>"

definition pointWithoutId :: "f32 Annotation" where
  "pointWithoutId = pointAt [] 0x40000000"

text \<open>A random draw that gives 0 for every digit.\<close>

definition zeroDraws :: "nat \<Rightarrow> nat" where
  "zeroDraws i = 0"

text \<open>Number conversions for the examples: exact on the values 1 and 2 that occur in
  them.\<close>

definition exampleOps :: NumberOps where
  "exampleOps =
     \<lparr>toFloat32 = (\<lambda>n. if n = Finite 1 then 0x3F800000 else if n = Finite 2 then 0x40000000 else 0),
      fromFloat32 = (\<lambda>w. if w = 0x3F800000 then Finite 1 else if w = 0x40000000 then Finite 2
                          else Finite 0),
      toNumber = (\<lambda>j. case j of JNumber n \<Rightarrow> n | _ \<Rightarrow> NaN)\<rparr>"




section \<open>Proofs: property layout\<close>


lemma alignment_cases: "handler_alignment t r = 1 \<or> handler_alignment t r = 2 \<or> handler_alignment t r = 4"
  by (cases t) simp_all

lemma alignment_pos: "0 < handler_alignment t r"
  using alignment_cases [of t r] by auto

lemma alignment_dvd_bytes: "handler_alignment t r dvd handler_serializedBytes t r"
  by (cases t) simp_all

lemma alignment_le_dvd:
  "handler_alignment t r \<le> handler_alignment u r \<Longrightarrow> handler_alignment t r dvd handler_alignment u r"
  using alignment_cases [of t r] alignment_cases [of u r] by auto

lemma align_up_dvd: "0 < a \<Longrightarrow> a dvd (s + (a - s mod a) mod a)" for a s :: nat
proof -
  assume a: "0 < a"
  show ?thesis
  proof (cases "s mod a = 0")
    case True
    then show ?thesis by (simp add: dvd_eq_mod_eq_0)
  next
    case False
    then have lt: "a - s mod a < a" using a by simp
    have "s + (a - s mod a) = (s div a) * a + a"
      using a by (metis add.assoc div_mult_mod_eq le_add_diff_inverse mod_less_divisor order_less_imp_le)
    then show ?thesis using lt by simp
  qed
qed

lemma align_up_id: "a dvd s \<Longrightarrow> s + (a - s mod a) mod a = s" for a s :: nat
  by (simp add: dvd_eq_mod_eq_0)

lemma align_up_lt: "0 < a \<Longrightarrow> (a - s mod a) mod a < a" for a s :: nat
  by simp

lemma placeProperty_aligned:
  "offsets_aligned rank specs st \<Longrightarrow> offsets_aligned rank specs (placeProperty rank specs st k)"
proof -
  assume a: "offsets_aligned rank specs st"
  let ?a = "handler_alignment (prop_type (specs ! k)) rank"
  let ?al = "serializedBytes st + (?a - serializedBytes st mod ?a) mod ?a"
  have off: "offsets (placeProperty rank specs st k) = (offsets st)[k := Some ?al]"
    unfolding placeProperty_def Let_def by simp
  have dv: "?a dvd ?al" by (rule align_up_dvd) (rule alignment_pos)
  show ?thesis
    unfolding offsets_aligned_def off
  proof (intro conjI allI impI)
    show "length ((offsets st)[k := Some ?al]) = length specs"
      using a by (simp add: offsets_aligned_def)
  next
    fix i off assume i: "i < length specs" and e: "(offsets st)[k := Some ?al] ! i = Some off"
    show "handler_alignment (prop_type (specs ! i)) rank dvd off"
    proof (cases "i = k")
      case True
      then have "off = ?al" using e i a by (simp add: offsets_aligned_def)
      then show ?thesis using dv True by simp
    next
      case False
      then have "offsets st ! i = Some off" using e by simp
      then show ?thesis using a i unfolding offsets_aligned_def by blast
    qed
  qed
qed

lemma placeProperty_keeps:
  "offsets st ! i \<noteq> None \<Longrightarrow> offsets (placeProperty rank specs st k) ! i \<noteq> None"
proof -
  assume a: "offsets st ! i \<noteq> None"
  obtain v where off: "offsets (placeProperty rank specs st k) = (offsets st)[k := Some v]"
    unfolding placeProperty_def Let_def by simp
  show ?thesis
  proof (cases "i = k \<and> k < length (offsets st)")
    case True
    then show ?thesis unfolding off by simp
  next
    case False
    then have "(offsets st)[k := Some v] ! i = offsets st ! i"
      by (cases "i = k") (simp_all add: list_update_beyond)
    then show ?thesis unfolding off using a by simp
  qed
qed

lemma placeProperty_assigns:
  "k < length (offsets st) \<Longrightarrow> offsets (placeProperty rank specs st k) ! k \<noteq> None"
  unfolding placeProperty_def Let_def by simp

lemma placeProperty_length:
  "length (offsets (placeProperty rank specs st k)) = length (offsets st)"
  unfolding placeProperty_def Let_def by simp

lemma fold_aligned:
  "offsets_aligned rank specs st \<Longrightarrow> offsets_aligned rank specs (foldl (placeProperty rank specs) st ks)"
  by (induction ks arbitrary: st) (simp_all add: placeProperty_aligned)

lemma fold_length:
  "length (offsets (foldl (placeProperty rank specs) st ks)) = length (offsets st)"
  by (induction ks arbitrary: st) (simp_all add: placeProperty_length)

lemma fold_keeps:
  "offsets st ! i \<noteq> None \<Longrightarrow> offsets (foldl (placeProperty rank specs) st ks) ! i \<noteq> None"
proof (induction ks arbitrary: st)
  case Nil
  then show ?case by simp
next
  case (Cons k ks)
  have "offsets (placeProperty rank specs st k) ! i \<noteq> None"
    using Cons.prems by (rule placeProperty_keeps)
  then have "offsets (foldl (placeProperty rank specs) (placeProperty rank specs st k) ks) ! i \<noteq> None"
    by (rule Cons.IH)
  then show ?case by simp
qed

lemma fold_assigns:
  "i \<in> set ks \<Longrightarrow> \<forall>k\<in>set ks. k < length (offsets st) \<Longrightarrow>
   offsets (foldl (placeProperty rank specs) st ks) ! i \<noteq> None"
proof (induction ks arbitrary: st)
  case Nil
  then show ?case by simp
next
  case (Cons k ks)
  show ?case
  proof (cases "i = k")
    case True
    have "offsets (placeProperty rank specs st k) ! k \<noteq> None"
      using Cons.prems by (simp add: placeProperty_assigns)
    then have "offsets (foldl (placeProperty rank specs) (placeProperty rank specs st k) ks) ! k \<noteq> None"
      by (rule fold_keeps)
    then show ?thesis using True by simp
  next
    case False
    then have "i \<in> set ks" using Cons.prems by simp
    moreover have "\<forall>j\<in>set ks. j < length (offsets (placeProperty rank specs st k))"
      using Cons.prems by (simp add: placeProperty_length)
    ultimately have "offsets (foldl (placeProperty rank specs) (placeProperty rank specs st k) ks) ! i \<noteq> None"
      by (rule Cons.IH)
    then show ?thesis by simp
  qed
qed

lemma fold_no_padding:
  "sorted (map (\<lambda>i. - int (getAlignment rank specs i)) ks) \<Longrightarrow>
   \<forall>k\<in>set ks. getAlignment rank specs k dvd serializedBytes st \<Longrightarrow>
   serializedBytes (foldl (placeProperty rank specs) st ks) =
     serializedBytes st + sum_list (map (\<lambda>k. handler_serializedBytes (prop_type (specs ! k)) rank) ks)"
proof (induction ks arbitrary: st)
  case Nil
  then show ?case by simp
next
  case (Cons k ks)
  let ?st = "placeProperty rank specs st k"
  have k: "getAlignment rank specs k dvd serializedBytes st" using Cons.prems by simp
  have sb: "serializedBytes ?st = serializedBytes st + handler_serializedBytes (prop_type (specs ! k)) rank"
    using k unfolding placeProperty_def Let_def getAlignment_def by (simp add: align_up_id)
  have "\<forall>j\<in>set ks. getAlignment rank specs j dvd serializedBytes ?st"
  proof
    fix j assume j: "j \<in> set ks"
    then have "getAlignment rank specs j \<le> getAlignment rank specs k"
      using Cons.prems(1) by auto
    then have "getAlignment rank specs j dvd getAlignment rank specs k"
      unfolding getAlignment_def by (rule alignment_le_dvd)
    moreover have "getAlignment rank specs k dvd handler_serializedBytes (prop_type (specs ! k)) rank"
      unfolding getAlignment_def by (rule alignment_dvd_bytes)
    moreover have "getAlignment rank specs j dvd serializedBytes st" using Cons.prems j by simp
    ultimately show "getAlignment rank specs j dvd serializedBytes ?st"
      unfolding sb by (meson dvd_add dvd_trans)
  qed
  moreover have "sorted (map (\<lambda>i. - int (getAlignment rank specs i)) ks)" using Cons.prems by simp
  ultimately show ?case using Cons.IH [of ?st] sb by simp
qed

lemma sum_sortedPermutation:
  fixes f :: "AnnotationPropertySpec \<Rightarrow> nat"
  shows "sum_list (map (\<lambda>k. f (specs ! k)) (sortedPermutation rank specs)) = sum_list (map f specs)"
proof -
  have d: "distinct (sortedPermutation rank specs)" by (simp add: sortedPermutation_def)
  have s: "set (sortedPermutation rank specs) = {0..<length specs}" by (simp add: sortedPermutation_def)
  have "sum_list (map (\<lambda>k. f (specs ! k)) (sortedPermutation rank specs)) = sum (\<lambda>k. f (specs ! k)) {0..<length specs}"
    using d s by (simp add: sum_list_distinct_conv_sum_set)
  also have "\<dots> = sum_list (map (\<lambda>k. f (specs ! k)) [0..<length specs])"
    by (simp add: sum_list_distinct_conv_sum_set)
  also have "\<dots> = sum_list (map f specs)"
    by (simp add: map_nth flip: map_map [unfolded comp_def])
  finally show ?thesis .
qed

lemma loop_serializedBytes:
  "serializedBytes (placeAll rank specs) = propertyBytes rank specs"
proof -
  have "sorted (map (\<lambda>i. - int (getAlignment rank specs i)) (sortedPermutation rank specs))"
    unfolding sortedPermutation_def by (rule sorted_sort_key)
  then show ?thesis
    using fold_no_padding [of rank specs "sortedPermutation rank specs" "\<lparr>serializedBytes = 0, offsets = replicate (length specs) None\<rparr>"]
    using sum_sortedPermutation [of "\<lambda>spec. handler_serializedBytes (prop_type spec) rank" specs rank]
    by (simp add: propertyBytes_def placeAll_def)
qed

lemma getPropertyOffsets_serializedBytes:
  "serializedBytes (getPropertyOffsets rank specs) =
     propertyBytes rank specs + (4 - propertyBytes rank specs mod 4) mod 4"
  unfolding getPropertyOffsets_def Let_def by (simp add: loop_serializedBytes)

lemma alignmentPadding_zero: "alignmentPadding rank specs = 0"
  by (simp add: alignmentPadding_def loop_serializedBytes)

lemma finalPadding_eq:
  "finalPadding rank specs = (4 - propertyBytes rank specs mod 4) mod 4"
  unfolding finalPadding_def getPropertyOffsets_serializedBytes loop_serializedBytes
  by (rule add_diff_cancel_left')

lemma maxAlignment_pos: "specs \<noteq> [] \<Longrightarrow> 0 < maxAlignment rank specs"
proof (cases specs)
  case Nil
  then show "specs \<noteq> [] \<Longrightarrow> ?thesis" by simp
next
  case (Cons spec rest)
  have "0 < handler_alignment (prop_type spec) rank" by (rule alignment_pos)
  then show ?thesis using Cons by (simp add: maxAlignment_def less_max_iff_disj)
qed

lemma getPropertyOffsets_offsets:
  assumes "i < length specs"
  shows "\<exists>off. offsets (getPropertyOffsets rank specs) ! i = Some off \<and>
           off mod handler_alignment (prop_type (specs ! i)) rank = 0"
proof -
  let ?st0 = "\<lparr>serializedBytes = 0, offsets = replicate (length specs) None\<rparr>"
  let ?st = "foldl (placeProperty rank specs) ?st0 (sortedPermutation rank specs)"
  have al: "offsets_aligned rank specs ?st"
    by (rule fold_aligned) (simp add: offsets_aligned_def)
  have "i \<in> set (sortedPermutation rank specs)" using assms by (simp add: sortedPermutation_def)
  then have "offsets ?st ! i \<noteq> None"
    by (rule fold_assigns) (simp add: sortedPermutation_def)
  then obtain off where off: "offsets ?st ! i = Some off" by blast
  then have "handler_alignment (prop_type (specs ! i)) rank dvd off"
    using al assms unfolding offsets_aligned_def by blast
  then show ?thesis using off unfolding getPropertyOffsets_def placeAll_def Let_def
    by (simp add: dvd_eq_mod_eq_0)
qed

subsection \<open>The layout computed by \<^verbatim>\<open>getPropertyOffsets\<close>\<close>

lemma example_layout:
  "getPropertyOffsets 2 [mkSpec ''a'' uint8, mkSpec ''b'' float32] =
     \<lparr>serializedBytes = 8, offsets = [Some 4, Some 0]\<rparr>"
  by (simp add: getPropertyOffsets_def placeAll_def sortedPermutation_def getAlignment_def
      placeProperty_def mkSpec_def upt_rec)

lemma single_uint8_layout:
  "getPropertyOffsets 2 [mkSpec ''p'' uint8] = \<lparr>serializedBytes = 4, offsets = [Some 0]\<rparr>"
  by (simp add: getPropertyOffsets_def placeAll_def sortedPermutation_def getAlignment_def
      placeProperty_def mkSpec_def upt_rec)

lemma paddingBytes_eq:
  "paddingBytes rank propertySpecs = (4 - propertyBytes rank propertySpecs mod 4) mod 4"
  unfolding paddingBytes_def getPropertyOffsets_serializedBytes by (rule add_diff_cancel_left')

text \<open>
  Claim C4, as stated, bounds the padding by the largest alignment of the schema. A schema
  of one \<^verbatim>\<open>uint8\<close> property refutes it: the property takes 1 byte, the size is padded to
  4 bytes, so 3 padding bytes are inserted while the largest alignment is 1.
\<close>

theorem getPropertyOffsets_padding_counterexample:
  "paddingBytes 2 [mkSpec ''p'' uint8] = 3 \<and> maxAlignment 2 [mkSpec ''p'' uint8] = 1 \<and>
   \<not> paddingBytes 2 [mkSpec ''p'' uint8] < maxAlignment 2 [mkSpec ''p'' uint8]"
  by (simp add: paddingBytes_def propertyBytes_def maxAlignment_def single_uint8_layout)
    (simp add: mkSpec_def)

text \<open>
  Claim C4, amended: for every rank and every ordered property schema, each property of
  \<^verbatim>\<open>getPropertyOffsets\<close> gets an offset that is a multiple of its type's alignment; the
  returned \<^verbatim>\<open>serializedBytes\<close> is a multiple of 4; the padding inserted before the
  properties is 0, and so less than the largest alignment of a schema that has a property;
  the padding after the last property rounds the summed property sizes up to a multiple
  of 4 and is less than 4, whatever the alignments are; and the schema
  \<^verbatim>\<open>[uint8, float32]\<close> at rank 2 gets the offsets \<^verbatim>\<open>[4, 0]\<close> and 8 bytes.
\<close>

theorem getPropertyOffsets_layout:
  "(\<forall>i<length propertySpecs. \<exists>off.
       offsets (getPropertyOffsets rank propertySpecs) ! i = Some off \<and>
       off mod handler_alignment (prop_type (propertySpecs ! i)) rank = 0) \<and>
   serializedBytes (getPropertyOffsets rank propertySpecs) mod 4 = 0 \<and>
   alignmentPadding rank propertySpecs = 0 \<and>
   (propertySpecs \<noteq> [] \<longrightarrow>
      alignmentPadding rank propertySpecs < maxAlignment rank propertySpecs) \<and>
   finalPadding rank propertySpecs = (4 - propertyBytes rank propertySpecs mod 4) mod 4 \<and>
   finalPadding rank propertySpecs < 4 \<and>
   paddingBytes rank propertySpecs =
     alignmentPadding rank propertySpecs + finalPadding rank propertySpecs \<and>
   serializedBytes (getPropertyOffsets rank propertySpecs) =
     propertyBytes rank propertySpecs + paddingBytes rank propertySpecs \<and>
   getPropertyOffsets 2 [mkSpec ''a'' uint8, mkSpec ''b'' float32] =
     \<lparr>serializedBytes = 8, offsets = [Some 4, Some 0]\<rparr>"
proof (intro conjI)
  show "\<forall>i<length propertySpecs. \<exists>off.
       offsets (getPropertyOffsets rank propertySpecs) ! i = Some off \<and>
       off mod handler_alignment (prop_type (propertySpecs ! i)) rank = 0"
    using getPropertyOffsets_offsets by blast
next
  let ?p = "propertyBytes rank propertySpecs"
  have "4 dvd ?p + (4 - ?p mod 4) mod 4" by (rule align_up_dvd) simp
  then have "(?p + (4 - ?p mod 4) mod 4) mod 4 = 0" by (rule dvd_imp_mod_0)
  then show "serializedBytes (getPropertyOffsets rank propertySpecs) mod 4 = 0"
    unfolding getPropertyOffsets_serializedBytes .
next
  show "alignmentPadding rank propertySpecs = 0" by (rule alignmentPadding_zero)
next
  show "propertySpecs \<noteq> [] \<longrightarrow>
      alignmentPadding rank propertySpecs < maxAlignment rank propertySpecs"
    unfolding alignmentPadding_zero using maxAlignment_pos by blast
next
  show "finalPadding rank propertySpecs = (4 - propertyBytes rank propertySpecs mod 4) mod 4"
    by (rule finalPadding_eq)
next
  have "(4 - propertyBytes rank propertySpecs mod 4) mod 4 < (4::nat)"
    by (rule mod_less_divisor) simp
  then show "finalPadding rank propertySpecs < 4"
    unfolding finalPadding_eq .
next
  show "paddingBytes rank propertySpecs =
     alignmentPadding rank propertySpecs + finalPadding rank propertySpecs"
    unfolding paddingBytes_eq alignmentPadding_zero finalPadding_eq by simp
next
  show "serializedBytes (getPropertyOffsets rank propertySpecs) =
     propertyBytes rank propertySpecs + paddingBytes rank propertySpecs"
    unfolding paddingBytes_eq getPropertyOffsets_serializedBytes ..
next
  show "getPropertyOffsets 2 [mkSpec ''a'' uint8, mkSpec ''b'' float32] =
     \<lparr>serializedBytes = 8, offsets = [Some 4, Some 0]\<rparr>"
    by (rule example_layout)
qed

theorem getPropertyOffsets_layout_witness:
  "(1::nat) < length [mkSpec ''a'' int8, mkSpec ''b'' uint16] \<and>
   (\<exists>off. offsets (getPropertyOffsets 3 [mkSpec ''a'' int8, mkSpec ''b'' uint16]) ! 1 = Some off \<and>
      off mod handler_alignment (prop_type ([mkSpec ''a'' int8, mkSpec ''b'' uint16] ! 1)) 3 = 0) \<and>
   [mkSpec ''a'' int8, mkSpec ''b'' uint16] \<noteq> [] \<and>
   alignmentPadding 3 [mkSpec ''a'' int8, mkSpec ''b'' uint16] <
     maxAlignment 3 [mkSpec ''a'' int8, mkSpec ''b'' uint16]"
proof -
  have h: "(1::nat) < length [mkSpec ''a'' int8, mkSpec ''b'' uint16]" by simp
  have n: "[mkSpec ''a'' int8, mkSpec ''b'' uint16] \<noteq> []" by simp
  note t = getPropertyOffsets_layout [of "[mkSpec ''a'' int8, mkSpec ''b'' uint16]" 3]
  have "\<forall>i<length [mkSpec ''a'' int8, mkSpec ''b'' uint16]. \<exists>off.
       offsets (getPropertyOffsets 3 [mkSpec ''a'' int8, mkSpec ''b'' uint16]) ! i = Some off \<and>
       off mod handler_alignment (prop_type ([mkSpec ''a'' int8, mkSpec ''b'' uint16] ! i)) 3 = 0"
    using t by blast
  moreover have "alignmentPadding 3 [mkSpec ''a'' int8, mkSpec ''b'' uint16] <
     maxAlignment 3 [mkSpec ''a'' int8, mkSpec ''b'' uint16]"
    using t n by blast
  ultimately show ?thesis using h n by blast
qed

section \<open>Proofs: geometry codecs\<close>

declare serializeFloatVector_loop.simps [simp del]
declare deserializeFloatVector_loop.simps [simp del]

lemma bytes_float32_roundtrip: "bytes_float32 le (float32_bytes le w) = w"
  unfolding bytes_float32_def float32_bytes_def Let_def
  apply simp
  apply (rule bit_word_eqI)
  subgoal for n
    by (cases "n < 8"; cases "n < 16"; cases "n < 24"; simp add: bit_simps not_less; arith)
  done

lemma length_float32_bytes: "length (float32_bytes le w) = 4"
  by (simp add: float32_bytes_def Let_def)

lemma storedFloat32_finite: "isFinite32 w \<Longrightarrow> storedFloat32 w = w"
  by (simp add: storedFloat32_def isFinite32_def isNaN32_def)

lemma length_vectorBytes: "length (vectorBytes le v i rank) = 4 * (rank - i)"
  unfolding vectorBytes_def
  by (induction rank) (simp_all add: length_concat length_float32_bytes Suc_diff_le)

lemma vectorBytes_step:
  "i < rank \<Longrightarrow> vectorBytes le v i rank =
     float32_bytes le (storedFloat32 (elementAt v i)) @ vectorBytes le v (Suc i) rank"
  unfolding vectorBytes_def by (simp add: upt_rec [of i rank])

lemma serialize_loop_Inr:
  "serializeFloatVector_loop buffer offset le rank (Some v) i = Inr (buffer', offset') \<Longrightarrow>
   i \<le> rank \<Longrightarrow>
   buffer' = take offset buffer @ vectorBytes le v i rank @ drop (offset + 4 * (rank - i)) buffer \<and>
   offset' = offset + 4 * (rank - i) \<and> (i < rank \<longrightarrow> offset' \<le> length buffer)"
proof (induction "rank - i" arbitrary: buffer offset i)
  case 0
  then have "i = rank" by simp
  then show ?case using "0.prems"
    by (subst (asm) serializeFloatVector_loop.simps) (simp add: vectorBytes_def)
next
  case (Suc n)
  then have lt: "i < rank" by simp
  define e where "e = float32_bytes le (storedFloat32 (elementAt v i))"
  have le4: "length e = 4" by (simp add: e_def length_float32_bytes)
  from Suc.prems(1) lt have fit: "offset + 4 \<le> length buffer"
    by (subst (asm) serializeFloatVector_loop.simps) (auto simp: setFloat32_def split: if_splits)
  define b where "b = take offset buffer @ e @ drop (offset + 4) buffer"
  have set: "setFloat32 buffer offset (elementAt v i) le = Inr b"
    using fit by (simp add: setFloat32_def b_def e_def)
  have rec: "serializeFloatVector_loop b (offset + 4) le rank (Some v) (Suc i) = Inr (buffer', offset')"
    using Suc.prems(1) lt set by (subst (asm) serializeFloatVector_loop.simps) simp
  have n: "n = rank - Suc i" using Suc.hyps(2) by simp
  have "Suc i \<le> rank" using lt by simp
  note IH = Suc.hyps(1) [OF n rec this]
  have len: "length b = length buffer" using fit by (simp add: b_def le4)
  have tk: "take (offset + 4) b = take offset buffer @ e"
    using fit by (simp add: b_def le4)
  have off: "offset + 4 + 4 * (rank - Suc i) = offset + 4 * (rank - i)" using lt by simp
  have dr0: "drop (offset + 4) b = drop (offset + 4) buffer"
    using fit by (simp add: b_def le4)
  have "drop (offset + 4 + 4 * (rank - Suc i)) b = drop (4 * (rank - Suc i)) (drop (offset + 4) b)"
    by (simp add: add.commute)
  also have "\<dots> = drop (4 * (rank - Suc i)) (drop (offset + 4) buffer)"
    unfolding dr0 ..
  also have "\<dots> = drop (offset + 4 + 4 * (rank - Suc i)) buffer"
    by (simp add: add.commute)
  finally have dr: "drop (offset + 4 + 4 * (rank - Suc i)) b = drop (offset + 4 * (rank - i)) buffer"
    unfolding off .
  show ?case
  proof (intro conjI impI)
    have "buffer' = take (offset + 4) b @ vectorBytes le v (Suc i) rank @
              drop (offset + 4 + 4 * (rank - Suc i)) b"
      using IH by blast
    then show "buffer' = take offset buffer @ vectorBytes le v i rank @ drop (offset + 4 * (rank - i)) buffer"
      unfolding tk dr vectorBytes_step [OF lt] e_def by simp
    have o: "offset' = offset + 4 + 4 * (rank - Suc i)" using IH by blast
    then show "offset' = offset + 4 * (rank - i)" using off by simp
    show "offset' \<le> length buffer"
    proof (cases "Suc i < rank")
      case True
      then have "offset' \<le> length b" using IH by blast
      then show ?thesis using len by simp
    next
      case False
      then have "rank - Suc i = 0" by simp
      then show ?thesis using o fit by simp
    qed
  qed
qed

lemma take4_concat_region:
  "j < length ws \<Longrightarrow>
   take 4 (drop (4 * j) (concat (map (float32_bytes le) ws) @ post)) = float32_bytes le (ws ! j)"
proof (induction ws arbitrary: j)
  case Nil
  then show ?case by simp
next
  case (Cons w ws)
  show ?case
  proof (cases j)
    case 0
    then show ?thesis by (simp add: length_float32_bytes)
  next
    case (Suc k)
    then have k: "k < length ws" using Cons.prems by simp
    have "drop (4 * j) (concat (map (float32_bytes le) (w # ws)) @ post) =
          drop (4 * k) (concat (map (float32_bytes le) ws) @ post)"
      using Suc by (simp add: length_float32_bytes)
    then show ?thesis using Cons.IH [OF k] Suc by simp
  qed
qed

lemma read_region:
  assumes "length pre = off" and "j < length ws"
  shows "take 4 (drop (off + 4 * j) (pre @ concat (map (float32_bytes le) ws) @ post)) =
         float32_bytes le (ws ! j)"
proof -
  have "drop (off + 4 * j) (pre @ concat (map (float32_bytes le) ws) @ post) =
        drop (4 * j) (concat (map (float32_bytes le) ws) @ post)"
    using assms(1) by simp
  then show ?thesis using take4_concat_region [OF assms(2)] by simp
qed

lemma length_concat_float32_bytes:
  "length (concat (map (float32_bytes le) ws)) = 4 * length ws"
  by (induction ws) (simp_all add: length_float32_bytes)

lemma deserialize_loop_region:
  assumes "length pre = offset0" and "length ws = rank" and "length vec = rank"
    and "buffer = pre @ concat (map (float32_bytes le) ws) @ post"
  shows "i \<le> rank \<Longrightarrow> length vec = rank \<Longrightarrow>
         deserializeFloatVector_loop buffer (offset0 + 4 * i) le rank vec i =
           Inr (take i vec @ map storedFloat32 (drop i ws), offset0 + 4 * rank)"
proof (induction "rank - i" arbitrary: i vec)
  case 0
  then have "i = rank" by simp
  then show ?case using assms(2) "0.prems"
    by (subst deserializeFloatVector_loop.simps) simp
next
  case (Suc n)
  then have lt: "i < rank" by simp
  have len: "length buffer = offset0 + 4 * rank + length post"
    using assms by (simp add: length_concat_float32_bytes)
  have fit: "offset0 + 4 * i + 4 \<le> length buffer" using lt len by simp
  have rd: "take 4 (drop (offset0 + 4 * i) buffer) = float32_bytes le (ws ! i)"
    unfolding assms(4) using assms(1,2) lt by (intro read_region) simp_all
  have get: "getFloat32 buffer (offset0 + 4 * i) le = Inr (ws ! i)"
    using fit by (simp add: getFloat32_def rd bytes_float32_roundtrip)
  define vec' where "vec' = vec[i := storedFloat32 (ws ! i)]"
  have n: "n = rank - Suc i" using Suc.hyps(2) by simp
  have lv: "length vec' = rank" using Suc.prems by (simp add: vec'_def)
  have "Suc i \<le> rank" using lt by simp
  note IH = Suc.hyps(1) [OF n this lv]
  have step: "deserializeFloatVector_loop buffer (offset0 + 4 * i) le rank vec i =
        deserializeFloatVector_loop buffer (offset0 + 4 * Suc i) le rank vec' (Suc i)"
    using lt get by (subst deserializeFloatVector_loop.simps) (simp add: vec'_def add_ac)
  have tk: "take (Suc i) vec' = take i vec @ [storedFloat32 (ws ! i)]"
    using lt Suc.prems by (simp add: vec'_def take_Suc_conv_app_nth)
  have dr: "drop i ws = ws ! i # drop (Suc i) ws"
    using lt assms(2) by (simp add: Cons_nth_drop_Suc)
  show ?case unfolding step IH tk dr by simp
qed

lemma vectorBytes_finite:
  assumes "length v = rank" and "list_all isFinite32 v"
  shows "vectorBytes le v 0 rank = concat (map (float32_bytes le) v)"
proof -
  have "map (\<lambda>j. float32_bytes le (storedFloat32 (elementAt v j))) [0..<rank] =
        map (\<lambda>j. float32_bytes le (v ! j)) [0..<length v]"
    using assms by (auto simp: elementAt_def list_all_length storedFloat32_finite)
  also have "\<dots> = map (float32_bytes le) v"
    by (simp add: map_nth flip: map_map [unfolded comp_def])
  finally show ?thesis by (simp add: vectorBytes_def)
qed

lemma map_storedFloat32_finite: "list_all isFinite32 v \<Longrightarrow> map storedFloat32 v = v"
  by (induction v) (simp_all add: storedFloat32_finite)

lemma deserialize_region:
  assumes "length pre = offset" and "length v = rank" and "list_all isFinite32 v"
  shows "deserializeFloatVector (pre @ concat (map (float32_bytes le) v) @ post) offset le rank
           (newFloat32Array rank) = Inr (v, offset + 4 * rank)"
proof -
  have "deserializeFloatVector_loop (pre @ concat (map (float32_bytes le) v) @ post)
          (offset + 4 * 0) le rank (newFloat32Array rank) 0 =
        Inr (take 0 (newFloat32Array rank) @ map storedFloat32 (drop 0 v), offset + 4 * rank)"
    by (rule deserialize_loop_region [OF assms(1,2) _ refl]) (simp_all add: newFloat32Array_def)
  then show ?thesis
    using assms(3) by (simp add: deserializeFloatVector_def map_storedFloat32_finite)
qed

lemma serialize_region:
  assumes "serializeFloatVector buffer offset le rank (Some v) = Inr (buffer', offset')"
    and "length v = rank" and "list_all isFinite32 v" and "0 < rank"
  shows "buffer' = take offset buffer @ concat (map (float32_bytes le) v) @
                     drop (offset + 4 * rank) buffer"
    and "offset' = offset + 4 * rank" and "offset + 4 * rank \<le> length buffer"
  using serialize_loop_Inr [of buffer offset le rank v 0 buffer' offset'] assms
  by (simp_all add: serializeFloatVector_def vectorBytes_finite)

lemma loops_rank0:
  "serializeFloatVector buffer offset le 0 vec = Inr (buffer, offset)"
  "deserializeFloatVector buffer offset le 0 v = Inr (v, offset)"
  by (simp_all add: serializeFloatVector_def deserializeFloatVector_def
      serializeFloatVector_loop.simps deserializeFloatVector_loop.simps)

lemma one_vector_roundtrip:
  assumes ser: "serializeFloatVector buffer offset le rank (Some a) = Inr (buffer', offset')"
    and la: "length a = rank" and fa: "list_all isFinite32 a"
  shows "deserializeFloatVector buffer' offset le rank (newFloat32Array rank) =
           Inr (a, offset + 4 * rank)"
proof (cases "rank = 0")
  case True
  then show ?thesis using la by (simp add: loops_rank0 newFloat32Array_def)
next
  case False
  then have pos: "0 < rank" by simp
  note r = serialize_region [OF ser la fa pos]
  have "length (take offset buffer) = offset" using r(3) by simp
  then show ?thesis unfolding r(1) using la fa by (rule deserialize_region)
qed

lemma two_vectors_roundtrip:
  assumes ser: "serializeTwoFloatVectors buffer offset le rank (Some a) (Some b) = Inr (buffer', offset')"
    and la: "length a = rank" and lb: "length b = rank"
    and fa: "list_all isFinite32 a" and fb: "list_all isFinite32 b"
  shows "deserializeTwoFloatVectors buffer' offset le rank (newFloat32Array rank)
           (newFloat32Array rank) = Inr (a, b, offset + 4 * rank + 4 * rank)"
proof (cases "rank = 0")
  case True
  then show ?thesis using la lb
    by (simp add: deserializeTwoFloatVectors_def loops_rank0 newFloat32Array_def)
next
  case False
  then have pos: "0 < rank" by simp
  from ser obtain buffer1 offset1 where
    s1: "serializeFloatVector buffer offset le rank (Some a) = Inr (buffer1, offset1)" and
    s2: "serializeFloatVector buffer1 offset1 le rank (Some b) = Inr (buffer', offset')"
    by (auto simp: serializeTwoFloatVectors_def split: sum.splits)
  note r1 = serialize_region [OF s1 la fa pos]
  note r2 = serialize_region [OF s2 lb fb pos]
  define A where "A = concat (map (float32_bytes le) a)"
  define B where "B = concat (map (float32_bytes le) b)"
  define pre where "pre = take offset buffer"
  have lpre: "length pre = offset" using r1(3) by (simp add: pre_def)
  have lA: "length A = 4 * rank" by (simp add: A_def length_concat_float32_bytes la)
  have b1: "buffer1 = pre @ A @ drop (offset + 4 * rank) buffer"
    using r1(1) by (simp add: pre_def A_def)
  have tk: "take offset1 buffer1 = pre @ A"
    unfolding b1 r1(2) using lpre lA by simp
  define post where "post = drop (offset1 + 4 * rank) buffer1"
  have b': "buffer' = pre @ A @ B @ post"
    using r2(1) tk by (simp add: B_def post_def)
  have d1: "deserializeFloatVector buffer' offset le rank (newFloat32Array rank) =
              Inr (a, offset + 4 * rank)"
    unfolding b' A_def using lpre la fa by (rule deserialize_region)
  have "deserializeFloatVector ((pre @ A) @ B @ post) (offset + 4 * rank) le rank
          (newFloat32Array rank) = Inr (b, offset + 4 * rank + 4 * rank)"
    unfolding B_def using _ lb fb by (rule deserialize_region) (simp add: lpre lA)
  then have d2: "deserializeFloatVector buffer' (offset + 4 * rank) le rank
          (newFloat32Array rank) = Inr (b, offset + 4 * rank + 4 * rank)"
    unfolding b' by simp
  show ?thesis by (simp add: deserializeTwoFloatVectors_def d1 d2)
qed

lemma serialize_Some:
  "serializeFloatVector buffer offset le rank None = Inr r \<Longrightarrow> rank = 0"
  by (cases "rank = 0")
    (simp_all add: serializeFloatVector_def serializeFloatVector_loop.simps)

lemma exampleLine_serialize:
  "typeHandler_serialize LINE (replicate 18 0) 1 False 2 exampleLine =
     Inr [0, 0x3F, 0x80, 0, 0, 0xC0, 0, 0, 0, 0x40, 0x40, 0, 0, 0, 0, 0, 0, 0]"
  by (simp add: exampleLine_def serializeTwoFloatVectors_def serializeFloatVector_def
      serializeFloatVector_loop.simps setFloat32_def elementAt_def storedFloat32_def isNaN32_def
      float32_bytes_def)

lemma examplePoint_serialize:
  "typeHandler_serialize POINT [0, 0, 0, 0] 0 True 1 examplePoint = Inr [0, 0, 0x80, 0x3F]"
  by (simp add: examplePoint_def serializeFloatVector_def
      serializeFloatVector_loop.simps setFloat32_def elementAt_def storedFloat32_def isNaN32_def
      float32_bytes_def)

lemma examplePoint_deserialize:
  "typeHandler_deserialize POINT [0, 0, 0x80, 0x3F] 0 True 1 ''point-1'' =
     Inr \<lparr>ann_description = Undefined, ann_id = ''point-1'', ann_relatedSegments = None,
      ann_properties = [], ann_geometry = Point [0x3F800000]\<rparr>"
  by (simp add: deserializeFloatVector_def deserialized_def newFloat32Array_def
      deserializeFloatVector_loop.simps getFloat32_def storedFloat32_def isNaN32_def
      bytes_float32_def)

text \<open>
  Claim C3, as stated, makes the deserialized record equal to the original. The codec
  returns \<^verbatim>\<open>properties: []\<close> and neither a description nor related segments, so a point
  that carries any of them is not reproduced, although its vector is.
\<close>

theorem typeHandler_roundtrip_counterexample:
  "vectorsOfRank 1 examplePoint \<and> finiteComponents examplePoint \<and>
   typeHandler_serialize (ann_type examplePoint) [0, 0, 0, 0] 0 True 1 examplePoint =
     Inr [0, 0, 0x80, 0x3F] \<and>
   typeHandler_deserialize (ann_type examplePoint) [0, 0, 0x80, 0x3F] 0 True 1
     (ann_id examplePoint) \<noteq> Inr examplePoint"
proof -
  have t: "ann_type examplePoint = POINT" and i: "ann_id examplePoint = ''point-1''"
    by (simp_all add: examplePoint_def ann_type_def)
  have "vectorsOfRank 1 examplePoint" "finiteComponents examplePoint"
    by (simp_all add: examplePoint_def vectorsOfRank_def finiteComponents_def isFinite32_def)
  moreover have "typeHandler_deserialize POINT [0, 0, 0x80, 0x3F] 0 True 1 ''point-1'' \<noteq>
      Inr examplePoint"
    unfolding examplePoint_deserialize by (simp add: examplePoint_def)
  ultimately show ?thesis unfolding t i using examplePoint_serialize by simp
qed

text \<open>
  Claim C3, amended: for every geometry kind, every rank and every annotation whose
  geometric vectors have \<open>rank\<close> components, all finite binary32 values, deserializing the
  bytes that the kind's \<^verbatim>\<open>serialize\<close> wrote, at the same offset, endianness and rank and
  with the annotation's id, yields the annotation with bit-for-bit the same vectors, with
  \<^verbatim>\<open>properties: []\<close> and without description and related segments: the original itself
  exactly when it has none of these.
\<close>

theorem typeHandler_roundtrip:
  assumes "typeHandler_serialize (ann_type a) buffer offset le rank a = Inr buffer'"
    and "vectorsOfRank rank a" and "finiteComponents a"
  shows "typeHandler_deserialize (ann_type a) buffer' offset le rank (ann_id a) =
           Inr (a\<lparr>ann_description := Undefined, ann_relatedSegments := None,
                  ann_properties := []\<rparr>)"
proof (cases "ann_geometry a")
  case (Point p)
  from assms(1) Point obtain offset' where
    "serializeFloatVector buffer offset le rank (Some p) = Inr (buffer', offset')"
    by (cases "serializeFloatVector buffer offset le rank (Some p)") (auto simp: ann_type_def)
  moreover have "length p = rank" "list_all isFinite32 p"
    using assms(2,3) Point by (simp_all add: vectorsOfRank_def finiteComponents_def)
  ultimately have "deserializeFloatVector buffer' offset le rank (newFloat32Array rank) =
           Inr (p, offset + 4 * rank)"
    by (rule one_vector_roundtrip)
  then show ?thesis using Point by (simp add: ann_type_def deserialized_def)
next
  case (Line p q)
  from assms(1) Line obtain offset' where
    "serializeTwoFloatVectors buffer offset le rank (Some p) (Some q) = Inr (buffer', offset')"
    by (cases "serializeTwoFloatVectors buffer offset le rank (Some p) (Some q)")
      (auto simp: ann_type_def)
  moreover have "length p = rank" "length q = rank" "list_all isFinite32 p" "list_all isFinite32 q"
    using assms(2,3) Line by (simp_all add: vectorsOfRank_def finiteComponents_def)
  ultimately have "deserializeTwoFloatVectors buffer' offset le rank (newFloat32Array rank)
           (newFloat32Array rank) = Inr (p, q, offset + 4 * rank + 4 * rank)"
    by (rule two_vectors_roundtrip)
  then show ?thesis using Line by (simp add: ann_type_def deserialized_def)
next
  case (AxisAlignedBoundingBox p q)
  from assms(1) AxisAlignedBoundingBox obtain offset' where
    "serializeTwoFloatVectors buffer offset le rank (Some p) (Some q) = Inr (buffer', offset')"
    by (cases "serializeTwoFloatVectors buffer offset le rank (Some p) (Some q)")
      (auto simp: ann_type_def)
  moreover have "length p = rank" "length q = rank" "list_all isFinite32 p" "list_all isFinite32 q"
    using assms(2,3) AxisAlignedBoundingBox by (simp_all add: vectorsOfRank_def finiteComponents_def)
  ultimately have "deserializeTwoFloatVectors buffer' offset le rank (newFloat32Array rank)
           (newFloat32Array rank) = Inr (p, q, offset + 4 * rank + 4 * rank)"
    by (rule two_vectors_roundtrip)
  then show ?thesis using AxisAlignedBoundingBox by (simp add: ann_type_def deserialized_def)
next
  case (Ellipsoid p q)
  from assms(1) Ellipsoid obtain offset' where
    "serializeTwoFloatVectors buffer offset le rank (Some p) (Some q) = Inr (buffer', offset')"
    by (cases "serializeTwoFloatVectors buffer offset le rank (Some p) (Some q)")
      (auto simp: ann_type_def)
  moreover have "length p = rank" "length q = rank" "list_all isFinite32 p" "list_all isFinite32 q"
    using assms(2,3) Ellipsoid by (simp_all add: vectorsOfRank_def finiteComponents_def)
  ultimately have "deserializeTwoFloatVectors buffer' offset le rank (newFloat32Array rank)
           (newFloat32Array rank) = Inr (p, q, offset + 4 * rank + 4 * rank)"
    by (rule two_vectors_roundtrip)
  then show ?thesis using Ellipsoid by (simp add: ann_type_def deserialized_def)
qed

theorem typeHandler_roundtrip_witness:
  "typeHandler_serialize (ann_type exampleLine) (replicate 18 0) 1 False 2 exampleLine =
     Inr [0, 0x3F, 0x80, 0, 0, 0xC0, 0, 0, 0, 0x40, 0x40, 0, 0, 0, 0, 0, 0, 0] \<and>
   vectorsOfRank 2 exampleLine \<and> finiteComponents exampleLine \<and>
   typeHandler_deserialize (ann_type exampleLine)
     [0, 0x3F, 0x80, 0, 0, 0xC0, 0, 0, 0, 0x40, 0x40, 0, 0, 0, 0, 0, 0, 0] 1 False 2
     (ann_id exampleLine) = Inr exampleLine"
proof -
  have t: "ann_type exampleLine = LINE"
    by (simp add: exampleLine_def ann_type_def)
  have s: "typeHandler_serialize (ann_type exampleLine) (replicate 18 0) 1 False 2 exampleLine =
     Inr [0, 0x3F, 0x80, 0, 0, 0xC0, 0, 0, 0, 0x40, 0x40, 0, 0, 0, 0, 0, 0, 0]"
    unfolding t by (rule exampleLine_serialize)
  have v: "vectorsOfRank 2 exampleLine" and f: "finiteComponents exampleLine"
    by (simp_all add: exampleLine_def vectorsOfRank_def finiteComponents_def isFinite32_def)
  have "exampleLine\<lparr>ann_description := Undefined, ann_relatedSegments := None,
          ann_properties := []\<rparr> = exampleLine"
    by (simp add: exampleLine_def)
  then show ?thesis using typeHandler_roundtrip [OF s v f] s v f by simp
qed

section \<open>Proofs: serializer and picking\<close>

lemma map_fst_Map_set:
  "map fst (Map_set m k v) = (if k \<in> set (map fst m) then map fst m else map fst m @ [k])"
proof (induction m)
  case Nil
  then show ?case by simp
next
  case (Cons e m)
  obtain k' v' where e: "e = (k', v')" by (cases e)
  show ?case
  proof (cases "k' = k")
    case True
    then show ?thesis using e by simp
  next
    case False
    then show ?thesis using e Cons.IH by simp
  qed
qed

lemma map_fst_Map_new_aux:
  "distinct (map fst entries) \<Longrightarrow> set (map fst entries) \<inter> set (map fst m) = {} \<Longrightarrow>
   map fst (foldl (\<lambda>m (k, v). Map_set m k v) m entries) = map fst m @ map fst entries"
proof (induction entries arbitrary: m)
  case Nil
  then show ?case by simp
next
  case (Cons e entries)
  obtain k v where e: "e = (k, v)" by (cases e)
  have k: "k \<notin> set (map fst m)" using Cons.prems(2) e by auto
  have m': "map fst (Map_set m k v) = map fst m @ [k]" using k by (simp add: map_fst_Map_set)
  have "distinct (map fst entries)" using Cons.prems(1) by simp
  moreover have "set (map fst entries) \<inter> set (map fst (Map_set m k v)) = {}"
    unfolding m' using Cons.prems e by auto
  ultimately have "map fst (foldl (\<lambda>m (k, v). Map_set m k v) (Map_set m k v) entries) =
        map fst (Map_set m k v) @ map fst entries"
    by (rule Cons.IH)
  then show ?case using e m' by simp
qed

lemma Map_size_Map_new:
  "distinct ids \<Longrightarrow> Map_size (Map_new (zip ids [0..<length ids])) = length ids"
proof -
  assume d: "distinct ids"
  have "map fst (Map_new (zip ids [0..<length ids])) = map fst (zip ids [0..<length ids])"
    unfolding Map_new_def using d by (subst map_fst_Map_new_aux) simp_all
  then have "length (map fst (Map_new (zip ids [0..<length ids]))) = length ids" by simp
  then show ?thesis by (simp add: Map_size_def)
qed

lemma writeTypes_Inr:
  "writeTypes allAnnotations ps le typeToOffset sa types = Inr sa' \<Longrightarrow>
   sa_typeToOffset sa' = sa_typeToOffset sa \<and>
   u8_byteOffset (sa_data sa') = u8_byteOffset (sa_data sa) \<and>
   (\<forall>t. sa_typeToIds sa' t =
      (if t \<in> set types then Some (map ann_id (allAnnotations t)) else sa_typeToIds sa t)) \<and>
   (\<forall>t. sa_typeToIdMaps sa' t =
      (if t \<in> set types
       then Some (Map_new (zip (map ann_id (allAnnotations t)) [0..<length (allAnnotations t)]))
       else sa_typeToIdMaps sa t)) \<and>
   (\<forall>t\<in>set types. typeToOffset t \<noteq> None)"
proof (induction types arbitrary: sa)
  case Nil
  then show ?case by simp
next
  case (Cons t0 types)
  from Cons.prems obtain offset dataView where
    off: "typeToOffset t0 = Some offset" and
    rec: "writeTypes allAnnotations ps le typeToOffset
            (sa\<lparr>sa_data := (sa_data sa)\<lparr>u8_buffer := dataView\<rparr>,
                sa_typeToIds := (sa_typeToIds sa)(t0 \<mapsto> map ann_id (allAnnotations t0)),
                sa_typeToIdMaps := (sa_typeToIdMaps sa)(t0 \<mapsto>
                  Map_new (zip (map ann_id (allAnnotations t0)) [0..<length (allAnnotations t0)]))\<rparr>)
            types = Inr sa'"
    by (auto simp: Let_def split: option.splits sum.splits)
  note IH = Cons.IH [OF rec]
  show ?case using IH off by auto
qed

lemma pick_arith:
  fixes i p n k :: nat
  assumes "i < n" and "p < k"
  shows "i * k + p < n * k" and "(i * k + p) div k = i" and "(i * k + p) mod k = p"
proof -
  have "i * k + p < i * k + k" using assms(2) by simp
  also have "\<dots> = Suc i * k" by simp
  also have "\<dots> \<le> n * k" using assms(1) by (intro mult_le_mono1) simp
  finally show "i * k + p < n * k" .
  show "(i * k + p) div k = i" using assms(2) by simp
  show "(i * k + p) mod k = p" using assms(2) by simp
qed

lemma resolve_inverse:
  assumes snap: "\<forall>t\<in>set types. snapshotOf allAnnotations sa t"
    and draw: "drawGeometry_loop ppi (\<lambda>count. count) sa b types = Inr draws"
    and mem: "(t, base, count) \<in> set draws"
    and i: "i < count" and p: "p < ppi t"
  shows "b \<le> base \<and> count = length (allAnnotations t) \<and>
     updateMouseState_loop ppi rank pb sa (instancePickId base (ppi t) i p - b) types =
       Inr (Some
         \<lparr>pa_annotationType = t,
          pa_pickedAnnotationId = Some (ann_id (allAnnotations t ! i)),
          pa_pickedOffset = p,
          pa_pickedAnnotationBuffer = u8_buffer (sa_data sa),
          pa_pickedAnnotationBufferOffset =
            map_option (\<lambda>typeOffset. u8_byteOffset (sa_data sa) + typeOffset +
                          i * (typeHandler_serializedBytes t rank + pb))
              (sa_typeToOffset sa t)\<rparr>)"
  using snap draw mem
proof (induction types arbitrary: b draws)
  case Nil
  then show ?case by simp
next
  case (Cons t0 types)
  let ?ids = "map ann_id (allAnnotations t0)"
  let ?n = "length (allAnnotations t0)"
  have s0: "snapshotOf allAnnotations sa t0" using Cons.prems(1) by simp
  have ids: "sa_typeToIds sa t0 = Some ?ids" using s0 by (simp add: snapshotOf_def)
  have size: "sa_typeToIdMaps sa t0 = Some (Map_new (zip ?ids [0..<?n]))"
    "Map_size (Map_new (zip ?ids [0..<?n])) = ?n"
    using s0 Map_size_Map_new [of ?ids] by (simp_all add: snapshotOf_def)
  have rest: "\<forall>t\<in>set types. snapshotOf allAnnotations sa t" using Cons.prems(1) by simp
  let ?b' = "b + ?n * ppi t0"
  have step: "drawGeometry_loop ppi (\<lambda>count. count) sa b (t0 # types) =
      (if 0 < ?n
       then map_sum (\<lambda>e. e) (\<lambda>draws. (t0, b, ?n) # draws)
              (drawGeometry_loop ppi (\<lambda>count. count) sa ?b' types)
       else drawGeometry_loop ppi (\<lambda>count. count) sa b types)"
    by (simp add: size Let_def)
  obtain draws' where
    d': "drawGeometry_loop ppi (\<lambda>count. count) sa ?b' types = Inr draws'" and
    dr: "draws = (if 0 < ?n then [(t0, b, ?n)] else []) @ draws'"
  proof (cases "0 < ?n")
    case True
    then have "map_sum (\<lambda>e. e) (\<lambda>draws. (t0, b, ?n) # draws)
              (drawGeometry_loop ppi (\<lambda>count. count) sa ?b' types) = Inr draws"
      using Cons.prems(2) unfolding step by simp
    then obtain draws' where "drawGeometry_loop ppi (\<lambda>count. count) sa ?b' types = Inr draws'"
      "draws = (t0, b, ?n) # draws'"
      by (cases "drawGeometry_loop ppi (\<lambda>count. count) sa ?b' types") auto
    then show ?thesis using that True by simp
  next
    case False
    then have n0: "?n = 0" by simp
    have "drawGeometry_loop ppi (\<lambda>count. count) sa b types = Inr draws"
      using Cons.prems(2) False unfolding step by simp
    then have "drawGeometry_loop ppi (\<lambda>count. count) sa ?b' types = Inr draws"
      unfolding n0 by simp
    then show ?thesis using that False by simp
  qed
  show ?case
  proof (cases "(t, base, count) \<in> set draws'")
    case True
    note IH = Cons.IH [OF rest d' True]
    have ge: "?b' \<le> base" using IH by blast
    have "instancePickId base (ppi t) i p - b =
          (instancePickId base (ppi t) i p - ?b') + ?n * ppi t0"
      using ge by (simp add: instancePickId_def)
    then have off: "\<not> instancePickId base (ppi t) i p - b < ?n * ppi t0"
      "instancePickId base (ppi t) i p - b - ?n * ppi t0 = instancePickId base (ppi t) i p - ?b'"
      by simp_all
    show ?thesis using IH ge by (simp add: ids off)
  next
    case False
    then have hd: "t = t0" "base = b" "count = ?n" "0 < ?n"
      using Cons.prems(3) dr by (auto split: if_splits)
    have off: "instancePickId base (ppi t) i p - b = i * ppi t0 + p"
      using hd by (simp add: instancePickId_def)
    have i': "i < ?n" using i hd by simp
    have p': "p < ppi t0" using p hd by simp
    show ?thesis unfolding off using hd i' pick_arith [OF i' p']
      by (simp add: ids Let_def)
  qed
qed

lemma serializeAnnotations_snapshot:
  assumes "serializeAnnotations le allAnnotations ps = Inr sa"
    and "distinct (map ann_id (allAnnotations t))"
  shows "snapshotOf allAnnotations sa t" and "u8_byteOffset (sa_data sa) = 0"
    and "sa_typeToOffset sa t \<noteq> None"
proof -
  have all: "t \<in> set annotationTypes" for t
    by (cases t) (simp_all add: annotationTypes_def)
  note w = writeTypes_Inr [OF assms(1) [unfolded serializeAnnotations_def Let_def]]
  show "snapshotOf allAnnotations sa t"
    using w assms(2) all by (simp add: snapshotOf_def)
  show "u8_byteOffset (sa_data sa) = 0" using w by simp
  show "sa_typeToOffset sa t \<noteq> None" using w all by simp
qed

lemma example_distinct: "distinct (map ann_id (exampleAnnotations t))"
  by (cases t) (simp_all add: pointAt_def)

lemma example_sized:
  "foldl (sizeStep exampleAnnotations 1 0) (0, Map.empty) annotationTypes =
     (16, [POINT \<mapsto> 0, LINE \<mapsto> 8, AXIS_ALIGNED_BOUNDING_BOX \<mapsto> 16, ELLIPSOID \<mapsto> 16])"
  by (simp add: annotationTypes_def sizeStep_def)

lemma zeros16: "replicate 16 (0::byte) = [0, 0, 0, 0, 0, 0, 0, 0, 0, 0, 0, 0, 0, 0, 0, 0]"
  by (simp add: eval_nat_numeral)

lemma example_points:
  "writeAnnotations noProperties POINT True [0, 0, 0, 0, 0, 0, 0, 0, 0, 0, 0, 0, 0, 0, 0, 0] 0
     (exampleAnnotations POINT) =
     Inr [0, 0, 0x80, 0x3F, 0, 0, 0, 0x40, 0, 0, 0, 0, 0, 0, 0, 0]"
  by (simp add: noProperties_def pointAt_def serializeFloatVector_def
      serializeFloatVector_loop.simps setFloat32_def elementAt_def storedFloat32_def isNaN32_def
      float32_bytes_def)

lemma example_lines:
  "writeAnnotations noProperties LINE True
     [0, 0, 0x80, 0x3F, 0, 0, 0, 0x40, 0, 0, 0, 0, 0, 0, 0, 0] 8 (exampleAnnotations LINE) =
     Inr [0, 0, 0x80, 0x3F, 0, 0, 0, 0x40, 0, 0, 0x80, 0x3F, 0, 0, 0x40, 0x40]"
  by (simp add: noProperties_def serializeTwoFloatVectors_def serializeFloatVector_def
      serializeFloatVector_loop.simps setFloat32_def elementAt_def storedFloat32_def isNaN32_def
      float32_bytes_def)

lemma example_serialize: "\<exists>sa. serializeAnnotations True exampleAnnotations noProperties = Inr sa"
proof -
  have r: "aps_rank noProperties = 1" "aps_serializedBytes noProperties = 0"
    by (simp_all add: noProperties_def)
  have e: "writeAnnotations noProperties t True b offset [] = Inr b" for t b offset
    by simp
  show ?thesis
    unfolding serializeAnnotations_def Let_def r example_sized fst_conv snd_conv zeros16
    unfolding annotationTypes_def
    by (simp add: example_points example_lines del: exampleAnnotations.simps writeAnnotations.simps)
      (simp add: e)
qed

lemma example_draw:
  assumes "serializeAnnotations True exampleAnnotations noProperties = Inr sa"
  shows "drawGeometry examplePickIds (\<lambda>count. count) sa 100 = Inr [(POINT, 100, 2), (LINE, 102, 1)]"
proof -
  have "snapshotOf exampleAnnotations sa t" for t
    using assms example_distinct by (rule serializeAnnotations_snapshot(1))
  then have "sa_typeToIdMaps sa t =
      Some (Map_new (zip (map ann_id (exampleAnnotations t)) [0..<length (exampleAnnotations t)]))" for t
    by (simp add: snapshotOf_def)
  then show ?thesis
    by (simp add: drawGeometry_def annotationTypes_def Map_new_def Map_size_def pointAt_def upt_rec)
qed

lemma drawGeometry_loop_total:
  "\<forall>t\<in>set types. snapshotOf allAnnotations sa t \<Longrightarrow>
   \<exists>draws. drawGeometry_loop ppi roundedCount sa b types = Inr draws"
proof (induction types arbitrary: b)
  case Nil
  then show ?case by simp
next
  case (Cons t0 types)
  have "\<exists>idMap. sa_typeToIdMaps sa t0 = Some idMap" using Cons.prems by (simp add: snapshotOf_def)
  then obtain idMap where m: "sa_typeToIdMaps sa t0 = Some idMap" by blast
  have r: "\<exists>draws. drawGeometry_loop ppi roundedCount sa b' types = Inr draws" for b'
    using Cons.IH Cons.prems by simp
  show ?case
  proof (cases "Map_size idMap > 0")
    case True
    obtain draws where "drawGeometry_loop ppi roundedCount sa
        (b + roundedCount (Map_size idMap) * ppi t0) types = Inr draws"
      using r by blast
    then show ?thesis using m True by (simp add: Let_def)
  next
    case False
    then show ?thesis using m r by simp
  qed
qed

text \<open>
  Claim C2: for a snapshot \<open>sa\<close> that \<^verbatim>\<open>serializeAnnotations\<close> returned for annotations
  with distinct ids within each type, take any pick id that the forward enumeration of
  \<^verbatim>\<open>drawGeometry\<close> assigns: the types are walked in the order of \<^verbatim>\<open>annotationTypes\<close>,
  every type with annotations is drawn with all of them (\<open>count\<close> of them, each taking
  \<open>ppi t\<close> pick ids from the type's \<open>basePickId\<close>), so the offset of part \<open>partIndex\<close> of
  instance \<open>instanceIndex\<close> of type \<open>t\<close> from the chunk's \<open>pickId\<close> is a valid flat pick
  offset. Then \<^verbatim>\<open>updateMouseState\<close> (the chunk transform being free of errors) stops at the
  same type \<open>t\<close>, picks the id of the annotation at \<open>instanceIndex\<close> of that type and the
  same part, and the byte location is
  \<^verbatim>\<open>typeToOffset[t] + instanceIndex * (geometryBytes(rank) + propertyBytes)\<close>.
\<close>

theorem picking_inverse:
  assumes "serializeAnnotations le allAnnotations ps = Inr sa"
    and "\<forall>t. distinct (map ann_id (allAnnotations t))"
    and "drawGeometry ppi (\<lambda>count. count) sa pickId = Inr draws"
    and "(t, basePickId, count) \<in> set draws"
    and "instanceIndex < count" and "partIndex < ppi t"
  shows "\<exists>typeOffset. sa_typeToOffset sa t = Some typeOffset \<and>
     count = length (allAnnotations t) \<and>
     updateMouseState ppi None rank propertiesBytes sa
         (instancePickId basePickId (ppi t) instanceIndex partIndex - pickId) =
       Inr (Some
         \<lparr>pa_annotationType = t,
          pa_pickedAnnotationId = Some (ann_id (allAnnotations t ! instanceIndex)),
          pa_pickedOffset = partIndex,
          pa_pickedAnnotationBuffer = u8_buffer (sa_data sa),
          pa_pickedAnnotationBufferOffset =
            Some (typeOffset +
                  instanceIndex * (typeHandler_serializedBytes t rank + propertiesBytes))\<rparr>)"
proof -
  have snap: "\<forall>t\<in>set annotationTypes. snapshotOf allAnnotations sa t"
    using serializeAnnotations_snapshot(1) [OF assms(1)] assms(2) by blast
  obtain typeOffset where off: "sa_typeToOffset sa t = Some typeOffset"
    using serializeAnnotations_snapshot(3) [OF assms(1)] assms(2) by blast
  have zero: "u8_byteOffset (sa_data sa) = 0"
    using serializeAnnotations_snapshot(2) [OF assms(1)] assms(2) by blast
  note r = resolve_inverse [OF snap assms(3) [unfolded drawGeometry_def] assms(4,5,6),
      of rank propertiesBytes]
  show ?thesis using r off zero by (simp add: updateMouseState_def)
qed

theorem picking_inverse_witness:
  "\<exists>sa. serializeAnnotations True exampleAnnotations noProperties = Inr sa \<and>
     (\<forall>t. distinct (map ann_id (exampleAnnotations t))) \<and>
     drawGeometry examplePickIds (\<lambda>count. count) sa 100 = Inr [(POINT, 100, 2), (LINE, 102, 1)] \<and>
     (0::nat) < 1 \<and> (2::nat) < examplePickIds LINE \<and>
     (\<exists>typeOffset. sa_typeToOffset sa LINE = Some typeOffset \<and>
        updateMouseState examplePickIds None 1 0 sa (instancePickId 102 3 0 2 - 100) =
          Inr (Some
            \<lparr>pa_annotationType = LINE, pa_pickedAnnotationId = Some ''l0'', pa_pickedOffset = 2,
             pa_pickedAnnotationBuffer = u8_buffer (sa_data sa),
             pa_pickedAnnotationBufferOffset = Some (typeOffset + 0 * (2 * 4 * 1 + 0))\<rparr>))"
proof -
  obtain sa where s: "serializeAnnotations True exampleAnnotations noProperties = Inr sa"
    using example_serialize by blast
  have d: "\<forall>t. distinct (map ann_id (exampleAnnotations t))" using example_distinct by blast
  note g = example_draw [OF s]
  have m: "(LINE, 102, 1) \<in> set [(POINT, 100, 2), (LINE, 102, 1)]" by simp
  have i: "(0::nat) < 1" and p: "(2::nat) < examplePickIds LINE" by simp_all
  from picking_inverse [OF s d g m i p, of 1 0]
  show ?thesis using s d g by (intro exI [of _ sa]) simp
qed

section \<open>Proofs: rank migration\<close>

lemma example_dims: "newToOldDims [10, 11, 12] 3 [10, 12] 2 = [0, 2]"
  by (simp add: newToOldDims_def indexOf_def upt_rec)

text \<open>
  Claim C1 on the code: \<^verbatim>\<open>mapVector\<close> computes the old dimension of each new dimension
  and tests it against -1, but then reads \<^verbatim>\<open>radii[i]\<close>, not \<^verbatim>\<open>radii[oldDim]\<close>. On the
  example of the specification, the point \<open>(1, 2, 3)\<close> under the mapping that keeps the
  dimensions 0 and 2, the code leaves \<open>(1, 2)\<close> where the claim, and the migration as the
  specification words it, give \<open>(1, 3)\<close>.
\<close>

theorem ensureUpdated_rank_migration_example:
  "map (\<lambda>(k, annotation). ann_geometry annotation) (annotationMap (ensureUpdated exampleLocalSource)) =
     [Point [0x3F800000, 0x40000000]] \<and>
   mapVector_spec 2 (newToOldDims [10, 11, 12] 3 [10, 12] 2) [0x3F800000, 0x40000000, 0x40400000] =
     [0x3F800000, 0x40400000] \<and>
   rank' (ensureUpdated exampleLocalSource) = 2"
  by (simp add: ensureUpdated_def exampleLocalSource_def examplePoint3_def example_dims
      mapVector_def mapVector_spec_def elementAt_def dispatch_def upt_rec Let_def)

text \<open>Once \<^verbatim>\<open>ensureUpdated\<close> has run for a transform it does nothing until the watched
  transform is replaced: the source calls it whenever the transform changes.\<close>

lemma ensureUpdated_idle:
  "ct_objectId (watchableTransform_value s) = ct_objectId (curCoordinateTransform s) \<Longrightarrow>
   ensureUpdated s = s"
  by (simp add: ensureUpdated_def)

lemma ensureUpdated_settled:
  "ct_objectId (watchableTransform_value (ensureUpdated s)) =
     ct_objectId (curCoordinateTransform (ensureUpdated s))"
  by (simp add: ensureUpdated_def dispatch_def Let_def)

text \<open>What \<^verbatim>\<open>ensureUpdated\<close> leaves alone: the pending set, the reference objects and
  their registry, and the keys of the map.\<close>

lemma ensureUpdated_frame:
  "pending (ensureUpdated s) = pending s"
  "refObjects (ensureUpdated s) = refObjects s"
  "references (ensureUpdated s) = references s"
  "nextRef (ensureUpdated s) = nextRef s"
  "map fst (annotationMap (ensureUpdated s)) = map fst (annotationMap s)"
  by (simp_all add: ensureUpdated_def dispatch_def Let_def case_prod_unfold comp_def)

lemma Map_has_keys: "map fst m = map fst m' \<Longrightarrow> Map_has m k = Map_has m' k"
proof -
  assume a: "map fst m = map fst m'"
  have "(map_of m k = None) = (k \<notin> fst ` set m)" by (rule map_of_eq_None_iff)
  also have "fst ` set m = set (map fst m)" by simp
  also have "\<dots> = set (map fst m')" using a by simp
  also have "\<dots> = fst ` set m'" by simp
  also have "(k \<notin> fst ` set m') = (map_of m' k = None)" by (rule map_of_eq_None_iff [symmetric])
  finally show ?thesis by (simp add: Map_has_def)
qed

lemma ensureUpdated_has:
  "Map_has (annotationMap (ensureUpdated s)) k = Map_has (annotationMap s) k"
  by (rule Map_has_keys) (rule ensureUpdated_frame)

text \<open>\<^verbatim>\<open>ensureUpdated\<close> on the two example sources.\<close>

lemma ensureUpdated_example:
  "ensureUpdated exampleLocalSource =
     exampleLocalSource
       \<lparr>annotationMap := [(''p'', examplePoint3\<lparr>ann_geometry := Point [0x3F800000, 0x40000000]\<rparr>)],
        rank' := 2, dispatched := [SourceChanged],
        curCoordinateTransform := watchableTransform_value exampleLocalSource\<rparr>"
  by (simp add: ensureUpdated_def exampleLocalSource_def examplePoint3_def example_dims
      mapVector_def elementAt_def dispatch_def upt_rec Let_def)

lemma ensureUpdated_exampleWithReference:
  "annotationMap (ensureUpdated exampleLocalSourceWithReference) =
     [(''p'', examplePoint3\<lparr>ann_geometry := Point [0x3F800000, 0x40000000]\<rparr>)]"
  "rank' (ensureUpdated exampleLocalSourceWithReference) = 2"
  "dispatched (ensureUpdated exampleLocalSourceWithReference) = [SourceChanged]"
  by (simp_all add: ensureUpdated_def exampleLocalSourceWithReference_def exampleLocalSource_def
      examplePoint3_def example_dims mapVector_def elementAt_def dispatch_def upt_rec Let_def)

section \<open>Proofs: the annotation store\<close>

lemma Map_get_Map_set_same: "Map_get (Map_set m k v) k = Some v"
  by (induction m) (auto simp: Map_get_def)

lemma Map_get_Map_set_other: "k' \<noteq> k \<Longrightarrow> Map_get (Map_set m k v) k' = Map_get m k'"
  by (induction m) (auto simp: Map_get_def)

lemma Map_get_Map_delete_same: "Map_get (Map_delete m k) k = None"
  by (induction m) (auto simp: Map_get_def Map_delete_def)

lemma Map_values_Map_set: "v \<in> set (Map_values (Map_set m k v))"
proof (induction m)
  case Nil
  then show ?case by (simp add: Map_values_def)
next
  case (Cons e m)
  obtain k' v' where e: "e = (k', v')" by (cases e)
  show ?case using Cons e by (cases "k' = k") (simp_all add: Map_values_def)
qed

lemma Map_get_in_set: "Map_get m k = Some v \<Longrightarrow> (k, v) \<in> set m"
  by (simp add: Map_get_def map_of_SomeD)

text \<open>\<^verbatim>\<open>add\<close> and \<^verbatim>\<open>commit\<close> on an \<^verbatim>\<open>AnnotationSource\<close> object, with the empty
  \<^verbatim>\<open>ensureUpdated\<close> unfolded.\<close>

lemma add_base:
  "add generatedId annotation c s =
     (if ann_id annotation = [] then add_insert (annotation\<lparr>ann_id := generatedId\<rparr>) c s
      else if Map_has (annotationMap s) (ann_id annotation)
      then Thrown (Error ''Annotation id already exists'') s
      else add_insert annotation c s)"
  by (simp add: add_def add_with_def AnnotationSource_ensureUpdated_def)

lemma commit_base:
  "commit reference s =
     (case refObjects s reference of
        None \<Rightarrow> Thrown TypeError s
      | Some r \<Rightarrow> Returned () (s\<lparr>pending := pending s - {ref_id r}\<rparr>))"
  by (simp add: commit_def commit_with_def AnnotationSource_ensureUpdated_def)

text \<open>What \<^verbatim>\<open>getReference\<close> leaves alone, and the object it returns.\<close>

lemma getReference_frame:
  assumes "getReference ident s = (reference, s')"
  shows "annotationMap s' = annotationMap s" and "pending s' = pending s"
    and "dispatched s' = dispatched s" and "properties s' = properties s"
  using assms by (auto simp: getReference_def Let_def split: option.splits)

lemma getReference_new:
  assumes "getReference ident s = (reference, s')" and "Map_get (references s) ident = None"
  shows "refObjects s' reference =
           Some \<lparr>ref_id = ident,
                 ref_value = (case Map_get (annotationMap s) ident of
                                Some a \<Rightarrow> Defined a | None \<Rightarrow> Null),
                 ref_refCount = 1\<rparr>"
  using assms by (auto simp: getReference_def Let_def)

lemma getReference_id:
  assumes "getReference ident s = (reference, s')" and "referencesConsistent s"
  shows "\<exists>r. refObjects s' reference = Some r \<and> ref_id r = ident"
proof (cases "Map_get (references s) ident")
  case None
  then show ?thesis using assms(1) by (auto simp: getReference_def Let_def)
next
  case (Some existing)
  then have "(ident, existing) \<in> set (references s)" by (rule Map_get_in_set)
  then obtain r where "refObjects s existing = Some r" "ref_id r = ident"
    using assms(2) by (auto simp: referencesConsistent_def list_all_iff split: option.splits)
  then show ?thesis using assms(1) Some by (auto simp: getReference_def)
qed

lemma add_inserted_effect:
  "annotationMap (add_inserted a c s) = Map_set (annotationMap s) (ann_id a) a"
  "pending (add_inserted a c s) = (if c then pending s else insert (ann_id a) (pending s))"
  "dispatched (add_inserted a c s) = dispatched s @ [SourceChanged, ChildAdded a]"
  "properties (add_inserted a c s) = properties s"
  "references (add_inserted a c s) = references s"
  "refObjects (add_inserted a c s) = refObjects s"
  "nextRef (add_inserted a c s) = nextRef s"
  by (simp_all add: add_inserted_def dispatch_def Let_def)

lemma add_insert_Returned:
  "\<exists>reference s'. add_insert a c s = Returned reference s' \<and>
     getReference (ann_id a) (add_inserted a c s) = (reference, s')"
  by (cases "getReference (ann_id a) (add_inserted a c s)") (simp add: add_insert_def)

lemma add_insert_effect:
  assumes "add_insert a c s = Returned reference s'"
  shows "annotationMap s' = Map_set (annotationMap s) (ann_id a) a"
    and "pending s' = (if c then pending s else insert (ann_id a) (pending s))"
    and "dispatched s' = dispatched s @ [SourceChanged, ChildAdded a]"
    and "properties s' = properties s"
    and "getReference (ann_id a) (add_inserted a c s) = (reference, s')"
proof -
  show g: "getReference (ann_id a) (add_inserted a c s) = (reference, s')"
    using add_insert_Returned [of a c s] assms by auto
  note f = getReference_frame [OF g]
  show "annotationMap s' = Map_set (annotationMap s) (ann_id a) a"
    using f(1) by (simp add: add_inserted_effect)
  show "pending s' = (if c then pending s else insert (ann_id a) (pending s))"
    using f(2) by (simp add: add_inserted_effect)
  show "dispatched s' = dispatched s @ [SourceChanged, ChildAdded a]"
    using f(3) by (simp add: add_inserted_effect)
  show "properties s' = properties s"
    using f(4) by (simp add: add_inserted_effect)
qed

lemma referencesConsistent_add_inserted:
  "referencesConsistent (add_inserted a c s) = referencesConsistent s"
  by (simp add: referencesConsistent_def add_inserted_effect)

lemma add_as_insert:
  assumes "add generatedId annotation c s = Returned reference s'"
  shows "add_insert (withId generatedId annotation) c s = Returned reference s'"
  using assms by (auto simp: add_base withId_def split: if_splits)

lemma jsonId_annotationToJson:
  "jsonId (annotationToJson ops a props) = Some (JString (ann_id a))"
  by (cases "ann_geometry a") (simp_all add: jsonId_def annotationToJson_def)

text \<open>The id that \<^verbatim>\<open>makeAnnotationId()\<close> returns, and \<^verbatim>\<open>Map.set\<close> under a new key.\<close>

lemma Map_set_new: "\<not> Map_has m k \<Longrightarrow> Map_set m k v = m @ [(k, v)]"
  by (induction m) (auto simp: Map_has_def)

lemma makeAnnotationId_length: "length (makeAnnotationId random) = 40"
  by (simp add: makeAnnotationId_def getRandomHexString_def)

lemma hexDigits_length: "length hexDigits = 16"
  by (simp add: hexDigits_def)

lemma hexDigits_nth: "n < 16 \<Longrightarrow> hexDigits ! n \<in> set hexDigits"
  using nth_mem [of n hexDigits] by (simp add: hexDigits_length)

lemma makeAnnotationId_hex: "list_all (\<lambda>c. c \<in> set hexDigits) (makeAnnotationId random)"
  by (simp add: makeAnnotationId_def getRandomHexString_def list_all_iff hexDigits_nth)

lemma makeAnnotationId_zeroDraws: "makeAnnotationId zeroDraws = replicate 40 CHR ''0''"
  by (simp add: makeAnnotationId_def getRandomHexString_def zeroDraws_def hexDigits_def
      map_replicate_const)

lemma zeroId_not_x: "makeAnnotationId zeroDraws \<noteq> ''x''"
  using makeAnnotationId_length [of zeroDraws] by auto

text \<open>
  Claim C9 on the code: \<^verbatim>\<open>add\<close> begins with \<^verbatim>\<open>this.ensureUpdated()\<close>, and it does not
  test the id that \<^verbatim>\<open>makeAnnotationId()\<close> returns against the store. On a local source
  whose watched transform was replaced since \<^verbatim>\<open>ensureUpdated\<close> last ran, \<^verbatim>\<open>add\<close> of an
  annotation whose id the store holds throws, but by then \<^verbatim>\<open>ensureUpdated\<close> has replaced
  the stored point \<open>(1, 2, 3)\<close> by \<open>(1, 2)\<close>, set the rank to 2 and dispatched \<^verbatim>\<open>changed\<close>:
  the collection is modified. And when the random draw gives an id that the store holds,
  here 40 zeros, \<^verbatim>\<open>add\<close> of an annotation without an id returns and the record that was
  stored under that id is replaced: the id assigned is not a fresh one.
\<close>

theorem add_id_semantics_counterexample:
  "annotationMap exampleLocalSource = [(''p'', examplePoint3)] \<and>
   dispatched exampleLocalSource = [] \<and>
   LocalAnnotationSource_add ''0f3a'' examplePoint3 True exampleLocalSource =
     Thrown (Error ''Annotation id already exists'')
       (exampleLocalSource
          \<lparr>annotationMap :=
             [(''p'', examplePoint3\<lparr>ann_geometry := Point [0x3F800000, 0x40000000]\<rparr>)],
           rank' := 2, dispatched := [SourceChanged],
           curCoordinateTransform := watchableTransform_value exampleLocalSource\<rparr>) \<and>
   examplePoint3\<lparr>ann_geometry := Point [0x3F800000, 0x40000000]\<rparr> \<noteq> examplePoint3 \<and>
   ann_id pointWithoutId = [] \<and>
   makeAnnotationId zeroDraws = replicate 40 CHR ''0'' \<and>
   annotationMap storeWithHexId =
     [(replicate 40 CHR ''0'', pointAt (replicate 40 CHR ''0'') 0x3F800000)] \<and>
   add (makeAnnotationId zeroDraws) pointWithoutId True storeWithHexId =
     Returned 0
       (storeWithHexId
          \<lparr>annotationMap :=
             [(replicate 40 CHR ''0'', pointAt (replicate 40 CHR ''0'') 0x40000000)],
           dispatched := [SourceChanged, ChildAdded (pointAt (replicate 40 CHR ''0'') 0x40000000)],
           references := [(replicate 40 CHR ''0'', 0)],
           refObjects :=
             [0 \<mapsto> \<lparr>ref_id = replicate 40 CHR ''0'',
                     ref_value = Defined (pointAt (replicate 40 CHR ''0'') 0x40000000),
                     ref_refCount = 1\<rparr>],
           nextRef := 1\<rparr>)"
proof -
  have a: "LocalAnnotationSource_add ''0f3a'' examplePoint3 True exampleLocalSource =
     Thrown (Error ''Annotation id already exists'') (ensureUpdated exampleLocalSource)"
    by (simp add: LocalAnnotationSource_add_def add_with_def Let_def ensureUpdated_has)
       (simp add: examplePoint3_def exampleLocalSource_def Map_has_def)
  have b: "add (replicate 40 CHR ''0'') pointWithoutId True storeWithHexId =
     Returned 0
       (storeWithHexId
          \<lparr>annotationMap :=
             [(replicate 40 CHR ''0'', pointAt (replicate 40 CHR ''0'') 0x40000000)],
           dispatched := [SourceChanged, ChildAdded (pointAt (replicate 40 CHR ''0'') 0x40000000)],
           references := [(replicate 40 CHR ''0'', 0)],
           refObjects :=
             [0 \<mapsto> \<lparr>ref_id = replicate 40 CHR ''0'',
                     ref_value = Defined (pointAt (replicate 40 CHR ''0'') 0x40000000),
                     ref_refCount = 1\<rparr>],
           nextRef := 1\<rparr>)"
    by (simp add: add_base add_insert_def add_inserted_def getReference_def dispatch_def
        storeWithHexId_def emptyStore_def newAnnotationSource_def pointWithoutId_def pointAt_def
        Map_get_def Let_def)
  have c: "examplePoint3\<lparr>ann_geometry := Point [0x3F800000, 0x40000000]\<rparr> \<noteq> examplePoint3"
    by (simp add: examplePoint3_def)
  show ?thesis
    using a b c
    by (simp add: ensureUpdated_example makeAnnotationId_zeroDraws)
       (simp add: exampleLocalSource_def storeWithHexId_def pointWithoutId_def pointAt_def)
qed

text \<open>
  Claim C9, amended: for a store of every class, whatever its \<^verbatim>\<open>ensureUpdated\<close>, \<^verbatim>\<open>add\<close> of
  an annotation without an id (the empty string) runs \<^verbatim>\<open>ensureUpdated\<close>, assigns to the
  annotation the id that \<^verbatim>\<open>makeAnnotationId()\<close> returns, which is 40 hex digits whatever
  the random draw, and sets the annotation into the map under that id; the id is not
  tested against the store, and the annotation is a new entry at the end of the map
  when the map does not hold the id. \<^verbatim>\<open>add\<close> of an annotation whose id the store holds
  once \<^verbatim>\<open>ensureUpdated\<close> has run throws an error and leaves the store as \<^verbatim>\<open>ensureUpdated\<close>
  left it: as it was on an \<^verbatim>\<open>AnnotationSource\<close> object, and, on a \<^verbatim>\<open>LocalAnnotationSource\<close>
  (where \<^verbatim>\<open>ensureUpdated\<close> keeps the ids), as it was when the watched transform is the
  current one.
\<close>

theorem add_id_semantics:
  "length (makeAnnotationId random) = 40 \<and>
   list_all (\<lambda>digit. digit \<in> set hexDigits) (makeAnnotationId random) \<and>
   (ann_id annotation = [] \<longrightarrow>
      (\<exists>reference s'.
         add_with thisEnsureUpdated (makeAnnotationId random) annotation c s =
           Returned reference s' \<and>
         annotationMap s' =
           Map_set (annotationMap (thisEnsureUpdated s)) (makeAnnotationId random)
             (annotation\<lparr>ann_id := makeAnnotationId random\<rparr>) \<and>
         Map_get (annotationMap s') (makeAnnotationId random) =
           Some (annotation\<lparr>ann_id := makeAnnotationId random\<rparr>) \<and>
         (\<not> Map_has (annotationMap (thisEnsureUpdated s)) (makeAnnotationId random) \<longrightarrow>
            annotationMap s' =
              annotationMap (thisEnsureUpdated s) @
                [(makeAnnotationId random, annotation\<lparr>ann_id := makeAnnotationId random\<rparr>)]))) \<and>
   (ann_id annotation \<noteq> [] \<and>
    Map_has (annotationMap (thisEnsureUpdated s)) (ann_id annotation) \<longrightarrow>
      add_with thisEnsureUpdated generatedId annotation c s =
        Thrown (Error ''Annotation id already exists'') (thisEnsureUpdated s)) \<and>
   (ann_id annotation \<noteq> [] \<and> Map_has (annotationMap base) (ann_id annotation) \<longrightarrow>
      add generatedId annotation c base = Thrown (Error ''Annotation id already exists'') base) \<and>
   (ann_id annotation \<noteq> [] \<and> Map_has (annotationMap local) (ann_id annotation) \<longrightarrow>
      LocalAnnotationSource_add generatedId annotation c local =
        Thrown (Error ''Annotation id already exists'') (ensureUpdated local) \<and>
      (ct_objectId (watchableTransform_value local) = ct_objectId (curCoordinateTransform local) \<longrightarrow>
         ensureUpdated local = local))"
proof (intro conjI impI)
  show "length (makeAnnotationId random) = 40" by (rule makeAnnotationId_length)
  show "list_all (\<lambda>digit. digit \<in> set hexDigits) (makeAnnotationId random)"
    by (rule makeAnnotationId_hex)
next
  assume e: "ann_id annotation = []"
  let ?g = "makeAnnotationId random"
  let ?a = "annotation\<lparr>ann_id := ?g\<rparr>"
  let ?s = "thisEnsureUpdated s"
  obtain reference s' where r: "add_insert ?a c ?s = Returned reference s'"
    using add_insert_Returned [of ?a c ?s] by blast
  have m: "annotationMap s' = Map_set (annotationMap ?s) ?g ?a"
    using add_insert_effect(1) [OF r] by simp
  have a: "add_with thisEnsureUpdated ?g annotation c s = Returned reference s'"
    using e r by (simp add: add_with_def Let_def)
  have g: "Map_get (annotationMap s') ?g = Some ?a"
    by (simp add: m Map_get_Map_set_same)
  have n: "\<not> Map_has (annotationMap ?s) ?g \<longrightarrow> annotationMap s' = annotationMap ?s @ [(?g, ?a)]"
    by (simp add: m Map_set_new)
  show "\<exists>reference s'.
         add_with thisEnsureUpdated ?g annotation c s = Returned reference s' \<and>
         annotationMap s' = Map_set (annotationMap ?s) ?g ?a \<and>
         Map_get (annotationMap s') ?g = Some ?a \<and>
         (\<not> Map_has (annotationMap ?s) ?g \<longrightarrow> annotationMap s' = annotationMap ?s @ [(?g, ?a)])"
    using a m g n by blast
next
  assume "ann_id annotation \<noteq> [] \<and> Map_has (annotationMap (thisEnsureUpdated s)) (ann_id annotation)"
  then show "add_with thisEnsureUpdated generatedId annotation c s =
        Thrown (Error ''Annotation id already exists'') (thisEnsureUpdated s)"
    by (simp add: add_with_def Let_def)
next
  assume "ann_id annotation \<noteq> [] \<and> Map_has (annotationMap base) (ann_id annotation)"
  then show "add generatedId annotation c base = Thrown (Error ''Annotation id already exists'') base"
    by (simp add: add_base)
next
  assume "ann_id annotation \<noteq> [] \<and> Map_has (annotationMap local) (ann_id annotation)"
  then show "LocalAnnotationSource_add generatedId annotation c local =
        Thrown (Error ''Annotation id already exists'') (ensureUpdated local)"
    by (simp add: LocalAnnotationSource_add_def add_with_def Let_def ensureUpdated_has)
next
  assume "ct_objectId (watchableTransform_value local) = ct_objectId (curCoordinateTransform local)"
  then show "ensureUpdated local = local" by (rule ensureUpdated_idle)
qed

theorem add_id_semantics_witness:
  "ann_id pointWithoutId = [] \<and>
   \<not> Map_has (annotationMap (AnnotationSource_ensureUpdated storeWithPoint)) (makeAnnotationId zeroDraws) \<and>
   (\<exists>reference s'.
      add_with AnnotationSource_ensureUpdated (makeAnnotationId zeroDraws) pointWithoutId True
        storeWithPoint = Returned reference s' \<and>
      annotationMap s' =
        annotationMap (AnnotationSource_ensureUpdated storeWithPoint) @
          [(makeAnnotationId zeroDraws, pointWithoutId\<lparr>ann_id := makeAnnotationId zeroDraws\<rparr>)]) \<and>
   ann_id examplePoint3 \<noteq> [] \<and>
   Map_has (annotationMap exampleLocalSource) (ann_id examplePoint3) \<and>
   LocalAnnotationSource_add ''0f3a'' examplePoint3 True exampleLocalSource =
     Thrown (Error ''Annotation id already exists'') (ensureUpdated exampleLocalSource) \<and>
   ct_objectId (watchableTransform_value (ensureUpdated exampleLocalSource)) =
     ct_objectId (curCoordinateTransform (ensureUpdated exampleLocalSource)) \<and>
   Map_has (annotationMap (ensureUpdated exampleLocalSource)) (ann_id examplePoint3) \<and>
   LocalAnnotationSource_add ''0f3a'' examplePoint3 True (ensureUpdated exampleLocalSource) =
     Thrown (Error ''Annotation id already exists'') (ensureUpdated exampleLocalSource) \<and>
   ann_id (pointAt ''x'' 0x40000000) \<noteq> [] \<and>
   Map_has (annotationMap storeWithPoint) (ann_id (pointAt ''x'' 0x40000000)) \<and>
   add ''0f3a'' (pointAt ''x'' 0x40000000) True storeWithPoint =
     Thrown (Error ''Annotation id already exists'') storeWithPoint"
proof -
  have 1: "ann_id pointWithoutId = []" by (simp add: pointWithoutId_def pointAt_def)
  have 2: "\<not> Map_has (annotationMap (AnnotationSource_ensureUpdated storeWithPoint))
      (makeAnnotationId zeroDraws)"
    using zeroId_not_x
    by (simp add: AnnotationSource_ensureUpdated_def storeWithPoint_def emptyStore_def
        newAnnotationSource_def Map_has_def)
  have 3: "ann_id examplePoint3 \<noteq> [] \<and>
      Map_has (annotationMap exampleLocalSource) (ann_id examplePoint3)"
    by (simp add: examplePoint3_def exampleLocalSource_def Map_has_def)
  have 4: "ct_objectId (watchableTransform_value (ensureUpdated exampleLocalSource)) =
     ct_objectId (curCoordinateTransform (ensureUpdated exampleLocalSource))"
    by (rule ensureUpdated_settled)
  have 5: "Map_has (annotationMap (ensureUpdated exampleLocalSource)) (ann_id examplePoint3)"
    using 3 by (simp add: ensureUpdated_has)
  have 6: "ann_id (pointAt ''x'' 0x40000000) \<noteq> [] \<and>
      Map_has (annotationMap storeWithPoint) (ann_id (pointAt ''x'' 0x40000000))"
    by (simp add: pointAt_def storeWithPoint_def emptyStore_def Map_has_def)
  have a: "\<exists>reference s'.
      add_with AnnotationSource_ensureUpdated (makeAnnotationId zeroDraws) pointWithoutId True
        storeWithPoint = Returned reference s' \<and>
      annotationMap s' =
        annotationMap (AnnotationSource_ensureUpdated storeWithPoint) @
          [(makeAnnotationId zeroDraws, pointWithoutId\<lparr>ann_id := makeAnnotationId zeroDraws\<rparr>)]"
    using add_id_semantics [where random = zeroDraws and annotation = pointWithoutId
        and thisEnsureUpdated = AnnotationSource_ensureUpdated and c = True
        and s = storeWithPoint and generatedId = "''0f3a''" and base = storeWithPoint
        and local = exampleLocalSource] 1 2
    by blast
  have b: "LocalAnnotationSource_add ''0f3a'' examplePoint3 True exampleLocalSource =
     Thrown (Error ''Annotation id already exists'') (ensureUpdated exampleLocalSource)"
    using add_id_semantics [where random = zeroDraws and annotation = examplePoint3
        and thisEnsureUpdated = ensureUpdated and c = True
        and s = exampleLocalSource and generatedId = "''0f3a''" and base = storeWithPoint
        and local = exampleLocalSource] 3
    by blast
  have "LocalAnnotationSource_add ''0f3a'' examplePoint3 True (ensureUpdated exampleLocalSource) =
     Thrown (Error ''Annotation id already exists'') (ensureUpdated (ensureUpdated exampleLocalSource)) \<and>
     ensureUpdated (ensureUpdated exampleLocalSource) = ensureUpdated exampleLocalSource"
    using add_id_semantics [where random = zeroDraws and annotation = examplePoint3
        and thisEnsureUpdated = ensureUpdated and c = True
        and s = exampleLocalSource and generatedId = "''0f3a''" and base = storeWithPoint
        and local = "ensureUpdated exampleLocalSource"] 3 4 5
    by blast
  then have c: "LocalAnnotationSource_add ''0f3a'' examplePoint3 True (ensureUpdated exampleLocalSource) =
     Thrown (Error ''Annotation id already exists'') (ensureUpdated exampleLocalSource)"
    by simp
  have d: "add ''0f3a'' (pointAt ''x'' 0x40000000) True storeWithPoint =
     Thrown (Error ''Annotation id already exists'') storeWithPoint"
    using add_id_semantics [where random = zeroDraws and annotation = "pointAt ''x'' 0x40000000"
        and thisEnsureUpdated = ensureUpdated and c = True
        and s = exampleLocalSource and generatedId = "''0f3a''" and base = storeWithPoint
        and local = exampleLocalSource] 6
    by blast
  show ?thesis using 1 2 3 4 5 6 a b c d by blast
qed

text \<open>
  Claim C10 on the code: \<^verbatim>\<open>commit\<close> begins with \<^verbatim>\<open>this.ensureUpdated()\<close>. On a local source
  whose watched transform was replaced since \<^verbatim>\<open>ensureUpdated\<close> last ran, \<^verbatim>\<open>commit\<close> of the
  reference to the pending point \<open>(1, 2, 3)\<close> returns a store whose map holds the point
  \<open>(1, 2)\<close>, whose rank is 2 and whose \<^verbatim>\<open>changed\<close> signal was dispatched: the annotation
  map is not left unchanged, and a notification is dispatched.
\<close>

theorem commit_frame_counterexample:
  "refObjects exampleLocalSourceWithReference 0 =
     Some \<lparr>ref_id = ''p'', ref_value = Defined examplePoint3, ref_refCount = 1\<rparr> \<and>
   annotationMap exampleLocalSourceWithReference = [(''p'', examplePoint3)] \<and>
   rank' exampleLocalSourceWithReference = 3 \<and>
   dispatched exampleLocalSourceWithReference = [] \<and>
   LocalAnnotationSource_commit 0 exampleLocalSourceWithReference =
     Returned () ((ensureUpdated exampleLocalSourceWithReference)\<lparr>pending := {}\<rparr>) \<and>
   annotationMap ((ensureUpdated exampleLocalSourceWithReference)\<lparr>pending := {}\<rparr>) =
     [(''p'', examplePoint3\<lparr>ann_geometry := Point [0x3F800000, 0x40000000]\<rparr>)] \<and>
   rank' ((ensureUpdated exampleLocalSourceWithReference)\<lparr>pending := {}\<rparr>) = 2 \<and>
   dispatched ((ensureUpdated exampleLocalSourceWithReference)\<lparr>pending := {}\<rparr>) =
     [SourceChanged] \<and>
   examplePoint3\<lparr>ann_geometry := Point [0x3F800000, 0x40000000]\<rparr> \<noteq> examplePoint3"
proof -
  have r: "refObjects (ensureUpdated exampleLocalSourceWithReference) 0 =
     Some \<lparr>ref_id = ''p'', ref_value = Defined examplePoint3, ref_refCount = 1\<rparr>"
    by (simp add: ensureUpdated_frame exampleLocalSourceWithReference_def)
  have p: "pending exampleLocalSourceWithReference = {''p''}"
    by (simp add: exampleLocalSourceWithReference_def)
  have c: "LocalAnnotationSource_commit 0 exampleLocalSourceWithReference =
     Returned () ((ensureUpdated exampleLocalSourceWithReference)\<lparr>pending := {}\<rparr>)"
    using r p
    by (simp add: LocalAnnotationSource_commit_def commit_with_def Let_def ensureUpdated_frame)
  have n: "examplePoint3\<lparr>ann_geometry := Point [0x3F800000, 0x40000000]\<rparr> \<noteq> examplePoint3"
    by (simp add: examplePoint3_def)
  have e: "refObjects exampleLocalSourceWithReference 0 =
       Some \<lparr>ref_id = ''p'', ref_value = Defined examplePoint3, ref_refCount = 1\<rparr> \<and>
     annotationMap exampleLocalSourceWithReference = [(''p'', examplePoint3)] \<and>
     rank' exampleLocalSourceWithReference = 3 \<and>
     dispatched exampleLocalSourceWithReference = []"
    by (simp add: exampleLocalSourceWithReference_def exampleLocalSource_def)
  show ?thesis
    using c n e by (simp add: ensureUpdated_exampleWithReference)
qed

text \<open>
  Claim C10, amended: for a store of every class, whatever its \<^verbatim>\<open>ensureUpdated\<close>,
  \<^verbatim>\<open>commit(reference)\<close> runs \<^verbatim>\<open>ensureUpdated\<close> and then only removes the id of the
  reference from the pending set: against the store as \<^verbatim>\<open>ensureUpdated\<close> left it, the
  pending status of every other id, the annotation map, the reference objects, the
  registry of references and the log of dispatched notifications are unchanged, and a
  second \<^verbatim>\<open>commit\<close> changes nothing when \<^verbatim>\<open>ensureUpdated\<close> has nothing more to do. On an
  \<^verbatim>\<open>AnnotationSource\<close> object \<^verbatim>\<open>ensureUpdated\<close> is empty: \<^verbatim>\<open>commit\<close> changes the pending set
  only and dispatches nothing. On a \<^verbatim>\<open>LocalAnnotationSource\<close> the same holds when the
  watched transform is the current one; otherwise the map and the dispatched
  notifications are those that \<^verbatim>\<open>ensureUpdated\<close> leaves. In both classes a second
  \<^verbatim>\<open>commit\<close> returns the store that the first one left.
\<close>

theorem commit_frame:
  "(refObjects (thisEnsureUpdated s) reference = Some r \<longrightarrow>
      (\<exists>s'. commit_with thisEnsureUpdated reference s = Returned () s' \<and>
         pending s' = pending (thisEnsureUpdated s) - {ref_id r} \<and>
         (\<forall>ident. ident \<noteq> ref_id r \<longrightarrow>
            (ident \<in> pending s' \<longleftrightarrow> ident \<in> pending (thisEnsureUpdated s))) \<and>
         annotationMap s' = annotationMap (thisEnsureUpdated s) \<and>
         refObjects s' = refObjects (thisEnsureUpdated s) \<and>
         references s' = references (thisEnsureUpdated s) \<and>
         dispatched s' = dispatched (thisEnsureUpdated s) \<and>
         (thisEnsureUpdated s' = s' \<longrightarrow>
            commit_with thisEnsureUpdated reference s' = Returned () s'))) \<and>
   (refObjects base reference = Some r \<longrightarrow>
      (\<exists>base'. commit reference base = Returned () base' \<and>
         pending base' = pending base - {ref_id r} \<and>
         (\<forall>ident. ident \<noteq> ref_id r \<longrightarrow> (ident \<in> pending base' \<longleftrightarrow> ident \<in> pending base)) \<and>
         annotationMap base' = annotationMap base \<and>
         refObjects base' = refObjects base \<and>
         references base' = references base \<and>
         dispatched base' = dispatched base \<and>
         commit reference base' = Returned () base')) \<and>
   (refObjects local reference = Some r \<longrightarrow>
      (\<exists>local'. LocalAnnotationSource_commit reference local = Returned () local' \<and>
         pending local' = pending local - {ref_id r} \<and>
         (\<forall>ident. ident \<noteq> ref_id r \<longrightarrow> (ident \<in> pending local' \<longleftrightarrow> ident \<in> pending local)) \<and>
         annotationMap local' = annotationMap (ensureUpdated local) \<and>
         dispatched local' = dispatched (ensureUpdated local) \<and>
         (ct_objectId (watchableTransform_value local) = ct_objectId (curCoordinateTransform local) \<longrightarrow>
            annotationMap local' = annotationMap local \<and>
            refObjects local' = refObjects local \<and>
            references local' = references local \<and>
            dispatched local' = dispatched local) \<and>
         LocalAnnotationSource_commit reference local' = Returned () local'))"
proof (intro conjI impI)
  assume r: "refObjects (thisEnsureUpdated s) reference = Some r"
  let ?u = "thisEnsureUpdated s"
  let ?s = "?u\<lparr>pending := pending ?u - {ref_id r}\<rparr>"
  have c: "commit_with thisEnsureUpdated reference s = Returned () ?s"
    using r by (simp add: commit_with_def Let_def)
  have c2: "thisEnsureUpdated ?s = ?s \<longrightarrow>
      commit_with thisEnsureUpdated reference ?s = Returned () ?s"
    using r by (simp add: commit_with_def Let_def)
  show "\<exists>s'. commit_with thisEnsureUpdated reference s = Returned () s' \<and>
         pending s' = pending (thisEnsureUpdated s) - {ref_id r} \<and>
         (\<forall>ident. ident \<noteq> ref_id r \<longrightarrow>
            (ident \<in> pending s' \<longleftrightarrow> ident \<in> pending (thisEnsureUpdated s))) \<and>
         annotationMap s' = annotationMap (thisEnsureUpdated s) \<and>
         refObjects s' = refObjects (thisEnsureUpdated s) \<and>
         references s' = references (thisEnsureUpdated s) \<and>
         dispatched s' = dispatched (thisEnsureUpdated s) \<and>
         (thisEnsureUpdated s' = s' \<longrightarrow>
            commit_with thisEnsureUpdated reference s' = Returned () s')"
    using c c2 by simp
next
  assume "refObjects base reference = Some r"
  then show "\<exists>base'. commit reference base = Returned () base' \<and>
         pending base' = pending base - {ref_id r} \<and>
         (\<forall>ident. ident \<noteq> ref_id r \<longrightarrow> (ident \<in> pending base' \<longleftrightarrow> ident \<in> pending base)) \<and>
         annotationMap base' = annotationMap base \<and>
         refObjects base' = refObjects base \<and>
         references base' = references base \<and>
         dispatched base' = dispatched base \<and>
         commit reference base' = Returned () base'"
    by (simp add: commit_base)
next
  assume r: "refObjects local reference = Some r"
  let ?u = "ensureUpdated local"
  let ?l = "?u\<lparr>pending := pending local - {ref_id r}\<rparr>"
  have c: "LocalAnnotationSource_commit reference local = Returned () ?l"
    using r by (simp add: LocalAnnotationSource_commit_def commit_with_def Let_def ensureUpdated_frame)
  have "ct_objectId (watchableTransform_value ?l) = ct_objectId (curCoordinateTransform ?l)"
    using ensureUpdated_settled [of local] by simp
  then have i: "ensureUpdated ?l = ?l" by (rule ensureUpdated_idle)
  have c2: "LocalAnnotationSource_commit reference ?l = Returned () ?l"
    using r by (simp add: LocalAnnotationSource_commit_def commit_with_def Let_def i ensureUpdated_frame)
  have f: "ct_objectId (watchableTransform_value local) = ct_objectId (curCoordinateTransform local) \<longrightarrow>
            annotationMap ?l = annotationMap local \<and>
            refObjects ?l = refObjects local \<and>
            references ?l = references local \<and>
            dispatched ?l = dispatched local"
    by (simp add: ensureUpdated_idle)
  show "\<exists>local'. LocalAnnotationSource_commit reference local = Returned () local' \<and>
         pending local' = pending local - {ref_id r} \<and>
         (\<forall>ident. ident \<noteq> ref_id r \<longrightarrow> (ident \<in> pending local' \<longleftrightarrow> ident \<in> pending local)) \<and>
         annotationMap local' = annotationMap (ensureUpdated local) \<and>
         dispatched local' = dispatched (ensureUpdated local) \<and>
         (ct_objectId (watchableTransform_value local) = ct_objectId (curCoordinateTransform local) \<longrightarrow>
            annotationMap local' = annotationMap local \<and>
            refObjects local' = refObjects local \<and>
            references local' = references local \<and>
            dispatched local' = dispatched local) \<and>
         LocalAnnotationSource_commit reference local' = Returned () local'"
    using c c2 f by (simp add: ensureUpdated_frame)
qed

theorem commit_frame_witness:
  "refObjects (storeWithPoint\<lparr>pending := {''x'', ''y''}\<rparr>) 0 =
     Some \<lparr>ref_id = ''x'', ref_value = Defined (pointAt ''x'' 0x3F800000), ref_refCount = 1\<rparr> \<and>
   (\<exists>s'. commit 0 (storeWithPoint\<lparr>pending := {''x'', ''y''}\<rparr>) = Returned () s' \<and>
      pending s' = {''y''} \<and>
      annotationMap s' = annotationMap storeWithPoint \<and>
      dispatched s' = [] \<and>
      commit 0 s' = Returned () s') \<and>
   refObjects exampleLocalSourceWithReference 0 =
     Some \<lparr>ref_id = ''p'', ref_value = Defined examplePoint3, ref_refCount = 1\<rparr> \<and>
   (\<exists>s'. LocalAnnotationSource_commit 0 exampleLocalSourceWithReference = Returned () s' \<and>
      pending s' = {} \<and>
      annotationMap s' = annotationMap (ensureUpdated exampleLocalSourceWithReference) \<and>
      dispatched s' = dispatched (ensureUpdated exampleLocalSourceWithReference) \<and>
      LocalAnnotationSource_commit 0 s' = Returned () s') \<and>
   ct_objectId (watchableTransform_value (ensureUpdated exampleLocalSourceWithReference)) =
     ct_objectId (curCoordinateTransform (ensureUpdated exampleLocalSourceWithReference)) \<and>
   (\<exists>s'. LocalAnnotationSource_commit 0 (ensureUpdated exampleLocalSourceWithReference) =
           Returned () s' \<and>
      pending s' = {} \<and>
      annotationMap s' = annotationMap (ensureUpdated exampleLocalSourceWithReference) \<and>
      dispatched s' = dispatched (ensureUpdated exampleLocalSourceWithReference)) \<and>
   (\<exists>s'. commit_with ensureUpdated 0 exampleLocalSourceWithReference = Returned () s' \<and>
      pending s' = {} \<and>
      annotationMap s' = annotationMap (ensureUpdated exampleLocalSourceWithReference))"
proof -
  let ?r = "\<lparr>ref_id = ''x'', ref_value = Defined (pointAt ''x'' 0x3F800000), ref_refCount = 1\<rparr>"
  let ?p = "\<lparr>ref_id = ''p'', ref_value = Defined examplePoint3, ref_refCount = 1\<rparr>"
  have 1: "refObjects (storeWithPoint\<lparr>pending := {''x'', ''y''}\<rparr>) 0 = Some ?r"
    by (simp add: storeWithPoint_def)
  have 2: "refObjects exampleLocalSourceWithReference 0 = Some ?p"
    by (simp add: exampleLocalSourceWithReference_def)
  have 3: "refObjects (ensureUpdated exampleLocalSourceWithReference) 0 = Some ?p"
    using 2 by (simp add: ensureUpdated_frame)
  have 4: "ct_objectId (watchableTransform_value (ensureUpdated exampleLocalSourceWithReference)) =
     ct_objectId (curCoordinateTransform (ensureUpdated exampleLocalSourceWithReference))"
    by (rule ensureUpdated_settled)
  have 5: "{''x'', ''y''} - {''x''} = {''y''}" by auto
  have 6: "pending exampleLocalSourceWithReference = {''p''}"
    by (simp add: exampleLocalSourceWithReference_def)
  have 7: "annotationMap (storeWithPoint\<lparr>pending := {''x'', ''y''}\<rparr>) = annotationMap storeWithPoint"
    "dispatched (storeWithPoint\<lparr>pending := {''x'', ''y''}\<rparr>) = []"
    "pending (storeWithPoint\<lparr>pending := {''x'', ''y''}\<rparr>) = {''x'', ''y''}"
    by (simp_all add: storeWithPoint_def emptyStore_def newAnnotationSource_def)
  have a: "\<exists>s'. commit 0 (storeWithPoint\<lparr>pending := {''x'', ''y''}\<rparr>) = Returned () s' \<and>
      pending s' = {''y''} \<and>
      annotationMap s' = annotationMap storeWithPoint \<and>
      dispatched s' = [] \<and>
      commit 0 s' = Returned () s'"
    using commit_frame [where base = "storeWithPoint\<lparr>pending := {''x'', ''y''}\<rparr>"
        and reference = 0 and r = ?r and thisEnsureUpdated = AnnotationSource_ensureUpdated
        and s = storeWithPoint and local = exampleLocalSourceWithReference] 1 5 7
    by auto
  have b: "\<exists>s'. LocalAnnotationSource_commit 0 exampleLocalSourceWithReference = Returned () s' \<and>
      pending s' = {} \<and>
      annotationMap s' = annotationMap (ensureUpdated exampleLocalSourceWithReference) \<and>
      dispatched s' = dispatched (ensureUpdated exampleLocalSourceWithReference) \<and>
      LocalAnnotationSource_commit 0 s' = Returned () s'"
    using commit_frame [where local = exampleLocalSourceWithReference
        and reference = 0 and r = ?p and thisEnsureUpdated = ensureUpdated
        and s = exampleLocalSourceWithReference and base = storeWithPoint] 2 6
    by auto
  have c: "\<exists>s'. LocalAnnotationSource_commit 0 (ensureUpdated exampleLocalSourceWithReference) =
           Returned () s' \<and>
      pending s' = {} \<and>
      annotationMap s' = annotationMap (ensureUpdated exampleLocalSourceWithReference) \<and>
      dispatched s' = dispatched (ensureUpdated exampleLocalSourceWithReference)"
    using commit_frame [where local = "ensureUpdated exampleLocalSourceWithReference"
        and reference = 0 and r = ?p and thisEnsureUpdated = ensureUpdated
        and s = exampleLocalSourceWithReference and base = storeWithPoint] 3 4 6
    by (auto simp: ensureUpdated_frame)
  have d: "\<exists>s'. commit_with ensureUpdated 0 exampleLocalSourceWithReference = Returned () s' \<and>
      pending s' = {} \<and>
      annotationMap s' = annotationMap (ensureUpdated exampleLocalSourceWithReference)"
    using commit_frame [where thisEnsureUpdated = ensureUpdated
        and s = exampleLocalSourceWithReference and reference = 0 and r = ?p
        and base = storeWithPoint and local = exampleLocalSourceWithReference] 3 6
    by (auto simp: ensureUpdated_frame)
  show ?thesis using 1 2 4 a b c d by blast
qed

lemma delete_deleted:
  "refObjects s reference = Some r \<Longrightarrow> ref_value r = Null \<Longrightarrow> delete reference s = Returned () s"
  by (simp add: delete_def)

lemma delete_live:
  assumes "refObjects s reference = Some r" and "ref_value r \<noteq> Null"
  shows "\<exists>s'. delete reference s = Returned () s' \<and>
     annotationMap s' = Map_delete (annotationMap s) (ref_id r) \<and>
     pending s' = pending s - {ref_id r} \<and>
     refObjects s' = (refObjects s)(reference \<mapsto> r\<lparr>ref_value := Null\<rparr>) \<and>
     dispatched s' =
       dispatched s @ [ReferenceChanged reference, SourceChanged, ChildDeleted (ref_id r)]"
  using assms by (simp add: delete_def dispatch_def Let_def)

lemma update_live:
  assumes "refObjects s reference = Some r" and "ref_value r \<noteq> Null"
  shows "\<exists>s'. update reference a s = Returned () s' \<and>
     annotationMap s' = Map_set (annotationMap s) (ann_id a) a \<and>
     refObjects s' = (refObjects s)(reference \<mapsto> r\<lparr>ref_value := Defined a\<rparr>) \<and>
     dispatched s' =
       dispatched s @ [ReferenceChanged reference, SourceChanged, ChildUpdated a]"
  using assms by (simp add: update_def dispatch_def Let_def)

lemma storeWithNullReference_eq:
  "storeWithNullReference =
     emptyStore\<lparr>refObjects := [0 \<mapsto> \<lparr>ref_id = ''x'', ref_value = Null, ref_refCount = 1\<rparr>],
                nextRef := 1, references := [(''x'', 0)]\<rparr>"
  by (simp add: storeWithNullReference_def getReference_def emptyStore_def newAnnotationSource_def
      Map_get_def Let_def)

text \<open>
  Claim C7, as stated, makes \<^verbatim>\<open>delete\<close> on a reference whose value is \<^verbatim>\<open>null\<close> throw.
  The method starts with \<^verbatim>\<open>if (reference.value === null) return;\<close>: on the store whose
  reference at address 0 has the value \<^verbatim>\<open>null\<close> it returns normally and leaves the store
  as it was.
\<close>

theorem delete_deleted_counterexample:
  "refObjects storeWithNullReference 0 =
     Some \<lparr>ref_id = ''x'', ref_value = Null, ref_refCount = 1\<rparr> \<and>
   delete 0 storeWithNullReference = Returned () storeWithNullReference"
proof -
  have r: "refObjects storeWithNullReference 0 =
     Some \<lparr>ref_id = ''x'', ref_value = Null, ref_refCount = 1\<rparr>"
    by (simp add: storeWithNullReference_eq)
  then show ?thesis by (simp add: delete_deleted)
qed

text \<open>
  Claim C7, amended: \<^verbatim>\<open>delete\<close> on a reference whose value is \<^verbatim>\<open>null\<close> returns without
  any effect and without an exception; on a reference with another value it removes the
  record of the reference's id, clears its pending status, sets the reference's value to
  \<^verbatim>\<open>null\<close> and dispatches the reference's \<^verbatim>\<open>changed\<close>, the store's \<^verbatim>\<open>changed\<close> and
  \<^verbatim>\<open>childDeleted\<close> with the id, in this order.
\<close>

theorem delete_semantics:
  assumes "refObjects s reference = Some r"
  shows "(ref_value r = Null \<longrightarrow> delete reference s = Returned () s) \<and>
     (ref_value r \<noteq> Null \<longrightarrow>
        (\<exists>s'. delete reference s = Returned () s' \<and>
           Map_get (annotationMap s') (ref_id r) = None \<and>
           annotationMap s' = Map_delete (annotationMap s) (ref_id r) \<and>
           ref_id r \<notin> pending s' \<and>
           refObjects s' reference = Some (r\<lparr>ref_value := Null\<rparr>) \<and>
           dispatched s' =
             dispatched s @ [ReferenceChanged reference, SourceChanged, ChildDeleted (ref_id r)]))"
proof (intro conjI impI)
  assume "ref_value r = Null"
  then show "delete reference s = Returned () s" using assms by (simp add: delete_deleted)
next
  assume "ref_value r \<noteq> Null"
  then obtain s' where d: "delete reference s = Returned () s'"
     "annotationMap s' = Map_delete (annotationMap s) (ref_id r)"
     "pending s' = pending s - {ref_id r}"
     "refObjects s' = (refObjects s)(reference \<mapsto> r\<lparr>ref_value := Null\<rparr>)"
     "dispatched s' =
       dispatched s @ [ReferenceChanged reference, SourceChanged, ChildDeleted (ref_id r)]"
    using delete_live [OF assms] by blast
  then show "\<exists>s'. delete reference s = Returned () s' \<and>
           Map_get (annotationMap s') (ref_id r) = None \<and>
           annotationMap s' = Map_delete (annotationMap s) (ref_id r) \<and>
           ref_id r \<notin> pending s' \<and>
           refObjects s' reference = Some (r\<lparr>ref_value := Null\<rparr>) \<and>
           dispatched s' =
             dispatched s @ [ReferenceChanged reference, SourceChanged, ChildDeleted (ref_id r)]"
    by (auto simp: Map_get_Map_delete_same)
qed

theorem delete_semantics_witness:
  "refObjects storeWithPoint 0 =
     Some \<lparr>ref_id = ''x'', ref_value = Defined (pointAt ''x'' 0x3F800000), ref_refCount = 1\<rparr> \<and>
   (\<exists>s'. delete 0 storeWithPoint = Returned () s' \<and>
      Map_get (annotationMap s') ''x'' = None \<and>
      ''x'' \<notin> pending s' \<and>
      refObjects s' 0 = Some \<lparr>ref_id = ''x'', ref_value = Null, ref_refCount = 1\<rparr> \<and>
      dispatched s' = [ReferenceChanged 0, SourceChanged, ChildDeleted ''x'']) \<and>
   refObjects storeWithNullReference 0 =
     Some \<lparr>ref_id = ''x'', ref_value = Null, ref_refCount = 1\<rparr> \<and>
   delete 0 storeWithNullReference = Returned () storeWithNullReference"
proof -
  have h: "refObjects storeWithPoint 0 =
     Some \<lparr>ref_id = ''x'', ref_value = Defined (pointAt ''x'' 0x3F800000), ref_refCount = 1\<rparr>"
    by (simp add: storeWithPoint_def)
  have n: "refObjects storeWithNullReference 0 =
     Some \<lparr>ref_id = ''x'', ref_value = Null, ref_refCount = 1\<rparr>"
    by (simp add: storeWithNullReference_eq)
  have d: "dispatched storeWithPoint = []"
    by (simp add: storeWithPoint_def emptyStore_def newAnnotationSource_def)
  show ?thesis
    using delete_semantics [OF h] delete_semantics [OF n] h n d by auto
qed

lemma add_reference:
  assumes "add generatedId annotation c s = Returned added s'"
  shows "dispatched s' = dispatched s @ [SourceChanged, ChildAdded (withId generatedId annotation)]"
    and "Map_get (references s) (ann_id (withId generatedId annotation)) = None \<Longrightarrow>
         refObjects s' added =
           Some \<lparr>ref_id = ann_id (withId generatedId annotation),
                 ref_value = Defined (withId generatedId annotation), ref_refCount = 1\<rparr>"
proof -
  let ?a = "withId generatedId annotation"
  note i = add_as_insert [OF assms]
  show "dispatched s' = dispatched s @ [SourceChanged, ChildAdded ?a]"
    using add_insert_effect(3) [OF i] .
  assume n: "Map_get (references s) (ann_id ?a) = None"
  have g: "getReference (ann_id ?a) (add_inserted ?a c s) = (added, s')"
    using add_insert_effect(5) [OF i] .
  have "Map_get (references (add_inserted ?a c s)) (ann_id ?a) = None"
    using n by (simp add: add_inserted_effect)
  from getReference_new [OF g this]
  show "refObjects s' added =
           Some \<lparr>ref_id = ann_id ?a, ref_value = Defined ?a, ref_refCount = 1\<rparr>"
    by (simp add: add_inserted_effect Map_get_Map_set_same)
qed

lemma add_on_null_reference:
  "add ''0f3a'' (pointAt ''x'' 0x3F800000) True storeWithNullReference =
     Returned 0
       (storeWithNullReference
          \<lparr>annotationMap := [(''x'', pointAt ''x'' 0x3F800000)],
           dispatched := [SourceChanged, ChildAdded (pointAt ''x'' 0x3F800000)],
           refObjects := [0 \<mapsto> \<lparr>ref_id = ''x'', ref_value = Null, ref_refCount = 2\<rparr>]\<rparr>)"
  by (simp add: storeWithNullReference_eq add_base add_insert_def add_inserted_def getReference_def
      dispatch_def emptyStore_def newAnnotationSource_def pointAt_def Map_has_def Map_get_def
      Let_def numeral_2_eq_2)

text \<open>
  Claim C8, as stated, has the \<^verbatim>\<open>changed\<close> signal of every live reference of an id
  dispatched, and its value set, when the record of that id is added. \<^verbatim>\<open>add\<close> dispatches
  the store's \<^verbatim>\<open>changed\<close> and \<^verbatim>\<open>childAdded\<close> only, and ends with \<^verbatim>\<open>getReference\<close>, which
  returns an object that is already registered as it is: the reference for \<^verbatim>\<open>"x"\<close> taken
  before the record exists keeps the value \<^verbatim>\<open>null\<close> when \<^verbatim>\<open>"x"\<close> is added, and its
  \<^verbatim>\<open>changed\<close> signal is not dispatched.
\<close>

theorem reference_notification_counterexample:
  "refObjects storeWithNullReference 0 =
     Some \<lparr>ref_id = ''x'', ref_value = Null, ref_refCount = 1\<rparr> \<and>
   add ''0f3a'' (pointAt ''x'' 0x3F800000) True storeWithNullReference =
     Returned 0
       (storeWithNullReference
          \<lparr>annotationMap := [(''x'', pointAt ''x'' 0x3F800000)],
           dispatched := [SourceChanged, ChildAdded (pointAt ''x'' 0x3F800000)],
           refObjects := [0 \<mapsto> \<lparr>ref_id = ''x'', ref_value = Null, ref_refCount = 2\<rparr>]\<rparr>) \<and>
   ReferenceChanged 0 \<notin> set [SourceChanged, ChildAdded (pointAt ''x'' 0x3F800000)]"
  using add_on_null_reference by (simp add: storeWithNullReference_eq)

text \<open>
  Claim C8, amended: \<^verbatim>\<open>update(reference, annotation)\<close> and \<^verbatim>\<open>delete(reference)\<close>, on a
  reference whose value is not \<^verbatim>\<open>null\<close>, set the value of that reference (to the new
  record, to \<^verbatim>\<open>null\<close>) and dispatch its \<^verbatim>\<open>changed\<close> signal, before the store's signals.
  \<^verbatim>\<open>add\<close> dispatches the store's \<^verbatim>\<open>changed\<close> and \<^verbatim>\<open>childAdded\<close> and no reference's
  \<^verbatim>\<open>changed\<close>; when no reference is registered for the id, the reference it returns is
  new and has the added record as its value.
\<close>

theorem reference_notification:
  "(refObjects s reference = Some r \<and> ref_value r \<noteq> Null \<longrightarrow>
      (\<exists>s'. update reference a s = Returned () s' \<and>
         refObjects s' reference = Some (r\<lparr>ref_value := Defined a\<rparr>) \<and>
         dispatched s' = dispatched s @ [ReferenceChanged reference, SourceChanged, ChildUpdated a])) \<and>
   (refObjects s reference = Some r \<and> ref_value r \<noteq> Null \<longrightarrow>
      (\<exists>s'. delete reference s = Returned () s' \<and>
         refObjects s' reference = Some (r\<lparr>ref_value := Null\<rparr>) \<and>
         dispatched s' =
           dispatched s @ [ReferenceChanged reference, SourceChanged, ChildDeleted (ref_id r)])) \<and>
   (add generatedId annotation c s = Returned added s'' \<longrightarrow>
      dispatched s'' = dispatched s @ [SourceChanged, ChildAdded (withId generatedId annotation)] \<and>
      (Map_get (references s) (ann_id (withId generatedId annotation)) = None \<longrightarrow>
         refObjects s'' added =
           Some \<lparr>ref_id = ann_id (withId generatedId annotation),
                 ref_value = Defined (withId generatedId annotation), ref_refCount = 1\<rparr>))"
proof (intro conjI impI)
  assume h: "refObjects s reference = Some r \<and> ref_value r \<noteq> Null"
  then obtain s' where "update reference a s = Returned () s'"
    "refObjects s' = (refObjects s)(reference \<mapsto> r\<lparr>ref_value := Defined a\<rparr>)"
    "dispatched s' = dispatched s @ [ReferenceChanged reference, SourceChanged, ChildUpdated a]"
    using update_live [of s reference r a] by blast
  then show "\<exists>s'. update reference a s = Returned () s' \<and>
         refObjects s' reference = Some (r\<lparr>ref_value := Defined a\<rparr>) \<and>
         dispatched s' = dispatched s @ [ReferenceChanged reference, SourceChanged, ChildUpdated a]"
    by auto
next
  assume h: "refObjects s reference = Some r \<and> ref_value r \<noteq> Null"
  then obtain s' where "delete reference s = Returned () s'"
    "refObjects s' = (refObjects s)(reference \<mapsto> r\<lparr>ref_value := Null\<rparr>)"
    "dispatched s' =
       dispatched s @ [ReferenceChanged reference, SourceChanged, ChildDeleted (ref_id r)]"
    using delete_live [of s reference r] by blast
  then show "\<exists>s'. delete reference s = Returned () s' \<and>
         refObjects s' reference = Some (r\<lparr>ref_value := Null\<rparr>) \<and>
         dispatched s' =
           dispatched s @ [ReferenceChanged reference, SourceChanged, ChildDeleted (ref_id r)]"
    by auto
next
  assume "add generatedId annotation c s = Returned added s''"
  then show "dispatched s'' = dispatched s @ [SourceChanged, ChildAdded (withId generatedId annotation)]"
    by (rule add_reference(1))
next
  assume "add generatedId annotation c s = Returned added s''"
    and "Map_get (references s) (ann_id (withId generatedId annotation)) = None"
  then show "refObjects s'' added =
           Some \<lparr>ref_id = ann_id (withId generatedId annotation),
                 ref_value = Defined (withId generatedId annotation), ref_refCount = 1\<rparr>"
    by (rule add_reference(2))
qed

lemma add_on_empty:
  "add ''0f3a'' (pointAt ''x'' 0x3F800000) True emptyStore =
     Returned 0
       (emptyStore
          \<lparr>annotationMap := [(''x'', pointAt ''x'' 0x3F800000)],
           dispatched := [SourceChanged, ChildAdded (pointAt ''x'' 0x3F800000)],
           refObjects := [0 \<mapsto> \<lparr>ref_id = ''x'', ref_value = Defined (pointAt ''x'' 0x3F800000),
                                 ref_refCount = 1\<rparr>],
           nextRef := 1, references := [(''x'', 0)]\<rparr>)"
  by (simp add: add_base add_insert_def add_inserted_def getReference_def
      dispatch_def emptyStore_def newAnnotationSource_def pointAt_def Map_has_def Map_get_def
      Let_def)

theorem reference_notification_witness:
  "refObjects storeWithPoint 0 =
     Some \<lparr>ref_id = ''x'', ref_value = Defined (pointAt ''x'' 0x3F800000), ref_refCount = 1\<rparr> \<and>
   ref_value \<lparr>ref_id = ''x'', ref_value = Defined (pointAt ''x'' 0x3F800000), ref_refCount = 1\<rparr>
     \<noteq> Null \<and>
   (\<exists>s'. update 0 (pointAt ''x'' 0x40000000) storeWithPoint = Returned () s' \<and>
      refObjects s' 0 =
        Some \<lparr>ref_id = ''x'', ref_value = Defined (pointAt ''x'' 0x40000000), ref_refCount = 1\<rparr> \<and>
      dispatched s' = [ReferenceChanged 0, SourceChanged, ChildUpdated (pointAt ''x'' 0x40000000)]) \<and>
   (\<exists>s'. delete 0 storeWithPoint = Returned () s' \<and>
      refObjects s' 0 = Some \<lparr>ref_id = ''x'', ref_value = Null, ref_refCount = 1\<rparr> \<and>
      dispatched s' = [ReferenceChanged 0, SourceChanged, ChildDeleted ''x'']) \<and>
   (\<exists>s''. add ''0f3a'' (pointAt ''x'' 0x3F800000) True emptyStore = Returned 0 s'' \<and>
      Map_get (references emptyStore) ''x'' = None \<and>
      dispatched s'' = [SourceChanged, ChildAdded (pointAt ''x'' 0x3F800000)] \<and>
      refObjects s'' 0 =
        Some \<lparr>ref_id = ''x'', ref_value = Defined (pointAt ''x'' 0x3F800000), ref_refCount = 1\<rparr>)"
proof -
  let ?r = "\<lparr>ref_id = ''x'', ref_value = Defined (pointAt ''x'' 0x3F800000), ref_refCount = 1\<rparr>"
  have h: "refObjects storeWithPoint 0 = Some ?r" by (simp add: storeWithPoint_def)
  have v: "ref_value ?r \<noteq> Null" by simp
  have d: "dispatched storeWithPoint = []" "dispatched emptyStore = []"
    by (simp_all add: storeWithPoint_def emptyStore_def newAnnotationSource_def)
  have w: "withId ''0f3a'' (pointAt ''x'' 0x3F800000) = pointAt ''x'' 0x3F800000"
    "ann_id (pointAt ''x'' 0x3F800000) = ''x''"
    by (simp_all add: withId_def pointAt_def)
  have n: "Map_get (references emptyStore) ''x'' = None"
    by (simp add: emptyStore_def newAnnotationSource_def Map_get_def)
  obtain s'' where a: "add ''0f3a'' (pointAt ''x'' 0x3F800000) True emptyStore = Returned 0 s''"
    using add_on_empty by blast
  note t = reference_notification [of storeWithPoint 0 ?r "pointAt ''x'' 0x40000000"
      "''0f3a''" "pointAt ''x'' 0x3F800000" True 0 s'']
  have u: "\<exists>s'. update 0 (pointAt ''x'' 0x40000000) storeWithPoint = Returned () s' \<and>
      refObjects s' 0 = Some (?r\<lparr>ref_value := Defined (pointAt ''x'' 0x40000000)\<rparr>) \<and>
      dispatched s' = dispatched storeWithPoint @
        [ReferenceChanged 0, SourceChanged, ChildUpdated (pointAt ''x'' 0x40000000)]"
    using t h v by blast
  have e: "\<exists>s'. delete 0 storeWithPoint = Returned () s' \<and>
      refObjects s' 0 = Some (?r\<lparr>ref_value := Null\<rparr>) \<and>
      dispatched s' = dispatched storeWithPoint @
        [ReferenceChanged 0, SourceChanged, ChildDeleted (ref_id ?r)]"
    using t h v by blast
  note t2 = reference_notification [of emptyStore 0 ?r "pointAt ''x'' 0x40000000"
      "''0f3a''" "pointAt ''x'' 0x3F800000" True 0 s'']
  have f: "dispatched s'' = dispatched emptyStore @
        [SourceChanged, ChildAdded (withId ''0f3a'' (pointAt ''x'' 0x3F800000))] \<and>
      refObjects s'' 0 =
        Some \<lparr>ref_id = ann_id (withId ''0f3a'' (pointAt ''x'' 0x3F800000)),
              ref_value = Defined (withId ''0f3a'' (pointAt ''x'' 0x3F800000)), ref_refCount = 1\<rparr>"
    using t2 a n w by simp
  show ?thesis
    using h u e f a n by (simp add: d w)
qed

text \<open>
  Claim C5: after \<^verbatim>\<open>add(annotation, false)\<close> no entry of \<^verbatim>\<open>toJSON()\<close> has the id of the
  added annotation; \<^verbatim>\<open>commit\<close> of the reference that \<^verbatim>\<open>add\<close> returned succeeds, and the
  next \<^verbatim>\<open>toJSON()\<close> contains the JSON of the annotation. The store is any store whose
  registry of references is consistent, which every method keeps.
\<close>

theorem pending_visibility:
  assumes "referencesConsistent s"
    and "add generatedId annotation False s = Returned reference s1"
  shows "(\<forall>j\<in>set (toJSON ops s1).
            jsonId j \<noteq> Some (JString (ann_id (withId generatedId annotation)))) \<and>
         (\<exists>s2. commit reference s1 = Returned () s2 \<and>
            annotationToJson ops (withId generatedId annotation) (properties s2)
              \<in> set (toJSON ops s2))"
proof -
  let ?a = "withId generatedId annotation"
  note i = add_as_insert [OF assms(2)]
  note e = add_insert_effect [OF i]
  have p: "ann_id ?a \<in> pending s1" using e(2) by simp
  have first: "\<forall>j\<in>set (toJSON ops s1). jsonId j \<noteq> Some (JString (ann_id ?a))"
  proof
    fix j assume "j \<in> set (toJSON ops s1)"
    then obtain b where "j = annotationToJson ops b (properties s1)" "ann_id b \<notin> pending s1"
      by (auto simp: toJSON_def)
    then show "jsonId j \<noteq> Some (JString (ann_id ?a))"
      using p by (auto simp: jsonId_annotationToJson)
  qed
  have "referencesConsistent (add_inserted ?a False s)"
    using assms(1) by (simp add: referencesConsistent_add_inserted)
  then obtain r where r: "refObjects s1 reference = Some r" "ref_id r = ann_id ?a"
    using getReference_id [OF e(5)] by blast
  let ?s2 = "s1\<lparr>pending := pending s1 - {ann_id ?a}\<rparr>"
  have c: "commit reference s1 = Returned () ?s2" using r by (simp add: commit_base)
  have "?a \<in> set (iterate ?s2)"
    using e(1) Map_values_Map_set [of ?a "annotationMap s" "ann_id ?a"] by (simp add: iterate_def)
  moreover have "ann_id ?a \<notin> pending ?s2" by simp
  ultimately have "?a \<in> set (filter (\<lambda>b. ann_id b \<notin> pending ?s2) (iterate ?s2))"
    by simp
  then have "annotationToJson ops ?a (properties ?s2) \<in> set (toJSON ops ?s2)"
    unfolding toJSON_def set_map by (rule imageI)
  then show ?thesis using first c by blast
qed

lemma add_pending_on_empty:
  "add ''0f3a'' (pointAt [] 0x3F800000) False emptyStore =
     Returned 0
       (emptyStore
          \<lparr>annotationMap := [(''0f3a'', pointAt ''0f3a'' 0x3F800000)],
           pending := {''0f3a''},
           dispatched := [SourceChanged, ChildAdded (pointAt ''0f3a'' 0x3F800000)],
           refObjects := [0 \<mapsto> \<lparr>ref_id = ''0f3a'', ref_value = Defined (pointAt ''0f3a'' 0x3F800000),
                                 ref_refCount = 1\<rparr>],
           nextRef := 1, references := [(''0f3a'', 0)]\<rparr>)"
  by (simp add: add_base add_insert_def add_inserted_def getReference_def
      dispatch_def emptyStore_def newAnnotationSource_def pointAt_def Map_has_def Map_get_def
      Let_def)

theorem pending_visibility_witness:
  "referencesConsistent emptyStore \<and>
   (\<exists>s1. add ''0f3a'' (pointAt [] 0x3F800000) False emptyStore = Returned 0 s1 \<and>
      toJSON exampleOps s1 = [] \<and>
      (\<exists>s2. commit 0 s1 = Returned () s2 \<and>
         toJSON exampleOps s2 =
           [JObject [(''point'', JArray [JNumber (Finite 1)]), (''type'', JString ''point''),
                     (''id'', JString ''0f3a''), (''description'', JUndefined)]] \<and>
         annotationToJson exampleOps (withId ''0f3a'' (pointAt [] 0x3F800000)) (properties s2)
           \<in> set (toJSON exampleOps s2)))"
proof -
  have rc: "referencesConsistent emptyStore"
    by (simp add: referencesConsistent_def emptyStore_def newAnnotationSource_def)
  obtain s1 where a: "add ''0f3a'' (pointAt [] 0x3F800000) False emptyStore = Returned 0 s1"
    and s1: "s1 = emptyStore
          \<lparr>annotationMap := [(''0f3a'', pointAt ''0f3a'' 0x3F800000)],
           pending := {''0f3a''},
           dispatched := [SourceChanged, ChildAdded (pointAt ''0f3a'' 0x3F800000)],
           refObjects := [0 \<mapsto> \<lparr>ref_id = ''0f3a'', ref_value = Defined (pointAt ''0f3a'' 0x3F800000),
                                 ref_refCount = 1\<rparr>],
           nextRef := 1, references := [(''0f3a'', 0)]\<rparr>"
    using add_pending_on_empty by blast
  have j1: "toJSON exampleOps s1 = []"
    by (simp add: s1 toJSON_def iterate_def Map_values_def pointAt_def)
  from pending_visibility [OF rc a, of exampleOps]
  obtain s2 where c: "commit 0 s1 = Returned () s2"
    and m: "annotationToJson exampleOps (withId ''0f3a'' (pointAt [] 0x3F800000)) (properties s2)
           \<in> set (toJSON exampleOps s2)"
    by blast
  have s2: "s2 = s1\<lparr>pending := {}\<rparr>" using c by (simp add: s1 commit_base)
  have j2: "toJSON exampleOps s2 =
           [JObject [(''point'', JArray [JNumber (Finite 1)]), (''type'', JString ''point''),
                     (''id'', JString ''0f3a''), (''description'', JUndefined)]]"
    by (simp add: s2 s1 toJSON_def iterate_def Map_values_def pointAt_def annotationToJson_def
        ann_type_def vectorToJSON_def exampleOps_def emptyStore_def newAnnotationSource_def)
  show ?thesis using rc a j1 c j2 m by blast
qed









section \<open>Proofs: the registry of references stays consistent\<close>

text \<open>The constructor establishes \<open>referencesConsistent\<close>, and \<^verbatim>\<open>getReference\<close>, \<^verbatim>\<open>add\<close>,
  \<^verbatim>\<open>commit\<close>, \<^verbatim>\<open>update\<close>, \<^verbatim>\<open>delete\<close> and \<^verbatim>\<open>restoreState\<close> keep it, whether they return or
  throw.\<close>

lemma set_Map_set: "set (Map_set m k v) \<subseteq> insert (k, v) (set m)"
proof (induction m)
  case Nil
  then show ?case by simp
next
  case (Cons e m)
  obtain k' v' where e: "e = (k', v')" by (cases e)
  show ?case using Cons e by (cases "k' = k") auto
qed

lemma referencesConsistent_iff:
  "referencesConsistent s \<longleftrightarrow>
     (\<forall>(ident, reference)\<in>set (references s).
        (\<exists>r. refObjects s reference = Some r \<and> ref_id r = ident) \<and> reference < nextRef s)"
  by (auto simp: referencesConsistent_def list_all_iff split: option.splits)

lemma referencesConsistent_new: "referencesConsistent (newAnnotationSource rank rel props)"
  by (simp add: referencesConsistent_def newAnnotationSource_def)

lemma referencesConsistent_getReference:
  assumes "referencesConsistent s" and "getReference ident s = (reference, s')"
  shows "referencesConsistent s'"
proof (cases "Map_get (references s) ident")
  case None
  let ?r = "\<lparr>ref_id = ident,
             ref_value = (case Map_get (annotationMap s) ident of Some a \<Rightarrow> Defined a | None \<Rightarrow> Null),
             ref_refCount = 1\<rparr>"
  have s': "s' = s\<lparr>refObjects := (refObjects s)(nextRef s \<mapsto> ?r), nextRef := nextRef s + 1,
                    references := Map_set (references s) ident (nextRef s)\<rparr>"
    using assms(2) None by (auto simp: getReference_def Let_def)
  show ?thesis
    unfolding referencesConsistent_iff
  proof (intro ballI, clarify)
    fix i a assume "(i, a) \<in> set (references s')"
    then have "(i, a) = (ident, nextRef s) \<or> (i, a) \<in> set (references s)"
      using set_Map_set [of "references s" ident "nextRef s"] by (auto simp: s')
    then show "(\<exists>r. refObjects s' a = Some r \<and> ref_id r = i) \<and> a < nextRef s'"
    proof
      assume "(i, a) = (ident, nextRef s)"
      then show ?thesis by (simp add: s')
    next
      assume "(i, a) \<in> set (references s)"
      then have "(\<exists>r. refObjects s a = Some r \<and> ref_id r = i) \<and> a < nextRef s"
        using assms(1) unfolding referencesConsistent_iff by blast
      then show ?thesis by (auto simp: s')
    qed
  qed
next
  case (Some existing)
  have s': "s' = s\<lparr>refObjects :=
               (case refObjects s existing of
                  None \<Rightarrow> refObjects s
                | Some r \<Rightarrow> (refObjects s)(existing \<mapsto> r\<lparr>ref_refCount := ref_refCount r + 1\<rparr>))\<rparr>"
    using assms(2) Some by (auto simp: getReference_def)
  show ?thesis
    unfolding referencesConsistent_iff
  proof (intro ballI, clarify)
    fix i a assume "(i, a) \<in> set (references s')"
    then have "(i, a) \<in> set (references s)" by (simp add: s')
    then have "(\<exists>r. refObjects s a = Some r \<and> ref_id r = i) \<and> a < nextRef s"
      using assms(1) unfolding referencesConsistent_iff by blast
    then show "(\<exists>r. refObjects s' a = Some r \<and> ref_id r = i) \<and> a < nextRef s'"
      by (cases "refObjects s existing") (auto simp: s')
  qed
qed

lemma referencesConsistent_value:
  assumes "referencesConsistent s" and "refObjects s reference = Some r"
  shows "referencesConsistent (s\<lparr>refObjects := (refObjects s)(reference \<mapsto> r\<lparr>ref_value := v\<rparr>)\<rparr>)"
  using assms unfolding referencesConsistent_iff by auto

lemma referencesConsistent_cong:
  "references s' = references s \<Longrightarrow> refObjects s' = refObjects s \<Longrightarrow> nextRef s' = nextRef s \<Longrightarrow>
   referencesConsistent s' = referencesConsistent s"
  by (simp add: referencesConsistent_def)

lemma referencesConsistent_add:
  assumes "referencesConsistent s" and "add generatedId annotation c s = Returned reference s'"
  shows "referencesConsistent s'"
proof -
  obtain a where "add_insert a c s = Returned reference s'"
    using assms(2) by (auto simp: add_base split: if_splits)
  then have g: "getReference (ann_id a) (add_inserted a c s) = (reference, s')"
    by (cases "getReference (ann_id a) (add_inserted a c s)") (simp add: add_insert_def)
  have "referencesConsistent (add_inserted a c s)"
    using assms(1) by (simp add: referencesConsistent_def add_inserted_def dispatch_def Let_def)
  then show ?thesis using g by (rule referencesConsistent_getReference)
qed

lemma referencesConsistent_commit:
  assumes "referencesConsistent s" and "commit reference s = Returned u s'"
  shows "referencesConsistent s'"
  using assms by (auto simp: commit_base referencesConsistent_def split: option.splits)

lemma referencesConsistent_update:
  assumes "referencesConsistent s" and "update reference a s = Returned u s'"
  shows "referencesConsistent s'"
proof -
  obtain r where r: "refObjects s reference = Some r" and
    s': "s' = dispatch [ReferenceChanged reference, SourceChanged, ChildUpdated a]
           (s\<lparr>refObjects := (refObjects s)(reference \<mapsto> r\<lparr>ref_value := Defined a\<rparr>),
               annotationMap := Map_set (annotationMap s) (ann_id a) a\<rparr>)"
    using assms(2) by (auto simp: update_def Let_def split: option.splits if_splits)
  have "referencesConsistent (s\<lparr>refObjects := (refObjects s)(reference \<mapsto> r\<lparr>ref_value := Defined a\<rparr>)\<rparr>)"
    using assms(1) r by (rule referencesConsistent_value)
  then show ?thesis unfolding s' by (simp add: referencesConsistent_def dispatch_def)
qed

lemma referencesConsistent_delete:
  assumes "referencesConsistent s" and "delete reference s = Returned u s'"
  shows "referencesConsistent s'"
proof -
  obtain r where r: "refObjects s reference = Some r"
    using assms(2) by (auto simp: delete_def split: option.splits)
  show ?thesis
  proof (cases "ref_value r = Null")
    case True
    then show ?thesis using assms r by (simp add: delete_def)
  next
    case False
    then have s': "s' = dispatch [ReferenceChanged reference, SourceChanged, ChildDeleted (ref_id r)]
           (s\<lparr>refObjects := (refObjects s)(reference \<mapsto> r\<lparr>ref_value := Null\<rparr>),
               annotationMap := Map_delete (annotationMap s) (ref_id r),
               pending := pending s - {ref_id r}\<rparr>)"
      using assms(2) r by (simp add: delete_def Let_def)
    have "referencesConsistent (s\<lparr>refObjects := (refObjects s)(reference \<mapsto> r\<lparr>ref_value := Null\<rparr>)\<rparr>)"
      using assms(1) r by (rule referencesConsistent_value)
    then show ?thesis unfolding s' by (simp add: referencesConsistent_def dispatch_def)
  qed
qed

lemma referencesConsistent_resolveReferences:
  "referencesConsistent s \<Longrightarrow> referencesConsistent (resolveReferences rs s)"
proof (induction rs arbitrary: s)
  case Nil
  then show ?case by simp
next
  case (Cons reference rs)
  show ?case
  proof (cases "refObjects s reference")
    case None
    then show ?thesis using Cons by simp
  next
    case (Some r)
    let ?v = "case Map_get (annotationMap s) (ref_id r) of Some a \<Rightarrow> Defined a | None \<Rightarrow> Null"
    have "referencesConsistent (s\<lparr>refObjects := (refObjects s)(reference \<mapsto> r\<lparr>ref_value := ?v\<rparr>)\<rparr>)"
      using Cons.prems Some by (rule referencesConsistent_value)
    then have "referencesConsistent (dispatch [ReferenceChanged reference]
        (s\<lparr>refObjects := (refObjects s)(reference \<mapsto> r\<lparr>ref_value := ?v\<rparr>)\<rparr>))"
      by (simp add: referencesConsistent_def dispatch_def)
    then show ?thesis using Some Cons.IH by simp
  qed
qed

lemma referencesConsistent_restoreElements:
  "referencesConsistent s \<Longrightarrow>
   (case restoreElements ops makeId i xs s of
      Returned u s' \<Rightarrow> referencesConsistent s'
    | Thrown e s' \<Rightarrow> referencesConsistent s')"
proof (induction xs arbitrary: i s)
  case Nil
  then show ?case by simp
next
  case (Cons x xs)
  show ?case
  proof (cases "restoreAnnotation ops (makeId i) x (rank' s) (relationships s) (properties s) False")
    case (Inl e)
    then show ?thesis using Cons.prems by simp
  next
    case (Inr a)
    have "referencesConsistent (s\<lparr>annotationMap := Map_set (annotationMap s) (ann_id a) a\<rparr>)"
      using Cons.prems by (simp add: referencesConsistent_def)
    then show ?thesis using Inr Cons.IH by simp
  qed
qed

lemma referencesConsistent_restoreState:
  assumes "referencesConsistent s"
  shows "case restoreState ops makeId obj s of
           Returned u s' \<Rightarrow> referencesConsistent s'
         | Thrown e s' \<Rightarrow> referencesConsistent s'"
proof -
  let ?s1 = "s\<lparr>annotationMap := [], pending := {}\<rparr>"
  have c1: "referencesConsistent ?s1" using assms by (simp add: referencesConsistent_def)
  have fin: "referencesConsistent t \<Longrightarrow>
      referencesConsistent (dispatch [SourceChanged] (resolveReferences rs t))" for t rs
    using referencesConsistent_resolveReferences [of t rs]
    by (simp add: referencesConsistent_def dispatch_def)
  show ?thesis
  proof (cases obj)
    case (JArray a)
    then show ?thesis
      using referencesConsistent_restoreElements [OF c1, of ops makeId 0 a] fin
      by (auto simp: restoreState_def split: outcome.splits)
  qed (use c1 fin in \<open>simp_all add: restoreState_def\<close>)
qed

end
